(* ===== verification/TM_Prelude.thy ===== *)
theory TM_Prelude
  imports Main "HOL-Library.Word" "HOL-Library.Monad_Syntax" "HOL-Library.Sublist"
    "HOL-Library.Char_ord"
begin

text \<open>
  Shared vocabulary of the tracemate development: the machine integers, C strings and byte
  buffers, the libc string functions the sources call, and the named fact collections.

  A value of type \<open>'a ub\<close> is the result of C code: \<open>None\<close> stands for an execution that C
  leaves undefined (a NULL dereference, a read or a write outside an array, an uninitialised
  variable, a division by zero) or that aborts in an assertion; \<open>Some x\<close> is a normal return.
  A C string is the list of its characters, without the terminating NUL; a buffer that may
  hold NULs is the list of its bytes, and \<open>cstr\<close> is the C string it starts with.
\<close>

unbundle bit_operations_syntax

type_synonym u64 = "64 word"
type_synonym u32 = "32 word"
type_synonym 'a ub = "'a option"

named_theorems tm_defs \<open>unfolding of the small straight-line definitions\<close>
named_theorems tm_frame \<open>what an operation leaves unchanged\<close>

section \<open>C strings\<close>

abbreviation NUL :: char where "NUL \<equiv> CHR 0x00"

definition cstr :: "string \<Rightarrow> string" where
  "cstr b = takeWhile (\<lambda>c. c \<noteq> NUL) b"

text \<open>\<open>strchr\<close> and \<open>strstr\<close> give the position of the first match.\<close>

fun strchr :: "string \<Rightarrow> char \<Rightarrow> nat option" where
  "strchr [] c = None"
| "strchr (x # xs) c = (if x = c then Some 0 else map_option Suc (strchr xs c))"

fun strstr :: "string \<Rightarrow> string \<Rightarrow> nat option" where
  "strstr [] n = (if n = [] then Some 0 else None)"
| "strstr (x # xs) n =
     (if take (length n) (x # xs) = n then Some 0 else map_option Suc (strstr xs n))"

text \<open>\<open>strncmp (a, b, n) == 0\<close> on C strings.\<close>

definition strncmp_eq :: "string \<Rightarrow> string \<Rightarrow> nat \<Rightarrow> bool" where
  "strncmp_eq a b n = (take n a = take n b)"

text \<open>
  The tokens a loop over \<open>strtok_r\<close> with a one-character delimiter set yields: the maximal
  runs without the delimiter, none of them empty.
\<close>

fun split_on :: "char \<Rightarrow> string \<Rightarrow> string list" where
  "split_on d [] = [[]]"
| "split_on d (c # cs) =
     (if c = d then [] # split_on d cs
      else (case split_on d cs of [] \<Rightarrow> [[c]] | t # ts \<Rightarrow> (c # t) # ts))"

definition strtok :: "char \<Rightarrow> string \<Rightarrow> string list" where
  "strtok d s = filter (\<lambda>t. t \<noteq> []) (split_on d s)"

text \<open>
  Writing into a fixed array: \<open>into_buf cap s\<close> succeeds when \<open>s\<close> and its NUL fit in \<open>cap\<close>
  bytes; \<open>snprintf_n cap s\<close> is what \<open>snprintf\<close> with size \<open>cap\<close> leaves in the array.
\<close>

definition into_buf :: "nat \<Rightarrow> string \<Rightarrow> string ub" where
  "into_buf cap s = (if length s < cap then Some s else None)"

definition snprintf_n :: "nat \<Rightarrow> string \<Rightarrow> string" where
  "snprintf_n cap s = take (cap - 1) s"

section \<open>Numbers in text\<close>

definition digit_char :: "nat \<Rightarrow> char" where
  "digit_char n = char_of (48 + n)"

fun dec :: "nat \<Rightarrow> string" where
  "dec n = (if n < 10 then [digit_char n] else dec (n div 10) @ [digit_char (n mod 10)])"

declare dec.simps [simp del]

text \<open>\<open>%d\<close>\<close>

definition int_dec :: "int \<Rightarrow> string" where
  "int_dec i = (if i < 0 then CHR ''-'' # dec (nat (- i)) else dec (nat i))"

definition is_digit :: "char \<Rightarrow> bool" where
  "is_digit c = (48 \<le> (of_char c :: nat) \<and> (of_char c :: nat) \<le> 57)"

definition is_space :: "char \<Rightarrow> bool" where
  "is_space c = (c = CHR '' '' \<or> (9 \<le> (of_char c :: nat) \<and> (of_char c :: nat) \<le> 13))"

definition digit_val :: "char \<Rightarrow> nat" where
  "digit_val c = of_char c - 48"

definition digits_val :: "string \<Rightarrow> nat" where
  "digits_val ds = foldl (\<lambda>a c. 10 * a + digit_val c) 0 ds"

text \<open>\<open>strtoull (s, NULL, 10)\<close>: blanks, a sign, digits; too large saturates, no digits give 0.\<close>

definition strtoull :: "string \<Rightarrow> u64" where
  "strtoull s =
     (let t = dropWhile is_space s;
          neg = (t \<noteq> [] \<and> hd t = CHR ''-'');
          u = (if t \<noteq> [] \<and> (hd t = CHR ''-'' \<or> hd t = CHR ''+'') then tl t else t);
          v = digits_val (takeWhile is_digit u)
      in if 2 ^ 64 \<le> v then - 1
         else if neg then - (of_nat v) else of_nat v)"

section \<open>Byte strings\<close>

text \<open>The \<open>n\<close> bytes of a number in memory order (little endian), and back.\<close>

fun le_bytes :: "nat \<Rightarrow> nat \<Rightarrow> string" where
  "le_bytes 0 v = []"
| "le_bytes (Suc n) v = char_of v # le_bytes n (v div 256)"

fun le_val :: "string \<Rightarrow> nat" where
  "le_val [] = 0"
| "le_val (c # cs) = of_char c + 256 * le_val cs"

section \<open>Facts\<close>

lemma unat_less_64: "unat (x :: u64) < 2 ^ 64"
  using unsigned_less [of x, where ?'a = nat] by simp

lemma length_le_bytes [simp]: "length (le_bytes n v) = n"
  by (induction n arbitrary: v) auto

lemma le_val_le_bytes: "le_val (le_bytes n v) = v mod 256 ^ n"
proof (induction n arbitrary: v)
  case 0
  then show ?case by simp
next
  case (Suc n)
  have "v mod 256 + 256 * (v div 256 mod 256 ^ n) = v mod (256 * 256 ^ n)"
    by (simp add: mod_mult2_eq)
  with Suc show ?case by simp
qed

lemma le_val_u64 [simp]: "of_nat (le_val (le_bytes 8 (unat (x :: u64)))) = x"
  using unat_less_64 [of x] by (simp add: le_val_le_bytes)

lemma cstr_no_NUL [simp]: "NUL \<notin> set s \<Longrightarrow> cstr s = s"
  unfolding cstr_def by (rule takeWhile_eq_all_conv [THEN iffD2]) auto

lemma NUL_notin_cstr [simp]: "NUL \<notin> set (cstr s)"
  by (auto simp: cstr_def dest: set_takeWhileD)

lemma length_cstr_le: "length (cstr s) \<le> length s"
  by (simp add: cstr_def length_takeWhile_le)

lemma cstr_append [simp]: "NUL \<notin> set a \<Longrightarrow> cstr (a @ b) = a @ cstr b"
  unfolding cstr_def by (subst takeWhile_append2) auto

lemma into_buf_Some [simp]: "into_buf cap s = Some t \<longleftrightarrow> t = s \<and> length s < cap"
  by (auto simp: into_buf_def)

lemma split_on_nonempty [simp]: "split_on d s \<noteq> []"
  by (cases s) (auto split: list.split)

lemma split_on_no_delim: "t \<in> set (split_on d s) \<Longrightarrow> d \<notin> set t"
proof (induction s arbitrary: t)
  case (Cons c cs)
  then show ?case
    by (cases "split_on d cs") (auto split: if_splits)
qed simp

lemma strtok_token: "t \<in> set (strtok d s) \<Longrightarrow> t \<noteq> [] \<and> d \<notin> set t"
  by (auto simp: strtok_def dest: split_on_no_delim)

lemma strchr_Some_nth: "strchr s c = Some i \<Longrightarrow> i < length s \<and> s ! i = c \<and> c \<notin> set (take i s)"
  by (induction s arbitrary: i) (auto split: if_splits)

lemma strchr_None_iff: "strchr s c = None \<longleftrightarrow> c \<notin> set s"
  by (induction s) auto

lemma strstr_SomeD: "strstr s n = Some i \<Longrightarrow> s = take i s @ n @ drop (i + length n) s"
proof (induction s arbitrary: i)
  case Nil
  then show ?case by (auto split: if_splits)
next
  case (Cons x xs)
  show ?case
  proof (cases "take (length n) (x # xs) = n")
    case True
    have "x # xs = take (length n) (x # xs) @ drop (length n) (x # xs)"
      by (simp only: append_take_drop_id)
    with True Cons.prems show ?thesis by auto
  next
    case False
    with Cons show ?thesis by auto
  qed
qed

lemma strstr_None_no_occurrence: "strstr s n = None \<Longrightarrow> s \<noteq> a @ n @ b"
proof (induction s arbitrary: a)
  case Nil
  then show ?case by (auto split: if_splits)
next
  case (Cons x xs)
  show ?case
  proof (cases a)
    case Nil
    with Cons.prems show ?thesis by (auto split: if_splits)
  next
    case (Cons y ys)
    with Cons.prems Cons.IH [of ys] show ?thesis by (auto split: if_splits)
  qed
qed

lemma strstr_None_iff: "strstr s n = None \<longleftrightarrow> (\<nexists>a b. s = a @ n @ b)"
  using strstr_None_no_occurrence strstr_SomeD by (metis not_None_eq)

text \<open>Decimal numerals.\<close>

lemma digit_char_val: "n < 10 \<Longrightarrow> digit_val (digit_char n) = n \<and> is_digit (digit_char n)"
  by (simp add: digit_val_def digit_char_def is_digit_def)

lemma digits_val_append: "digits_val (a @ [c]) = 10 * digits_val a + digit_val c"
  by (simp add: digits_val_def)

lemma digits_val_dec [simp]: "digits_val (dec n) = n"
proof (induction n rule: dec.induct)
  case (1 n)
  then show ?case
    by (subst dec.simps) (simp add: digit_char_val digits_val_append digits_val_def [of "[_]"])
qed

lemma dec_digits: "c \<in> set (dec n) \<Longrightarrow> is_digit c"
  by (induction n rule: dec.induct) (subst (asm) (2) dec.simps, auto simp: digit_char_val split: if_splits)

lemma dec_nonempty [simp]: "dec n \<noteq> []"
  by (subst dec.simps) simp

lemma takeWhile_dec: "\<not> is_digit c \<Longrightarrow> takeWhile is_digit (dec n @ c # r) = dec n"
  and dropWhile_dec: "\<not> is_digit c \<Longrightarrow> dropWhile is_digit (dec n @ c # r) = c # r"
  by (simp_all add: dec_digits takeWhile_append dropWhile_append)

lemma takeWhile_dec_all [simp]: "takeWhile is_digit (dec n) = dec n"
  by (simp add: takeWhile_eq_all_conv dec_digits)

lemma digit_no_space: "is_digit c \<Longrightarrow> \<not> is_space c \<and> c \<noteq> CHR ''-'' \<and> c \<noteq> CHR ''+''"
  by (auto simp: is_digit_def is_space_def)

lemma dec_hd: "dec n @ r \<noteq> [] \<and> \<not> is_space (hd (dec n @ r)) \<and> hd (dec n @ r) \<noteq> CHR ''-''
    \<and> hd (dec n @ r) \<noteq> CHR ''+''"
  using digit_no_space [OF dec_digits [of "hd (dec n)" n]] by simp

lemma dropWhile_space_dec [simp]: "dropWhile is_space (dec n @ r) = dec n @ r"
  using dec_hd [of n r] by (cases "dec n @ r") auto

lemma strtoull_dec: "n < 2 ^ 64 \<Longrightarrow> strtoull (dec n) = of_nat n"
  using dec_hd [of n "[]"] dropWhile_space_dec [of n "[]"] by (simp add: strtoull_def Let_def)

text \<open>A fallible operation applied to each element of a list.\<close>

fun foldM :: "('s \<Rightarrow> 'a \<Rightarrow> 's option) \<Rightarrow> 's \<Rightarrow> 'a list \<Rightarrow> 's option" where
  "foldM f s [] = Some s"
| "foldM f s (x # xs) = (case f s x of None \<Rightarrow> None | Some s' \<Rightarrow> foldM f s' xs)"

lemma foldM_invariant:
  assumes "foldM f s xs = Some s'" "I s" "\<And>s x s'. x \<in> set xs \<Longrightarrow> I s \<Longrightarrow> f s x = Some s' \<Longrightarrow> I s'"
  shows "I s'"
  using assms
proof (induction xs arbitrary: s)
  case (Cons x xs)
  then obtain s1 where s1: "f s x = Some s1" "foldM f s1 xs = Some s'" by (auto split: option.splits)
  have "I s1" by (rule Cons.prems(3) [OF _ Cons.prems(2) s1(1)]) simp
  then show ?case by (rule Cons.IH [OF s1(2)]) (rule Cons.prems(3), simp_all)
qed simp

lemma foldM_append: "foldM f s (xs @ ys) = (case foldM f s xs of None \<Rightarrow> None | Some s' \<Rightarrow> foldM f s' ys)"
  by (induction xs arbitrary: s) (auto split: option.splits)

section \<open>Postconditions\<close>

text \<open>
  What holds of every result of a computation that returns, with one rule for each construct the
  translated code is built from.
\<close>

definition post :: "'a ub \<Rightarrow> ('a \<Rightarrow> bool) \<Rightarrow> bool" where
  "post m P = (\<forall>r. m = Some r \<longrightarrow> P r)"

named_theorems post_intros \<open>rules for postconditions\<close>

lemma post_None [post_intros]: "post None P"
  by (simp add: post_def)

lemma post_Some: "P r \<Longrightarrow> post (Some r) P"
  by (simp add: post_def)

lemma postD: "m = Some r \<Longrightarrow> post m P \<Longrightarrow> P r"
  by (simp add: post_def)

lemma post_bind [post_intros]: "(\<And>x. f = Some x \<Longrightarrow> post (g x) P) \<Longrightarrow> post (Option.bind f g) P"
  by (cases f) (auto simp: post_None)

lemma post_if [post_intros]:
  "(b \<Longrightarrow> post x P) \<Longrightarrow> (\<not> b \<Longrightarrow> post y P) \<Longrightarrow> post (if b then x else y) P"
  by simp

lemma post_option [post_intros]:
  "(x = None \<Longrightarrow> post a P) \<Longrightarrow> (\<And>y. x = Some y \<Longrightarrow> post (f y) P) \<Longrightarrow>
     post (case x of None \<Rightarrow> a | Some y \<Rightarrow> f y) P"
  by (cases x) simp_all

lemma post_prod [post_intros]:
  "(\<And>a b. x = (a, b) \<Longrightarrow> post (f a b) P) \<Longrightarrow> post (case x of (a, b) \<Rightarrow> f a b) P"
  by (cases x) simp

lemma post_bind_post: "post f R \<Longrightarrow> (\<And>x. R x \<Longrightarrow> post (g x) P) \<Longrightarrow> post (Option.bind f g) P"
  by (cases f) (auto simp: post_def)

end
