(* ===== verification/TM_Time.thy ===== *)
theory TM_Time
  imports TM_Prelude
begin

text \<open>
  The timestamp helpers of \<open>tm_utils.h\<close>: \<open>floor_timestamp\<close>, \<open>center_timestamp\<close> and
  \<open>ceil_timestamp\<close> place a millisecond timestamp in its flush window, \<open>parse_timestamp\<close>
  reads the \<open>@timestamp\<close> of a document. All arithmetic is on \<open>uint64_t\<close> and wraps; a flush
  frequency of 0 divides by zero and is \<open>None\<close>.
\<close>

section \<open>Flush windows\<close>

definition floor_timestamp :: "u64 \<Rightarrow> u64 \<Rightarrow> u64 ub" where
  "floor_timestamp ms freq = (if freq = 0 then None else Some (ms - ms mod freq))"

definition center_timestamp :: "u64 \<Rightarrow> u64 \<Rightarrow> u64 ub" where
  "center_timestamp ms freq = do { f \<leftarrow> floor_timestamp ms freq; Some (f + freq div 2) }"

definition ceil_timestamp :: "u64 \<Rightarrow> u64 \<Rightarrow> u64 ub" where
  "ceil_timestamp ms freq = do { f \<leftarrow> floor_timestamp ms freq; Some (f + (freq - 1)) }"

section \<open>Parsing a document timestamp\<close>

text \<open>
  The format \<open>%d-%d-%dT%d:%d:%d.%dZ\<close> of \<open>sscanf\<close>: \<open>%d\<close> skips blanks and reads an optional
  sign and digits, another character must match. When a conversion fails the remaining
  variables stay uninitialised and the code goes on to use them: \<open>None\<close>. The same holds for a
  number that is no \<open>int\<close>. \<open>mktime\<close> depends on the process's time zone and is a parameter; its
  argument's \<open>tm_isdst\<close> is not set by the code, and \<open>isdst\<close> is the value it happens to have.
\<close>

record tm =
  tm_sec :: int
  tm_min :: int
  tm_hour :: int
  tm_mday :: int
  tm_mon :: int
  tm_year :: int
  tm_isdst :: int

definition scan_int :: "string \<Rightarrow> (int \<times> string) ub" where
  "scan_int s =
     (let t = dropWhile is_space s;
          neg = (t \<noteq> [] \<and> hd t = CHR ''-'');
          u = (if t \<noteq> [] \<and> (hd t = CHR ''-'' \<or> hd t = CHR ''+'') then tl t else t);
          ds = takeWhile is_digit u;
          v = (if neg then - int (digits_val ds) else int (digits_val ds))
      in if ds = [] \<or> v < - (2 ^ 31) \<or> 2 ^ 31 \<le> v then None
         else Some (v, dropWhile is_digit u))"

definition scan_char :: "char \<Rightarrow> string \<Rightarrow> string ub" where
  "scan_char c s = (case s of [] \<Rightarrow> None | x # xs \<Rightarrow> if x = c then Some xs else None)"

definition parse_timestamp :: "(tm \<Rightarrow> int) \<Rightarrow> int \<Rightarrow> string \<Rightarrow> u64 ub" where
  "parse_timestamp mktime isdst ts = do {
     (y, r) \<leftarrow> scan_int ts; r \<leftarrow> scan_char (CHR ''-'') r;
     (mo, r) \<leftarrow> scan_int r; r \<leftarrow> scan_char (CHR ''-'') r;
     (d, r) \<leftarrow> scan_int r; r \<leftarrow> scan_char (CHR ''T'') r;
     (h, r) \<leftarrow> scan_int r; r \<leftarrow> scan_char (CHR '':'') r;
     (mi, r) \<leftarrow> scan_int r; r \<leftarrow> scan_char (CHR '':'') r;
     (s, r) \<leftarrow> scan_int r; r \<leftarrow> scan_char (CHR ''.'') r;
     (ms, r) \<leftarrow> scan_int r;
     let t = mktime \<lparr>tm_sec = s, tm_min = mi, tm_hour = h, tm_mday = d,
                     tm_mon = mo - 1, tm_year = y - 1900, tm_isdst = isdst\<rparr>;
     Some (word_of_int (t * 1000 + ms)) }"

section \<open>Windows are consistent\<close>

lemmas window_defs = floor_timestamp_def center_timestamp_def ceil_timestamp_def

lemma unat_floor: "unat ((ms :: u64) - ms mod f) = unat ms - unat ms mod unat f"
proof -
  have "ms mod f \<le> ms" by (simp add: word_le_nat_alt unat_mod)
  then show ?thesis by (simp add: unat_sub unat_mod)
qed

lemma floor_window:
  "floor_timestamp ms f = Some w \<Longrightarrow>
     unat w \<le> unat ms \<and> unat ms < unat w + unat f \<and> unat f dvd unat w"
proof -
  assume "floor_timestamp ms f = Some w"
  then have f: "0 < unat f" and w: "unat w = unat ms - unat ms mod unat f"
    by (auto simp: floor_timestamp_def unat_floor unat_gt_0 split: if_splits)
  have "unat ms mod unat f < unat f" using f by simp
  moreover have "unat ms mod unat f \<le> unat ms" by simp
  moreover have "unat f dvd unat ms - unat ms mod unat f" by (simp add: minus_mod_eq_mult_div)
  ultimately show ?thesis unfolding w by auto
qed

text \<open>The window start is the only multiple of the frequency with the timestamp in its window.\<close>

lemma window_unique:
  fixes a b n f :: nat
  assumes "f dvd a" "f dvd b" "a \<le> n" "n < a + f" "b \<le> n" "n < b + f"
  shows "a = b"
proof -
  obtain i j where a: "a = f * i" and b: "b = f * j" using assms(1,2) by (auto elim!: dvdE)
  have "f * i < f * Suc j" and "f * j < f * Suc i" using assms a b by auto
  then have "i < Suc j" and "j < Suc i" by (simp_all only: mult_less_cancel1)
  then show ?thesis using a b by simp
qed

lemma floor_timestamp_eqI:
  assumes "f \<noteq> 0" "unat f dvd unat w" "unat w \<le> unat x" "unat x < unat w + unat f"
  shows "floor_timestamp x f = Some w"
proof -
  obtain v where v: "floor_timestamp x f = Some v" using assms(1) by (simp add: floor_timestamp_def)
  from floor_window [OF v] assms have "unat v = unat w"
    by (intro window_unique [where n = "unat x" and f = "unat f"]) auto
  with v show ?thesis by (simp add: word_unat_eq_iff)
qed

text \<open>A point at offset \<open>k\<close> of a window that does not run past \<open>2 ^ 64\<close> is in that window.\<close>

lemma floor_of_window_point:
  assumes w: "floor_timestamp ms f = Some w" and k: "unat k < unat f"
    and room: "unat w + unat f \<le> 2 ^ 64"
  shows "floor_timestamp (w + k) f = Some w"
proof (rule floor_timestamp_eqI)
  show "f \<noteq> 0" using w by (auto simp: floor_timestamp_def split: if_splits)
  have *: "unat (w + k) = unat w + unat k" using k room by (simp add: unat_plus_if')
  show "unat f dvd unat w" using floor_window [OF w] by simp
  show "unat w \<le> unat (w + k)" "unat (w + k) < unat w + unat f" using k * by auto
qed

section \<open>The text of a timestamp\<close>

text \<open>
  The text a document carries, \<open>2019-03-20T17:09:03.949Z\<close>: four digits for the year, three for the
  milliseconds and two for each other field, filled with zeros.
\<close>

definition padded :: "nat \<Rightarrow> nat \<Rightarrow> string" where
  "padded width n = replicate (width - length (dec n)) (CHR ''0'') @ dec n"

definition timestamp_text :: "nat \<Rightarrow> nat \<Rightarrow> nat \<Rightarrow> nat \<Rightarrow> nat \<Rightarrow> nat \<Rightarrow> nat \<Rightarrow> string" where
  "timestamp_text y mo d h mi s ms =
     padded 4 y @ CHR ''-'' # padded 2 mo @ CHR ''-'' # padded 2 d @ CHR ''T'' #
     padded 2 h @ CHR '':'' # padded 2 mi @ CHR '':'' # padded 2 s @ CHR ''.'' # padded 3 ms @ ''Z''"

lemma zero_digit: "is_digit (CHR ''0'')" "digit_val (CHR ''0'') = 0"
  by (simp_all add: is_digit_def digit_val_def)

lemma digits_val_zeros: "digits_val (replicate k (CHR ''0'') @ ds) = digits_val ds"
  by (induction k) (simp_all add: digits_val_def zero_digit)

lemma padded_digits: "padded w n \<noteq> []" "\<forall>c \<in> set (padded w n). is_digit c" "digits_val (padded w n) = n"
  by (auto simp: padded_def digits_val_zeros zero_digit dec_digits)

lemma scan_int_digits:
  assumes "ds \<noteq> []" "\<forall>c \<in> set ds. is_digit c" "digits_val ds < 2 ^ 31" "\<not> is_digit c"
  shows "scan_int (ds @ c # r) = Some (int (digits_val ds), c # r)"
proof -
  obtain x xs where ds: "ds = x # xs" using assms(1) by (cases ds) auto
  then have "\<not> is_space x" "x \<noteq> CHR ''-''" "x \<noteq> CHR ''+''" using assms(2) digit_no_space [of x] by auto
  moreover have "takeWhile is_digit (ds @ c # r) = ds" "dropWhile is_digit (ds @ c # r) = c # r"
    using assms(2,4) by (simp_all add: takeWhile_append dropWhile_append)
  ultimately show ?thesis using assms(3) ds by (simp add: scan_int_def Let_def)
qed

lemma scan_int_padded:
  "n < 2 ^ 31 \<Longrightarrow> \<not> is_digit c \<Longrightarrow> scan_int (padded w n @ c # r) = Some (int n, c # r)"
  using scan_int_digits [OF padded_digits(1,2), of w n c r] by (simp add: padded_digits(3))

lemma length_padded: "n < 10 ^ w \<Longrightarrow> 0 < w \<Longrightarrow> length (padded w n) = w"
proof -
  have "length (dec n) \<le> w" if "n < 10 ^ w" "0 < w" for n w
    using that
  proof (induction n arbitrary: w rule: dec.induct)
    case (1 n)
    show ?case
    proof (cases "n < 10")
      case True
      then show ?thesis using 1 by (subst dec.simps) simp
    next
      case False
      then obtain v where w: "w = Suc v" "0 < v"
        using 1 by (cases w; cases "w = 1") auto
      then have "n div 10 < 10 ^ v" using 1 by (simp add: less_mult_imp_div_less mult.commute)
      then show ?thesis using 1(1) [of v] False w by (subst dec.simps) simp
    qed
  qed
  then show "n < 10 ^ w \<Longrightarrow> 0 < w \<Longrightarrow> length (padded w n) = w" by (simp add: padded_def)
qed

lemma length_timestamp_text:
  "y < 10000 \<Longrightarrow> mo < 100 \<Longrightarrow> d < 100 \<Longrightarrow> h < 100 \<Longrightarrow> mi < 100 \<Longrightarrow> s < 100 \<Longrightarrow> ms < 1000 \<Longrightarrow>
     length (timestamp_text y mo d h mi s ms) = 24"
  using length_padded [of _ 4] length_padded [of _ 2] length_padded [of _ 3] by (simp add: timestamp_text_def)

section \<open>Properties\<close>

text \<open>C29: Flush windows are consistent: the floor of a timestamp is a multiple of the frequency at
  or below it, its ceiling is at or above it, and the floor, the centre and the ceiling of a
  window all fall in that same window, so that every metric of a window carries one timestamp.\<close>

theorem flush_window_consistent:
  assumes "freq \<noteq> 0" "unat ms - unat ms mod unat freq + unat freq \<le> 2 ^ 64"
  shows "\<exists>w c e. floor_timestamp ms freq = Some w \<and> center_timestamp ms freq = Some c \<and>
           ceil_timestamp ms freq = Some e \<and> unat freq dvd unat w \<and>
           unat w \<le> unat ms \<and> unat ms \<le> unat e \<and> unat e - unat w = unat freq - 1 \<and>
           floor_timestamp w freq = Some w \<and> floor_timestamp c freq = Some w \<and>
           floor_timestamp e freq = Some w"
proof -
  obtain w where w: "floor_timestamp ms freq = Some w" using assms(1) by (simp add: floor_timestamp_def)
  have wn: "unat w = unat ms - unat ms mod unat freq"
    using w by (auto simp: floor_timestamp_def unat_floor split: if_splits)
  have f0: "0 < unat freq" using assms(1) by (simp add: unat_gt_0)
  have m1: "unat (freq - 1) = unat freq - 1" using assms(1) by (simp add: unat_minus_one)
  have room: "unat w + unat freq \<le> 2 ^ 64" using assms(2) wn by simp
  have e: "unat (w + (freq - 1)) = unat w + (unat freq - 1)"
    using room f0 by (simp add: unat_plus_if' m1)
  have "floor_timestamp w freq = Some w"
    using floor_of_window_point [OF w, of 0] room f0 by simp
  moreover have "floor_timestamp (w + freq div 2) freq = Some w"
    "floor_timestamp (w + (freq - 1)) freq = Some w"
    using f0 by (auto intro!: floor_of_window_point [OF w _ room] simp: m1 unat_div)
  ultimately show ?thesis using w e floor_window [OF w]
    by (auto simp: center_timestamp_def ceil_timestamp_def)
qed

theorem flush_window_consistent_witness:
  "\<exists>w. floor_timestamp 125000 60000 = Some w \<and> floor_timestamp w 60000 = Some w"
  using flush_window_consistent [of 60000 125000] by auto

text \<open>C30: \<open>parse_timestamp\<close> reads back every timestamp in the documents' zero-filled format
  (\<open>2019-03-20T17:09:03.949Z\<close>): its result is the time \<open>mktime\<close> gives for the calendar fields, in
  milliseconds, plus the millisecond field.\<close>

theorem parse_timestamp_text:
  assumes "y < 2 ^ 31" "mo < 2 ^ 31" "d < 2 ^ 31" "h < 2 ^ 31" "mi < 2 ^ 31" "s < 2 ^ 31" "ms < 2 ^ 31"
  shows "parse_timestamp mktime isdst (timestamp_text y mo d h mi s ms) =
           Some (word_of_int (mktime \<lparr>tm_sec = int s, tm_min = int mi, tm_hour = int h,
             tm_mday = int d, tm_mon = int mo - 1, tm_year = int y - 1900, tm_isdst = isdst\<rparr> * 1000
             + int ms))"
  using assms
  by (simp add: parse_timestamp_def timestamp_text_def scan_int_padded scan_char_def is_digit_def)

theorem parse_timestamp_text_witness:
  "parse_timestamp (\<lambda>t. tm_sec t + 60 * tm_min t + 3600 * tm_hour t + 86400 * tm_mon t) 0
     ''2019-03-20T17:09:03.949Z'' = Some 234543949"
proof -
  have "timestamp_text 2019 3 20 17 9 3 949 = ''2019-03-20T17:09:03.949Z''"
    by code_simp
  then show ?thesis
    using parse_timestamp_text [of 2019 3 20 17 9 3 949
        "\<lambda>t. tm_sec t + 60 * tm_min t + 3600 * tm_hour t + 86400 * tm_mon t" 0] by simp
qed

end
