(* ===== verification/TM_Text.thy ===== *)
theory TM_Text
  imports TM_Prelude
begin

text \<open>
  The text routines: \<open>tm_clean_tag_value\<close> (tm_process.c), \<open>json_escape_str\<close> (tm_metric.c),
  \<open>to_b64_url\<close> and \<open>tm_replace_vars\<close> (tm_utils.c), \<open>escape_regex\<close> (tm_process_regex.c) and
  \<open>parse_v6_type\<close> (tm_process_elastic_span.c). Each is translated with the loop state the C
  code keeps, and related to a specification without that state.
\<close>

section \<open>Tag values\<close>

definition vtagmap_value :: "nat list" where
  "vtagmap_value =
     replicate 32 0 @
     [0,1,1,1,1,1,1,1,0,0,0,0,0,1,1,1,1,1,1,1,1,1,1,1,1,1,1,0,0,1,0,1,
      1,1,1,1,1,1,1,1,1,1,1,1,1,1,1,1,1,1,1,1,1,1,1,1,1,1,1,0,0,0,1,1,
      1,1,1,1,1,1,1,1,1,1,1,1,1,1,1,1,1,1,1,1,1,1,1,1,1,1,1,0,0,0,0,0] @
     replicate 128 0"

definition tm_clean_tag_value :: "string \<Rightarrow> string" where
  "tm_clean_tag_value tag =
     map (\<lambda>c. if vtagmap_value ! of_char c = 0 then CHR ''_'' else c) tag"

definition tag_char_ok :: "char \<Rightarrow> bool" where
  "tag_char_ok c = (vtagmap_value ! of_char c \<noteq> 0)"

lemma clean_tag_length [simp]: "length (tm_clean_tag_value t) = length t"
  by (simp add: tm_clean_tag_value_def)

lemma underscore_ok: "tag_char_ok (CHR ''_'')"
  by code_simp

lemma clean_tag_chars: "c \<in> set (tm_clean_tag_value t) \<Longrightarrow> tag_char_ok c"
  using underscore_ok by (auto simp: tm_clean_tag_value_def tag_char_ok_def split: if_splits)

lemma clean_tag_fixpoint: "\<forall>c \<in> set t. tag_char_ok c \<Longrightarrow> tm_clean_tag_value t = t"
  unfolding tm_clean_tag_value_def by (rule map_idI) (auto simp: tag_char_ok_def)

lemma tag_separators_rejected:
  "\<not> tag_char_ok (CHR '','')" "\<not> tag_char_ok (CHR '']'')" "\<not> tag_char_ok (CHR ''['')"
  "\<not> tag_char_ok (CHR ''|'')" "\<not> tag_char_ok (CHR '' '')" "\<not> tag_char_ok (CHR ''+'')"
  by code_simp+

section \<open>Escaping a string for JSON\<close>

definition json_hex_chars :: string where "json_hex_chars = ''0123456789abcdef''"

definition json_special :: "char \<Rightarrow> bool" where
  "json_special c =
     (c \<in> {CHR 0x08, CHR 0x0A, CHR 0x0D, CHR 0x09, CHR ''\"'', CHR 0x5C, CHR ''/''})"

text \<open>The two-character escape of a special character (\<open>CHR 0x5C\<close> is the backslash).\<close>

definition json_escape2 :: "char \<Rightarrow> string" where
  "json_escape2 c =
     [CHR 0x5C,
      if c = CHR 0x08 then CHR ''b'' else if c = CHR 0x0A then CHR ''n''
      else if c = CHR 0x0D then CHR ''r'' else if c = CHR 0x09 then CHR ''t'' else c]"

definition json_escape_u :: "char \<Rightarrow> string" where
  "json_escape_u c =
     [CHR 0x5C, CHR ''u'', CHR ''0'', CHR ''0'',
      json_hex_chars ! (of_char c div 16), json_hex_chars ! (of_char c mod 16)]"

text \<open>
  The loop of \<open>json_escape_str\<close>: \<open>pos\<close> is the current character, \<open>start_offset\<close> the first one
  not yet copied, \<open>pb\<close> the buffer. Reaching the NUL (\<open>pos = length str\<close>) ends it.
\<close>

function json_escape_loop :: "string \<Rightarrow> nat \<Rightarrow> nat \<Rightarrow> string \<Rightarrow> string" where
  "json_escape_loop str pos start_offset pb =
     (let chunk = take (pos - start_offset) (drop start_offset str) in
      if length str \<le> pos then pb @ chunk
      else let c = str ! pos in
        if json_special c then
          json_escape_loop str (Suc pos) (Suc pos) (pb @ chunk @ json_escape2 c)
        else if c < CHR '' '' then
          json_escape_loop str (Suc pos) (Suc pos) (pb @ chunk @ json_escape_u c)
        else json_escape_loop str (Suc pos) start_offset pb)"
  by pat_completeness auto
termination
  by (relation "measure (\<lambda>(str, pos, _, _). length str - pos)") auto

declare json_escape_loop.simps [simp del]

definition json_escape_str :: "string \<Rightarrow> string \<Rightarrow> string" where
  "json_escape_str pb str = json_escape_loop str 0 0 pb"

text \<open>The specification: every character on its own.\<close>

definition json_escape_char :: "char \<Rightarrow> string" where
  "json_escape_char c =
     (if json_special c then json_escape2 c
      else if c < CHR '' '' then json_escape_u c else [c])"

definition json_escape_spec :: "string \<Rightarrow> string" where
  "json_escape_spec s = concat (map json_escape_char s)"

lemma json_escape_spec_Nil [simp]: "json_escape_spec [] = []"
  and json_escape_spec_append [simp]: "json_escape_spec (a @ b) = json_escape_spec a @ json_escape_spec b"
  by (simp_all add: json_escape_spec_def)

text \<open>The pending chunk holds plain characters only, so copying it late changes nothing.\<close>

lemma json_escape_loop_spec:
  assumes "start \<le> pos" "pos \<le> length s"
    and "\<forall>c \<in> set (take (pos - start) (drop start s)). \<not> json_special c \<and> \<not> c < CHR '' ''"
  shows "json_escape_loop s pos start pb =
           pb @ take (pos - start) (drop start s) @ json_escape_spec (drop pos s)"
  using assms
proof (induction s pos start pb rule: json_escape_loop.induct)
  case (1 s pos start pb)
  let ?chunk = "take (pos - start) (drop start s)"
  show ?case
  proof (cases "length s \<le> pos")
    case True
    then show ?thesis by (simp add: json_escape_loop.simps [of s pos start pb])
  next
    case False
    define c where "c = s ! pos"
    have drop: "drop pos s = c # drop (Suc pos) s" using False by (simp add: c_def Cons_nth_drop_Suc)
    have snoc: "take (Suc pos - start) (drop start s) = ?chunk @ [c]"
      using False "1.prems" by (simp add: Suc_diff_le take_Suc_conv_app_nth c_def)
    consider "json_special c" | "\<not> json_special c" "c < CHR '' ''"
      | "\<not> json_special c" "\<not> c < CHR '' ''" by blast
    then show ?thesis
    proof cases
      case 1
      have "json_escape_loop s pos start pb =
              json_escape_loop s (Suc pos) (Suc pos) (pb @ ?chunk @ json_escape2 c)"
        using False 1 by (simp add: json_escape_loop.simps [of s pos start pb] c_def Let_def)
      with "1.IH"(1) [OF refl False refl] False 1 drop show ?thesis
        by (simp add: c_def json_escape_spec_def json_escape_char_def)
    next
      case 2
      have "json_escape_loop s pos start pb =
              json_escape_loop s (Suc pos) (Suc pos) (pb @ ?chunk @ json_escape_u c)"
        using False 2 by (simp add: json_escape_loop.simps [of s pos start pb] c_def Let_def)
      with "1.IH"(2) [OF refl False refl] False 2 drop show ?thesis
        by (simp add: c_def json_escape_spec_def json_escape_char_def)
    next
      case 3
      have "json_escape_loop s pos start pb = json_escape_loop s (Suc pos) start pb"
        using False 3 by (simp add: json_escape_loop.simps [of s pos start pb] c_def Let_def)
      with "1.IH"(3) [OF refl False refl] False 3 drop snoc "1.prems" show ?thesis
        by (simp add: c_def json_escape_spec_def json_escape_char_def)
    qed
  qed
qed

lemma json_escape_str_spec: "json_escape_str pb s = pb @ json_escape_spec s"
  by (simp add: json_escape_str_def json_escape_loop_spec)

text \<open>What a JSON reader makes of the body of a string literal (\<open>None\<close> when it is malformed).\<close>

definition hex_val :: "char \<Rightarrow> nat option" where
  "hex_val c =
     (let n = of_char c in
      if 48 \<le> n \<and> n \<le> 57 then Some (n - 48) else if 97 \<le> n \<and> n \<le> 102 then Some (n - 87) else None)"

definition json_unescape2 :: "char \<Rightarrow> char option" where
  "json_unescape2 e =
     (if e = CHR ''b'' then Some (CHR 0x08) else if e = CHR ''n'' then Some (CHR 0x0A)
      else if e = CHR ''r'' then Some (CHR 0x0D) else if e = CHR ''t'' then Some (CHR 0x09)
      else if e = CHR ''\"'' \<or> e = CHR 0x5C \<or> e = CHR ''/'' then Some e else None)"

fun json_unescape :: "string \<Rightarrow> string option" where
  "json_unescape [] = Some []"
| "json_unescape (c # cs) =
     (if c = CHR 0x5C then
        (case cs of
           [] \<Rightarrow> None
         | e # r \<Rightarrow>
             if e = CHR ''u'' then
               (case r of
                  z1 # z2 # h # l # r' \<Rightarrow>
                    (if z1 = CHR ''0'' \<and> z2 = CHR ''0'' then
                       do { x \<leftarrow> hex_val h; y \<leftarrow> hex_val l; t \<leftarrow> json_unescape r';
                            Some (char_of (16 * x + y) # t) }
                     else None)
                | _ \<Rightarrow> None)
             else do { x \<leftarrow> json_unescape2 e; t \<leftarrow> json_unescape r; Some (x # t) })
      else if c = CHR ''\"'' \<or> c < CHR '' '' then None
      else map_option (Cons c) (json_unescape cs))"

lemma hex_val_hex_chars: "n < 16 \<Longrightarrow> hex_val (json_hex_chars ! n) = Some n"
proof -
  have "list_all (\<lambda>n. hex_val (json_hex_chars ! n) = Some n) [0..<16]" by code_simp
  then show "n < 16 \<Longrightarrow> ?thesis" by (simp add: list_all_iff)
qed

lemma json_unescape2_escape2:
  "json_special c \<Longrightarrow> json_escape2 c = [CHR 0x5C, e] \<Longrightarrow> json_unescape2 e = Some c \<and> e \<noteq> CHR ''u''"
  by (auto simp: json_special_def json_escape2_def json_unescape2_def)

lemma json_unescape_char:
  "json_unescape (json_escape_char c @ r) = map_option (Cons c) (json_unescape r)"
proof -
  consider "json_special c" | "\<not> json_special c" "c < CHR '' ''"
    | "\<not> json_special c" "\<not> c < CHR '' ''" by blast
  then show ?thesis
  proof cases
    case 1
    then obtain e where e: "json_escape2 c = [CHR 0x5C, e]" by (simp add: json_escape2_def)
    with 1 json_unescape2_escape2 [OF 1 e] show ?thesis
      by (cases "json_unescape r") (auto simp: json_escape_char_def)
  next
    case 2
    have "of_char c < (32 :: nat)" using 2 by (simp add: less_char_def)
    then have h: "of_char c div 16 < (16 :: nat)" "of_char c mod 16 < (16 :: nat)" by simp_all
    from 2 show ?thesis
      by (cases "json_unescape r")
        (auto simp: json_escape_char_def json_escape_u_def hex_val_hex_chars h)
  next
    case 3
    then show ?thesis by (auto simp: json_escape_char_def json_special_def)
  qed
qed

lemma json_unescape_spec: "json_unescape (json_escape_spec s) = Some s"
proof (induction s)
  case (Cons c s)
  then show ?case using json_unescape_char [of c "json_escape_spec s"]
    by (simp add: json_escape_spec_def)
qed simp

section \<open>URL-safe base64\<close>

text \<open>
  \<open>to_b64_url\<close> rewrites the buffer in place. The bound \<open>new_len\<close> of the loop shrinks while the
  loop runs: after the first \<open>=\<close> the last position is no longer visited.
\<close>

function to_b64_url_loop :: "string \<Rightarrow> nat \<Rightarrow> nat \<Rightarrow> string \<times> nat" where
  "to_b64_url_loop b64 i new_len =
     (if i < new_len then
        (if b64 ! i = CHR ''+'' then to_b64_url_loop (b64[i := CHR ''-'']) (Suc i) new_len
         else if b64 ! i = CHR ''/'' then to_b64_url_loop (b64[i := CHR ''_'']) (Suc i) new_len
         else if b64 ! i = CHR ''='' then to_b64_url_loop (b64[i := NUL]) (Suc i) (new_len - 1)
         else to_b64_url_loop b64 (Suc i) new_len)
      else (b64, new_len))"
  by pat_completeness auto
termination
  by (relation "measure (\<lambda>(_, i, n). n - i)") auto

declare to_b64_url_loop.simps [simp del]

definition to_b64_url :: "string \<Rightarrow> nat \<Rightarrow> string \<times> nat" where
  "to_b64_url b64 len = to_b64_url_loop b64 0 len"

definition url_char :: "char \<Rightarrow> char" where
  "url_char c = (if c = CHR ''+'' then CHR ''-'' else if c = CHR ''/'' then CHR ''_'' else c)"

lemma to_b64_url_step:
  "i < n \<Longrightarrow> b ! i \<noteq> CHR ''='' \<Longrightarrow>
     to_b64_url_loop b i n = to_b64_url_loop (b[i := url_char (b ! i)]) (Suc i) n"
  by (subst to_b64_url_loop.simps) (auto simp: url_char_def)

lemma to_b64_url_body:
  assumes "i \<le> length d" "CHR ''='' \<notin> set d" "length d \<le> n"
  shows "to_b64_url_loop (map url_char (take i d) @ drop i d @ r) i n =
           to_b64_url_loop (map url_char d @ r) (length d) n"
  using assms
proof (induction "length d - i" arbitrary: i)
  case 0
  then show ?case by simp
next
  case (Suc k)
  then have i: "i < length d" by simp
  let ?b = "map url_char (take i d) @ drop i d @ r"
  have nth: "?b ! i = d ! i" using i by (simp add: nth_append)
  have upd: "?b[i := c] = map url_char (take i d) @ c # drop (Suc i) d @ r" for c
    using i by (simp add: list_update_append Cons_nth_drop_Suc [symmetric])
  have next_i: "map url_char (take i d) @ url_char (d ! i) # drop (Suc i) d @ r =
                  map url_char (take (Suc i) d) @ drop (Suc i) d @ r"
    using i by (simp add: take_Suc_conv_app_nth)
  have "d ! i \<noteq> CHR ''=''" using i Suc.prems(2) by (metis nth_mem)
  then have "to_b64_url_loop ?b i n =
      to_b64_url_loop (map url_char (take (Suc i) d) @ drop (Suc i) d @ r) (Suc i) n"
    using i Suc.prems(3) by (subst to_b64_url_step) (simp_all only: nth upd next_i, simp_all)
  also have "\<dots> = to_b64_url_loop (map url_char d @ r) (length d) n"
    using Suc by (intro Suc.hyps(1)) auto
  finally show ?case .
qed

lemma to_b64_url_padded:
  assumes "CHR ''='' \<notin> set d" "p \<le> 2"
  shows "to_b64_url (d @ replicate p (CHR ''='')) (length d + p) =
           (map url_char d @ (if p = 0 then [] else NUL # replicate (p - 1) (CHR ''='')),
            if p = 0 then length d else length d + p - 1)"
proof -
  have *: "to_b64_url (d @ r) n = to_b64_url_loop (map url_char d @ r) (length d) n"
    if "length d \<le> n" for r n
    using to_b64_url_body [of 0 d n r] assms(1) that by (simp add: to_b64_url_def)
  consider "p = 0" | "p = 1" | "p = 2" using assms(2) by linarith
  then show ?thesis
    by cases (use * [of _ "[]"] in
        \<open>simp_all add: * to_b64_url_loop.simps nth_append list_update_append numeral_2_eq_2\<close>)
qed

section \<open>Variable replacement\<close>

datatype replace_state = STATE_NONE | STATE_START_BRACE | STATE_IN_VAR | STATE_END_BRACE

record replace_vars =
  rv_state :: replace_state
  rv_var :: string
  rv_result :: string

text \<open>
  One iteration of the loop of \<open>tm_replace_vars\<close>. \<open>values\<close> is the hash of values; a variable
  that is absent from it or stored as NULL is \<open>None\<close>, and both only log an error.
\<close>

definition replace_step :: "(string \<rightharpoonup> string) \<Rightarrow> replace_vars \<Rightarrow> char \<Rightarrow> replace_vars" where
  "replace_step values st x =
     (case rv_state st of
        STATE_NONE \<Rightarrow>
          if x = CHR ''{'' then st\<lparr>rv_state := STATE_START_BRACE\<rparr>
          else st\<lparr>rv_result := rv_result st @ [x]\<rparr>
      | STATE_START_BRACE \<Rightarrow>
          if x = CHR ''{'' then st\<lparr>rv_state := STATE_IN_VAR\<rparr>
          else st\<lparr>rv_state := STATE_NONE, rv_result := rv_result st @ [CHR ''{'', x]\<rparr>
      | STATE_IN_VAR \<Rightarrow>
          let st = (if x \<noteq> CHR '' '' \<and> x \<noteq> CHR ''}'' then st\<lparr>rv_var := rv_var st @ [x]\<rparr> else st)
          in if x = CHR ''}'' then st\<lparr>rv_state := STATE_END_BRACE\<rparr> else st
      | STATE_END_BRACE \<Rightarrow>
          if x = CHR ''}'' then
            st\<lparr>rv_result := rv_result st @ (case values (rv_var st) of Some v \<Rightarrow> v | None \<Rightarrow> []),
               rv_var := [], rv_state := STATE_NONE\<rparr>
          else st\<lparr>rv_state := STATE_NONE, rv_result := rv_result st @ [CHR ''}'', x]\<rparr>)"

definition replace_init :: replace_vars where
  "replace_init = \<lparr>rv_state = STATE_NONE, rv_var = [], rv_result = []\<rparr>"

definition tm_replace_vars :: "string \<Rightarrow> (string \<rightharpoonup> string) \<Rightarrow> string" where
  "tm_replace_vars source values = cstr (rv_result (foldl (replace_step values) replace_init source))"

text \<open>
  A template is a sequence of literal parts and variables. A literal part contains no \<open>{{\<close> and
  does not end in a single \<open>{\<close>; the lone braces of JSON are literals.
\<close>

datatype template_part = Lit string | Var string

fun lit_ok :: "string \<Rightarrow> bool" where
  "lit_ok [] = True"
| "lit_ok [c] = (c \<noteq> CHR ''{'')"
| "lit_ok (c # d # cs) = (if c = CHR ''{'' then d \<noteq> CHR ''{'' \<and> lit_ok cs else lit_ok (d # cs))"

fun part_ok :: "template_part \<Rightarrow> bool" where
  "part_ok (Lit s) = (lit_ok s \<and> NUL \<notin> set s)"
| "part_ok (Var v) = (CHR '' '' \<notin> set v \<and> CHR ''}'' \<notin> set v)"

fun part_text :: "template_part \<Rightarrow> string" where
  "part_text (Lit s) = s"
| "part_text (Var v) = ''{{'' @ v @ ''}}''"

fun part_value :: "(string \<rightharpoonup> string) \<Rightarrow> template_part \<Rightarrow> string" where
  "part_value values (Lit s) = s"
| "part_value values (Var v) = (case values v of Some x \<Rightarrow> x | None \<Rightarrow> [])"

lemma replace_step_none:
  "replace_step values \<lparr>rv_state = STATE_NONE, rv_var = v, rv_result = r\<rparr> c =
     (if c = CHR ''{'' then \<lparr>rv_state = STATE_START_BRACE, rv_var = v, rv_result = r\<rparr>
      else \<lparr>rv_state = STATE_NONE, rv_var = v, rv_result = r @ [c]\<rparr>)"
  and replace_step_start:
  "replace_step values \<lparr>rv_state = STATE_START_BRACE, rv_var = v, rv_result = r\<rparr> c =
     (if c = CHR ''{'' then \<lparr>rv_state = STATE_IN_VAR, rv_var = v, rv_result = r\<rparr>
      else \<lparr>rv_state = STATE_NONE, rv_var = v, rv_result = r @ [CHR ''{'', c]\<rparr>)"
  by (simp_all add: replace_step_def)

lemma replace_lit:
  "lit_ok s \<Longrightarrow> foldl (replace_step values) \<lparr>rv_state = STATE_NONE, rv_var = v, rv_result = r\<rparr> s =
     \<lparr>rv_state = STATE_NONE, rv_var = v, rv_result = r @ s\<rparr>"
proof (induction s arbitrary: r rule: lit_ok.induct)
  case (3 c d cs)
  show ?case
  proof (cases "c = CHR ''{''")
    case True
    with "3.prems" "3.IH"(1) [OF True, of "r @ [c, d]"] show ?thesis
      by (simp add: replace_step_none replace_step_start)
  next
    case False
    with "3.prems" "3.IH"(2) [OF False, of "r @ [c]"] show ?thesis
      by (simp add: replace_step_none)
  qed
qed (simp_all add: replace_step_none)

lemma replace_in_var:
  "CHR '' '' \<notin> set n \<Longrightarrow> CHR ''}'' \<notin> set n \<Longrightarrow>
     foldl (replace_step values) \<lparr>rv_state = STATE_IN_VAR, rv_var = v, rv_result = r\<rparr> n =
     \<lparr>rv_state = STATE_IN_VAR, rv_var = v @ n, rv_result = r\<rparr>"
  by (induction n arbitrary: v) (auto simp: replace_step_def)

lemma replace_part:
  "part_ok p \<Longrightarrow> foldl (replace_step values) \<lparr>rv_state = STATE_NONE, rv_var = [], rv_result = r\<rparr> (part_text p) =
     \<lparr>rv_state = STATE_NONE, rv_var = [], rv_result = r @ part_value values p\<rparr>"
proof (cases p)
  case (Lit s)
  then show "part_ok p \<Longrightarrow> ?thesis" by (simp add: replace_lit)
next
  case (Var v)
  have brace: "replace_step values \<lparr>rv_state = STATE_NONE, rv_var = [], rv_result = r\<rparr> (CHR ''{'') =
      \<lparr>rv_state = STATE_START_BRACE, rv_var = [], rv_result = r\<rparr>"
    "replace_step values \<lparr>rv_state = STATE_START_BRACE, rv_var = [], rv_result = r\<rparr> (CHR ''{'') =
      \<lparr>rv_state = STATE_IN_VAR, rv_var = [], rv_result = r\<rparr>"
    by (simp_all add: replace_step_def)
  have close: "replace_step values (replace_step values
        \<lparr>rv_state = STATE_IN_VAR, rv_var = v, rv_result = r\<rparr> (CHR ''}'')) (CHR ''}'') =
      \<lparr>rv_state = STATE_NONE, rv_var = [], rv_result = r @ part_value values (Var v)\<rparr>"
    by (simp add: replace_step_def)
  show "part_ok p \<Longrightarrow> ?thesis" using Var by (simp add: brace replace_in_var close del: part_value.simps)
qed

lemma replace_parts:
  "\<forall>p \<in> set ps. part_ok p \<Longrightarrow>
     foldl (replace_step values) \<lparr>rv_state = STATE_NONE, rv_var = [], rv_result = r\<rparr> (concat (map part_text ps)) =
     \<lparr>rv_state = STATE_NONE, rv_var = [], rv_result = r @ concat (map (part_value values) ps)\<rparr>"
  by (induction ps arbitrary: r) (simp_all add: replace_part)

section \<open>Escaping slashes, and the type of a version 6 span\<close>

text \<open>
  \<open>escape_regex\<close> allocates \<open>l + 20\<close> zeroed bytes; the result is later read up to its NUL, so
  \<open>None\<close> when the text and a NUL do not fit.
\<close>

definition escape_slash :: "char \<Rightarrow> string" where
  "escape_slash c = (if c = CHR ''/'' then [CHR 0x5C, CHR ''/''] else [c])"

definition escape_regex :: "string \<Rightarrow> string ub" where
  "escape_regex regex = into_buf (length regex + 20) (concat (map escape_slash regex))"

lemma length_escape_slash:
  "length (concat (map escape_slash s)) = length s + count_list s (CHR ''/'')"
  by (induction s) (auto simp: escape_slash_def)

fun v6_type_loop :: "string \<Rightarrow> bool \<Rightarrow> string \<Rightarrow> string" where
  "v6_type_loop [] in_segment subtype = (if in_segment then subtype else ''unknown'')"
| "v6_type_loop (c # cs) in_segment subtype =
     (if c = CHR ''.'' \<and> \<not> in_segment then v6_type_loop cs True subtype
      else if c = CHR ''.'' \<and> in_segment then subtype
      else if in_segment then v6_type_loop cs True (subtype @ [c])
      else v6_type_loop cs False subtype)"

definition parse_v6_type :: "string \<Rightarrow> string ub" where
  "parse_v6_type type = into_buf 20 (v6_type_loop type False [])"

lemma v6_type_in_segment:
  "v6_type_loop s True acc = acc @ takeWhile (\<lambda>c. c \<noteq> CHR ''.'') s"
  by (induction s arbitrary: acc) auto

lemma v6_type_before_segment:
  "v6_type_loop s False [] =
     (if CHR ''.'' \<in> set s then takeWhile (\<lambda>c. c \<noteq> CHR ''.'') (tl (dropWhile (\<lambda>c. c \<noteq> CHR ''.'') s))
      else ''unknown'')"
  by (induction s) (auto simp: v6_type_in_segment)

section \<open>Properties\<close>

text \<open>A cleaned tag value has the length of its input and only characters the tag format
  allows, so no separator of a metric name survives; cleaning a clean value changes nothing.\<close>

lemma clean_tag_value_ok:
  "length (tm_clean_tag_value t) = length t \<and>
   set (tm_clean_tag_value t) \<inter> set '',[]| +'' = {} \<and>
   tm_clean_tag_value (tm_clean_tag_value t) = tm_clean_tag_value t"
proof -
  have "\<forall>c \<in> set (tm_clean_tag_value t). tag_char_ok c" by (auto dest: clean_tag_chars)
  then show ?thesis using tag_separators_rejected clean_tag_fixpoint [of "tm_clean_tag_value t"]
    by auto
qed

text \<open>C31: \<open>json_escape_str\<close>, which copies runs of plain characters late, appends to the buffer
  the escape of every character, and a JSON reader gets the original string back from it.\<close>

theorem json_escape_str_roundtrip:
  "json_escape_str pb s = pb @ json_escape_spec s \<and>
   json_unescape (drop (length pb) (json_escape_str pb s)) = Some s"
  by (simp add: json_escape_str_spec json_unescape_spec)

text \<open>On a base64 text with its padding, \<open>to_b64_url\<close> leaves the URL-safe alphabet and a C
  string without padding, of the length it returns except when there are two padding characters
  (then the returned length is one too large).\<close>

lemma to_b64_url_result:
  assumes "CHR ''='' \<notin> set d" "NUL \<notin> set d" "p \<le> 2"
  shows "cstr (fst (to_b64_url (d @ replicate p (CHR ''='')) (length d + p))) = map url_char d \<and>
         set (map url_char d) \<inter> set ''+/='' = {} \<and>
         snd (to_b64_url (d @ replicate p (CHR ''='')) (length d + p)) = length d + (p - 1)"
proof -
  have "NUL \<notin> set (map url_char d)" using assms(2) by (auto simp: url_char_def split: if_splits)
  moreover have "set (map url_char d) \<inter> set ''+/='' = {}"
    using assms(1) by (auto simp: url_char_def split: if_splits)
  moreover have "p = 0 \<or> p = 1 \<or> p = 2" using assms(3) by linarith
  ultimately show ?thesis using to_b64_url_padded [OF assms(1,3)]
    by (auto simp: cstr_no_NUL cstr_append cstr_def [of "NUL # _"])
qed

lemma to_b64_url_result_witness:
  "cstr (fst (to_b64_url (''a+b/'' @ replicate 2 (CHR ''='')) (length ''a+b/'' + 2))) = ''a-b_''"
  using to_b64_url_result [of "''a+b/''" 2] by (simp add: url_char_def)

text \<open>\<open>tm_replace_vars\<close> on a template of literal parts and \<open>{{variable}}\<close> parts gives the
  literal parts with the variables' values in place; unknown variables give nothing.\<close>

lemma tm_replace_vars_parts:
  assumes "\<forall>p \<in> set ps. part_ok p" "\<forall>v x. values v = Some x \<longrightarrow> NUL \<notin> set x"
  shows "tm_replace_vars (concat (map part_text ps)) values = concat (map (part_value values) ps)"
proof -
  have "NUL \<notin> set (part_value values p)" if "p \<in> set ps" for p
    using assms that by (cases p) (fastforce split: option.splits)+
  then show ?thesis
    by (auto simp: tm_replace_vars_def replace_init_def replace_parts [OF assms(1)] cstr_no_NUL)
qed

lemma tm_replace_vars_parts_witness:
  "tm_replace_vars (concat (map part_text [Lit ''{a '', Var ''x'', Lit ''}'']))
     (\<lambda>v. if v = ''x'' then Some ''7'' else None) = ''{a 7}''"
  by (subst tm_replace_vars_parts) simp_all

text \<open>The subtype of a version 6 span is the text between the first and the second dot of its
  type, \<open>unknown\<close> when it has no dot; a subtype of 20 characters or more overruns its buffer.\<close>

lemma parse_v6_type_segment:
  "parse_v6_type t =
     (let sub = (if CHR ''.'' \<in> set t
                 then takeWhile (\<lambda>c. c \<noteq> CHR ''.'') (tl (dropWhile (\<lambda>c. c \<noteq> CHR ''.'') t))
                 else ''unknown'')
      in if length sub < 20 then Some sub else None)"
  by (simp add: parse_v6_type_def v6_type_before_segment into_buf_def Let_def)

end
