(* ===== verification/TM_Squasher.thy ===== *)
theory TM_Squasher
  imports TM_Prelude "HOL-Library.Signed_Division"
begin

text \<open>
  The URL squasher of \<open>tm_url_squasher.c\<close>: a tree of path segments that replaces the children
  of a node by one \<open>{...}\<close> node when there are too many of them, and the regular expressions
  produced from it.

  A \<open>node_t\<close> is \<open>Node segment_name children_squashed kids\<close>. The union \<open>u\<close> is the list of
  kids: the members of \<open>children\<close> in the hash set's iteration order, or, when the children
  are squashed, the list holding \<open>squashed_child\<close> alone (no member for a NULL pointer). Each
  node has one parent, so the parent pointer is the path by which the node is reached, and
  updates in place are updates along that path.
\<close>

section \<open>Nodes\<close>

datatype node = Node (segment_name: string) (children_squashed: bool) (kids: "node list")

definition create_node :: "string \<Rightarrow> node" where
  "create_node name = Node name False []"

abbreviation squash_name :: string where "squash_name \<equiv> ''{...}''"

text \<open>
  \<open>with_child parent seg f\<close> is \<open>maybe_add_child (parent, seg)\<close> followed by the update \<open>f\<close> of
  the node it returns: the squashed child whatever the segment, else the child of that name,
  else a new one. The children are in the order of their insertion; the hash set of the code has an
  order of its own, in which only the order of the regular expressions would differ.
\<close>

fun upd_child :: "string \<Rightarrow> (node \<Rightarrow> node) \<Rightarrow> node list \<Rightarrow> node list" where
  "upd_child seg f [] = [f (create_node seg)]"
| "upd_child seg f (k # ks) =
     (if segment_name k = seg then f k # ks else k # upd_child seg f ks)"

definition with_child :: "node \<Rightarrow> string \<Rightarrow> (node \<Rightarrow> node) \<Rightarrow> node" where
  "with_child parent seg f =
     (if children_squashed parent then Node (segment_name parent) True (map f (kids parent))
      else Node (segment_name parent) False (upd_child seg f (kids parent)))"

definition maybe_add_child :: "node \<Rightarrow> string \<Rightarrow> node" where
  "maybe_add_child parent seg = with_child parent seg (\<lambda>n. n)"

text \<open>
  \<open>recurse_add_children\<close> copies the subtree \<open>child\<close> below \<open>parent\<close>. The copy of a node is a
  plain child, so a squashed child arrives as an ordinary child named \<open>{...}\<close>.
\<close>

fun recurse_add_children :: "node \<Rightarrow> node \<Rightarrow> node"
  and recurse_add_all :: "node \<Rightarrow> node list \<Rightarrow> node" where
  "recurse_add_children parent (Node name sq grandchildren) =
     with_child parent name (\<lambda>foo. recurse_add_all foo grandchildren)"
| "recurse_add_all foo [] = foo"
| "recurse_add_all foo (g # gs) = recurse_add_all (recurse_add_children foo g) gs"

definition squash_children :: "node \<Rightarrow> node" where
  "squash_children parent =
     Node (segment_name parent) True
       [fold (\<lambda>old new. recurse_add_all new (kids old)) (kids parent) (create_node squash_name)]"

section \<open>Adding a path\<close>

record path_squasher =
  root_node :: node
  cardinality_factor :: int
  added_path_count :: int

text \<open>
  \<open>cardinality_factor / (3 << depth)\<close> is an \<open>int\<close> division; the comparison with the
  \<open>unsigned long\<close> count converts its result.
\<close>

definition cardinality_limit :: "int \<Rightarrow> nat \<Rightarrow> nat" where
  "cardinality_limit factor depth = unat (word_of_int (factor sdiv (3 * 2 ^ depth)) :: u64)"

definition too_many :: "int \<Rightarrow> nat \<Rightarrow> bool \<Rightarrow> node \<Rightarrow> bool" where
  "too_many factor depth is_root p =
     (\<not> children_squashed p \<and> cardinality_limit factor depth < length (kids p) \<and> \<not> is_root)"

text \<open>
  The loop over the segments, as a function of the node the loop variable \<open>parent\<close> points to:
  the child is looked up or added, the level is squashed when it is too large, and unless the
  depth is 5 the loop goes on in the child, which is the squashed node after a squash.
\<close>

definition add_level :: "int \<Rightarrow> nat \<Rightarrow> bool \<Rightarrow> string \<Rightarrow> node \<Rightarrow> node" where
  "add_level factor depth is_root s p =
     (let p1 = maybe_add_child p s
      in if too_many factor depth is_root p1 then squash_children p1 else p1)"

fun add_segments :: "int \<Rightarrow> nat \<Rightarrow> bool \<Rightarrow> string list \<Rightarrow> node \<Rightarrow> node" where
  "add_segments factor depth is_root [] p = p"
| "add_segments factor depth is_root (s # ss) p =
     (if depth + 1 = 5 then add_level factor depth is_root s p
      else with_child (add_level factor depth is_root s p) s
             (add_segments factor (depth + 1) False ss))"

definition strip_newline :: "string \<Rightarrow> string ub" where
  "strip_newline s =
     (if s = [] then None else Some (if last s = CHR 0x0A then butlast s else s))"

definition tm_path_squasher_alloc :: "int \<Rightarrow> path_squasher" where
  "tm_path_squasher_alloc factor =
     \<lparr>root_node = create_node ''<ROOT>'', cardinality_factor = factor, added_path_count = 0\<rparr>"

definition tm_path_squasher_add_path :: "path_squasher \<Rightarrow> string \<Rightarrow> path_squasher ub" where
  "tm_path_squasher_add_path ps url_path = do {
     count \<leftarrow> if added_path_count ps < 2 ^ 31 - 1 then Some (added_path_count ps + 1) else None;
     temp \<leftarrow> strip_newline url_path;
     Some (ps\<lparr>added_path_count := count,
              root_node := add_segments (cardinality_factor ps) 0 True (strtok (CHR ''/'') temp)
                             (root_node ps)\<rparr>) }"

definition tm_path_squasher_get_seen_count :: "path_squasher \<Rightarrow> int" where
  "tm_path_squasher_get_seen_count ps = added_path_count ps"

section \<open>What a tree covers\<close>

text \<open>
  The paths below a list of kids: each segment is a node of that name or a \<open>{...}\<close> node.
\<close>

fun covers :: "node list \<Rightarrow> string list \<Rightarrow> bool" where
  "covers ks [] = True"
| "covers ks (s # ss) =
     (\<exists>k \<in> set ks. (segment_name k = s \<or> segment_name k = squash_name) \<and> covers (kids k) ss)"

text \<open>
  The shape every operation keeps: a squashed node has exactly its \<open>{...}\<close> child, the children
  of a node have distinct names.
\<close>

fun wf_node :: "node \<Rightarrow> bool" where
  "wf_node (Node n sq ks) =
     ((sq \<longrightarrow> map segment_name ks = [squash_name]) \<and> distinct (map segment_name ks) \<and>
      (\<forall>k \<in> set ks. wf_node k))"

lemma wf_node_iff:
  "wf_node p \<longleftrightarrow> (children_squashed p \<longrightarrow> map segment_name (kids p) = [squash_name]) \<and>
     distinct (map segment_name (kids p)) \<and> (\<forall>k \<in> set (kids p). wf_node k)"
  by (cases p) simp

declare wf_node.simps [simp del]

lemma wf_create_node [simp]: "wf_node (create_node n)"
  by (simp add: create_node_def wf_node.simps)

lemma create_node_sel [simp]:
  "segment_name (create_node n) = n" "children_squashed (create_node n) = False" "kids (create_node n) = []"
  by (simp_all add: create_node_def)

lemma with_child_name [simp]: "segment_name (with_child p s f) = segment_name p"
  and with_child_squashed [simp]: "children_squashed (with_child p s f) = children_squashed p"
  by (simp_all add: with_child_def)

lemma recurse_add_sel [simp]:
  "segment_name (recurse_add_children p c) = segment_name p"
  "children_squashed (recurse_add_children p c) = children_squashed p"
  "segment_name (recurse_add_all p cs) = segment_name p"
  "children_squashed (recurse_add_all p cs) = children_squashed p"
  by (induction p c and p cs rule: recurse_add_children_recurse_add_all.induct) auto

lemma names_upd_child:
  assumes "\<And>k. segment_name (f k) = segment_name k"
  shows "map segment_name (upd_child s f ks) =
           (if s \<in> set (map segment_name ks) then map segment_name ks else map segment_name ks @ [s])"
  using assms by (induction ks) auto

lemma set_upd_child:
  "k \<in> set (upd_child s f ks) \<Longrightarrow> k \<in> set ks \<or> (\<exists>k' \<in> set ks. k = f k') \<or> k = f (create_node s)"
  by (induction ks) (auto split: if_splits)

lemma upd_child_hit:
  "(\<And>k. segment_name (f k) = segment_name k) \<Longrightarrow>
     \<exists>k. f k \<in> set (upd_child s f ks) \<and> segment_name k = s \<and> (k \<in> set ks \<or> k = create_node s)"
proof (induction ks)
  case (Cons a ks)
  then show ?case by (cases "segment_name a = s") (simp, metis, simp, metis)
qed auto

lemma upd_child_keeps: "k \<in> set ks \<Longrightarrow> k \<in> set (upd_child s f ks) \<or> f k \<in> set (upd_child s f ks)"
  by (induction ks) auto

lemma wf_with_child:
  assumes p: "wf_node p" and nm: "\<And>k. segment_name (f k) = segment_name k"
    and f: "\<And>k. wf_node k \<Longrightarrow> wf_node (f k)"
  shows "wf_node (with_child p s f)"
proof (cases "children_squashed p")
  case True
  then show ?thesis using p nm f
    by (auto simp: wf_node_iff [of p] with_child_def o_def wf_node.simps)
next
  case False
  have "wf_node k" if "k \<in> set (upd_child s f (kids p))" for k
    using set_upd_child [OF that] p f by (auto simp: wf_node_iff [of p])
  moreover have "distinct (map segment_name (upd_child s f (kids p)))"
    using p by (simp add: names_upd_child [OF nm] wf_node_iff [of p])
  ultimately show ?thesis using False
    by (simp add: wf_node_iff [of "with_child p s f"]) (simp add: with_child_def)
qed

lemma wf_recurse_add:
  "wf_node p \<Longrightarrow> wf_node (recurse_add_children p c)"
  "wf_node p \<Longrightarrow> wf_node (recurse_add_all p cs)"
  by (induction p c and p cs rule: recurse_add_children_recurse_add_all.induct)
     (auto intro: wf_with_child)

lemma fold_recurse_name [simp]:
  "segment_name (fold (\<lambda>old new. recurse_add_all new (kids old)) ks p) = segment_name p"
  by (induction ks arbitrary: p) auto

lemma wf_fold_recurse:
  "wf_node p \<Longrightarrow> wf_node (fold (\<lambda>old new. recurse_add_all new (kids old)) ks p)"
  by (induction ks arbitrary: p) (auto intro: wf_recurse_add)


lemma wf_squash: "wf_node p \<Longrightarrow> wf_node (squash_children p)"
  by (simp add: squash_children_def wf_node.simps wf_fold_recurse)

lemma squash_name_sel [simp]: "segment_name (squash_children p) = segment_name p"
  by (simp add: squash_children_def)

lemma maybe_add_name [simp]: "segment_name (maybe_add_child p s) = segment_name p"
  by (simp add: maybe_add_child_def)

lemma wf_maybe_add: "wf_node p \<Longrightarrow> wf_node (maybe_add_child p s)"
  unfolding maybe_add_child_def by (rule wf_with_child) auto

lemma add_level_name [simp]: "segment_name (add_level c d r s p) = segment_name p"
  by (simp add: add_level_def Let_def)

lemma wf_add_level: "wf_node p \<Longrightarrow> wf_node (add_level c d r s p)"
  by (simp add: add_level_def Let_def wf_maybe_add wf_squash)

lemma add_segments_name [simp]: "segment_name (add_segments c d r ss p) = segment_name p"
  by (induction c d r ss p rule: add_segments.induct) simp_all

lemma wf_add_segments: "wf_node p \<Longrightarrow> wf_node (add_segments c d r ss p)"
  by (induction ss arbitrary: d r p) (simp_all add: wf_add_level wf_with_child)

section \<open>Coverage\<close>

lemma covers_mono:
  "covers ks ss \<Longrightarrow>
   (\<And>k. k \<in> set ks \<Longrightarrow> \<exists>k' \<in> set ks'. segment_name k' = segment_name k \<and>
       (\<forall>ss. covers (kids k) ss \<longrightarrow> covers (kids k') ss)) \<Longrightarrow> covers ks' ss"
  by (cases ss) (auto, (metis)+)

lemma covers_with_child_mono:
  assumes c: "covers (kids p) ss" and nm: "\<And>k. segment_name (f k) = segment_name k"
    and f: "\<And>k ss. k \<in> set (kids p) \<Longrightarrow> covers (kids k) ss \<Longrightarrow> covers (kids (f k)) ss"
  shows "covers (kids (with_child p s f)) ss"
proof (rule covers_mono [OF c])
  fix k assume k: "k \<in> set (kids p)"
  then have "k \<in> set (kids (with_child p s f)) \<or> f k \<in> set (kids (with_child p s f))"
    by (auto simp: with_child_def dest: upd_child_keeps)
  then show "\<exists>k' \<in> set (kids (with_child p s f)). segment_name k' = segment_name k \<and>
       (\<forall>ss. covers (kids k) ss \<longrightarrow> covers (kids k') ss)"
    using nm f [OF k] by metis
qed

lemma with_child_hit:
  assumes "wf_node p" and nm: "\<And>k. segment_name (f k) = segment_name k"
  shows "\<exists>k. f k \<in> set (kids (with_child p s f)) \<and> wf_node k \<and>
           (segment_name k = s \<or> segment_name k = squash_name)"
proof (cases "children_squashed p")
  case True
  with assms(1) obtain z where "kids p = [z]" "segment_name z = squash_name" "wf_node z"
    by (auto simp: wf_node_iff [of p])
  with True show ?thesis by (auto simp: with_child_def)
next
  case False
  obtain k where k: "f k \<in> set (upd_child s f (kids p))" "segment_name k = s"
      "k \<in> set (kids p) \<or> k = create_node s"
    using upd_child_hit [OF nm, of s "kids p"] by blast
  then have "wf_node k" using assms(1) by (metis wf_create_node wf_node_iff)
  with False k show ?thesis by (auto simp: with_child_def)
qed

lemma covers_recurse_mono:
  "covers (kids p) ss \<Longrightarrow> covers (kids (recurse_add_children p c)) ss"
  "covers (kids p) ss \<Longrightarrow> covers (kids (recurse_add_all p cs)) ss"
  by (induction p c and p cs arbitrary: ss and ss rule: recurse_add_children_recurse_add_all.induct)
     (auto intro: covers_with_child_mono)

lemma covers_fold_mono:
  "covers (kids p) ss \<Longrightarrow> covers (kids (fold (\<lambda>old new. recurse_add_all new (kids old)) ks p)) ss"
  by (induction ks arbitrary: p) (auto intro: covers_recurse_mono)

text \<open>A copied subtree covers below its new parent what it covered before.\<close>

lemma covers_copy:
  "wf_node p \<Longrightarrow> covers [c] ss \<Longrightarrow> covers (kids (recurse_add_children p c)) ss"
  "wf_node p \<Longrightarrow> covers cs ss \<Longrightarrow> covers (kids (recurse_add_all p cs)) ss"
proof (induction p c and p cs arbitrary: ss and ss rule: recurse_add_children_recurse_add_all.induct)
  case (1 p n sq gs)
  obtain k where k: "recurse_add_all k gs \<in> set (kids (recurse_add_children p (Node n sq gs)))"
      "wf_node k" "segment_name k = n \<or> segment_name k = squash_name"
    using with_child_hit [OF 1(2), of "\<lambda>foo. recurse_add_all foo gs" n] by auto
  show ?case
  proof (cases ss)
    case (Cons s' ss')
    with 1(3) have c: "covers gs ss'" "n = s' \<or> n = squash_name" by auto
    have "covers (kids (recurse_add_all k gs)) ss'" by (rule 1(1) [OF k(2) c(1)])
    then show ?thesis unfolding Cons covers.simps
      using k c(2) by (metis recurse_add_sel(3))
  qed simp
next
  case (3 p g gs)
  show ?case
  proof (cases ss)
    case (Cons s' ss')
    with 3(4) consider "covers [g] ss" | "covers gs ss" by auto
    then show ?thesis
    proof cases
      case 1
      then show ?thesis using 3(1) [OF 3(3)] by (simp add: covers_recurse_mono)
    next
      case 2
      then show ?thesis using 3(2) [OF wf_recurse_add(1) [OF 3(3)]] by simp
    qed
  qed simp
qed (case_tac ss; simp)

lemma covers_squash:
  assumes wf: "wf_node p" and c: "covers (kids p) ss"
  shows "covers (kids (squash_children p)) ss"
proof (cases ss)
  case (Cons s ss')
  with c obtain k where k: "k \<in> set (kids p)" "covers (kids k) ss'" by auto
  have "covers (kids (fold (\<lambda>old new. recurse_add_all new (kids old)) ks p')) ss'"
    if "k \<in> set ks" "wf_node p'" for ks p'
    using that
  proof (induction ks arbitrary: p')
    case (Cons a ks)
    then show ?case using k(2)
      by (cases "k = a") (auto intro: covers_fold_mono covers_copy wf_recurse_add)
  qed simp
  with k show ?thesis by (simp add: Cons squash_children_def)
qed simp

lemma covers_maybe_add: "covers (kids p) qs \<Longrightarrow> covers (kids (maybe_add_child p s)) qs"
  by (simp add: maybe_add_child_def covers_with_child_mono)

lemma covers_hit: "wf_node p \<Longrightarrow> covers (kids (maybe_add_child p s)) [s]"
  using with_child_hit [of p "\<lambda>n. n" s] unfolding maybe_add_child_def covers.simps by blast

lemma covers_add_level:
  "wf_node p \<Longrightarrow> covers (kids p) qs \<Longrightarrow> covers (kids (add_level c d r s p)) qs"
  "wf_node p \<Longrightarrow> covers (kids (add_level c d r s p)) [s]"
  unfolding add_level_def Let_def
  by (auto simp del: covers.simps intro: covers_squash covers_hit covers_maybe_add wf_maybe_add)

lemma covers_add_segments_mono:
  "wf_node p \<Longrightarrow> covers (kids p) qs \<Longrightarrow> covers (kids (add_segments c d r ss p)) qs"
proof (induction ss arbitrary: d r p qs)
  case (Cons s ss)
  have w: "wf_node (add_level c d r s p)" by (rule wf_add_level [OF Cons.prems(1)])
  have v: "covers (kids (add_level c d r s p)) qs" by (rule covers_add_level(1) [OF Cons.prems])
  have "covers (kids (with_child (add_level c d r s p) s (add_segments c (d + 1) False ss))) qs"
    using w by (intro covers_with_child_mono [OF v]) (auto intro: Cons.IH simp: wf_node_iff [of "add_level c d r s p"])
  then show ?case using v by (cases "d + 1 = 5") simp_all
qed simp

lemma covers_add_segments:
  "wf_node p \<Longrightarrow> d < 5 \<Longrightarrow> covers (kids (add_segments c d r ss p)) (take (5 - d) ss)"
proof (induction ss arbitrary: d r p)
  case (Cons s ss)
  have w: "wf_node (add_level c d r s p)" by (rule wf_add_level [OF Cons.prems(1)])
  show ?case
  proof (cases "d + 1 = 5")
    case True
    then show ?thesis using covers_add_level(2) [OF Cons.prems(1)] by simp
  next
    case False
    obtain k where k: "add_segments c (d + 1) False ss k
          \<in> set (kids (with_child (add_level c d r s p) s (add_segments c (d + 1) False ss)))"
        "wf_node k" "segment_name k = s \<or> segment_name k = squash_name"
      using with_child_hit [OF w, of "add_segments c (d + 1) False ss" s] by auto
    have "5 - d = Suc (5 - (d + 1))" "d + 1 < 5" using False Cons.prems(2) by simp_all
    moreover have "covers (kids (add_segments c (d + 1) False ss k)) (take (5 - (d + 1)) ss)"
      using Cons.IH [OF k(2) \<open>d + 1 < 5\<close>] .
    ultimately show ?thesis using False k(3)
      by (simp del: One_nat_def add: bexI [OF _ k(1)])
  qed
qed simp

section \<open>Depth and width\<close>

text \<open>\<open>within n p\<close>: there are at most \<open>n\<close> levels below \<open>p\<close>.\<close>

fun within :: "nat \<Rightarrow> node \<Rightarrow> bool" where
  "within 0 p = (kids p = [])"
| "within (Suc n) p = (\<forall>k \<in> set (kids p). within n k)"

lemma within_create [simp]: "within n (create_node s)"
  by (cases n) simp_all

lemma within_with_child:
  assumes "within (Suc n) p" "\<And>k. within n k \<Longrightarrow> within n (f k)"
  shows "within (Suc n) (with_child p s f)"
  using assms by (auto simp: with_child_def dest!: set_upd_child)

lemma within_kids_cong: "kids p = kids q \<Longrightarrow> within n p = within n q"
  by (cases n) simp_all

lemma within_recurse:
  "within (Suc n) p \<Longrightarrow> within n c \<Longrightarrow> within (Suc n) (recurse_add_children p c)"
  "within n p \<Longrightarrow> within n q \<Longrightarrow> kids q = cs \<Longrightarrow> within n (recurse_add_all p cs)"
proof (induction p c and p cs arbitrary: n and n q rule: recurse_add_children_recurse_add_all.induct)
  case (1 p m sq' gs)
  have "within (Suc n) (with_child p m (\<lambda>foo. recurse_add_all foo gs))"
    by (rule within_with_child [OF 1(2)], rule 1(1) [OF _ 1(3)]) simp_all
  then show ?case by simp
next
  case (3 p g gs)
  from 3(4,5) obtain k where n: "n = Suc k" by (cases n) auto
  have p: "within (Suc k) (recurse_add_children p g)"
  proof (rule 3(1))
    show "within (Suc k) p" using 3(3) unfolding n .
    show "within k g" using 3(4)[unfolded n within.simps 3(5)] by simp
  qed
  show ?case unfolding n recurse_add_all.simps
    by (rule 3(2) [OF p, of "Node [] False gs"]) (use 3(4,5) n in auto)
qed simp

lemma within_fold:
  "within n p \<Longrightarrow> (\<And>k. k \<in> set ks \<Longrightarrow> within n k) \<Longrightarrow>
     within n (fold (\<lambda>old new. recurse_add_all new (kids old)) ks p)"
proof (induction ks arbitrary: p)
  case (Cons a ks)
  have "within n (recurse_add_all p (kids a))"
    by (rule within_recurse(2) [OF Cons.prems(1), of a]) (simp_all add: Cons.prems(2))
  then show ?case using Cons by simp
qed simp

lemma within_squash: "within n p \<Longrightarrow> kids p \<noteq> [] \<Longrightarrow> within n (squash_children p)"
  by (cases n) (auto simp: squash_children_def intro!: within_fold)

lemma within_maybe_add: "within (Suc n) p \<Longrightarrow> within (Suc n) (maybe_add_child p s)"
  unfolding maybe_add_child_def by (rule within_with_child) auto

lemma kids_maybe_add: "wf_node p \<Longrightarrow> kids (maybe_add_child p s) \<noteq> []"
  using with_child_hit [of p "\<lambda>n. n" s] by (auto simp: maybe_add_child_def)

lemma within_add_level:
  "wf_node p \<Longrightarrow> within (Suc n) p \<Longrightarrow> within (Suc n) (add_level c d r s p)"
  by (simp add: add_level_def Let_def within_maybe_add within_squash kids_maybe_add del: within.simps)

lemma within_with_child_wf:
  assumes "wf_node p" "within (Suc n) p" "\<And>k. wf_node k \<Longrightarrow> within n k \<Longrightarrow> within n (f k)"
  shows "within (Suc n) (with_child p s f)"
  using assms(2,3) wf_node_iff [THEN iffD1, OF assms(1)]
  by (auto simp: with_child_def dest!: set_upd_child)

lemma within_add_segments:
  "wf_node p \<Longrightarrow> within (5 - d) p \<Longrightarrow> d < 5 \<Longrightarrow> within (5 - d) (add_segments c d r ss p)"
proof (induction ss arbitrary: d r p)
  case (Cons s ss)
  then have d: "5 - d = Suc (4 - d)" by simp
  have l: "within (Suc (4 - d)) (add_level c d r s p)"
    using Cons.prems d by (auto intro!: within_add_level simp del: within.simps)
  show ?case
  proof (cases "d + 1 = 5")
    case False
    then show ?thesis unfolding d using l Cons.prems Cons.IH [of _ "d + 1" False]
      by (auto intro!: within_with_child_wf wf_add_level simp del: within.simps)
  qed (use l d in simp)
qed simp

text \<open>
  After a path is added, every level it visits below the root is squashed or within its limit.
\<close>

fun visited_ok :: "int \<Rightarrow> nat \<Rightarrow> bool \<Rightarrow> string list \<Rightarrow> node \<Rightarrow> bool" where
  "visited_ok factor depth is_root [] p = True"
| "visited_ok factor depth is_root (s # ss) p =
     ((is_root \<or> children_squashed p \<or> length (kids p) \<le> cardinality_limit factor depth) \<and>
      (depth + 1 = 5 \<or> (\<forall>k \<in> set (kids p). segment_name k = s \<or> children_squashed p \<longrightarrow>
                          visited_ok factor (depth + 1) False ss k)))"

lemma upd_child_only:
  assumes nm: "\<And>k. segment_name (f k) = segment_name k"
  shows "distinct (map segment_name ks) \<Longrightarrow> k \<in> set (upd_child s f ks) \<Longrightarrow> segment_name k = s \<Longrightarrow>
     \<exists>k'. k = f k' \<and> (k' \<in> set ks \<or> k' = create_node s)"
  by (induction ks) (auto simp: nm split: if_splits)

lemma with_child_only:
  assumes nm: "\<And>k. segment_name (f k) = segment_name k" and "wf_node p"
    and "k \<in> set (kids (with_child p s f))" "segment_name k = s \<or> children_squashed p"
  shows "\<exists>k'. k = f k' \<and> wf_node k'"
proof (cases "children_squashed p")
  case True
  then show ?thesis using assms by (auto simp: with_child_def wf_node_iff [of p])
next
  case False
  obtain k' where "k = f k'" "k' \<in> set (kids p) \<or> k' = create_node s"
    using upd_child_only [OF nm, of "kids p" k s] assms(2-4) False
    by (auto simp: with_child_def wf_node_iff [of p])
  then show ?thesis using assms(2) by (metis wf_create_node wf_node_iff)
qed

lemma length_with_child:
  assumes "\<And>k. segment_name (f k) = segment_name k" "s \<in> set (map segment_name (kids p))"
  shows "length (kids (with_child p s f)) = length (kids p)"
  using assms names_upd_child [OF assms(1), of s "kids p"]
  by (auto simp: with_child_def dest: arg_cong [of _ _ length])

lemma names_maybe_add:
  assumes "wf_node p" "\<not> children_squashed p"
  shows "s \<in> set (map segment_name (kids (maybe_add_child p s)))"
  using assms names_upd_child [of "\<lambda>n. n" s "kids p"]
  by (auto simp: maybe_add_child_def with_child_def)

lemma add_level_ok:
  assumes "wf_node p"
  shows "r \<or> children_squashed (add_level c d r s p)
           \<or> length (kids (add_level c d r s p)) \<le> cardinality_limit c d"
    and "children_squashed (add_level c d r s p) \<or> s \<in> set (map segment_name (kids (add_level c d r s p)))"
  using names_maybe_add [OF assms, of s]
  by (auto simp: add_level_def Let_def too_many_def squash_children_def maybe_add_child_def)

lemma visited_ok_add_segments:
  "wf_node p \<Longrightarrow> d < 5 \<Longrightarrow> visited_ok c d r (take (5 - d) ss) (add_segments c d r ss p)"
proof (induction ss arbitrary: d r p)
  case (Cons s ss)
  let ?q = "add_level c d r s p" and ?f = "add_segments c (d + 1) False ss"
  note ok = add_level_ok [OF Cons.prems(1), where r = r and c = c and d = d and s = s]
  have w: "wf_node ?q" by (rule wf_add_level [OF Cons.prems(1)])
  have "5 - d = Suc (4 - d)" using Cons.prems(2) by simp
  then have t: "take (5 - d) (s # ss) = s # take (4 - d) ss" by simp
  show ?case
  proof (cases "d + 1 = 5")
    case True
    then show ?thesis using ok(1) t by simp
  next
    case False
    have len: "r \<or> children_squashed (with_child ?q s ?f)
        \<or> length (kids (with_child ?q s ?f)) \<le> cardinality_limit c d"
      using ok by (auto simp: length_with_child)
    have "visited_ok c (d + 1) False (take (4 - d) ss) k"
      if k: "k \<in> set (kids (with_child ?q s ?f))" "segment_name k = s \<or> children_squashed ?q" for k
    proof -
      obtain k' where "k = ?f k'" "wf_node k'"
        using with_child_only [OF add_segments_name w k] by blast
      then show ?thesis using Cons.IH [of k' "d + 1" False] False Cons.prems(2) by simp
    qed
    then show ?thesis using len False t by simp
  qed
qed simp

section \<open>Regular expressions\<close>

text \<open>
  The walk from a node up its parent pointers sees the names and the \<open>children_squashed\<close> flags
  of the trail from the root's child down to it. The two buffers of 512 bytes are filled with
  \<open>strcat\<close>: a text that does not fit is None.
\<close>

type_synonym trail = "(string \<times> bool) list"

fun regex_segments :: "bool \<Rightarrow> string list \<Rightarrow> string \<times> string" where
  "regex_segments is_first [] = ([], [])"
| "regex_segments is_first (n # ns) =
     (let (regex, replace) = regex_segments False ns;
          (sep, rsep) = (if is_first then ([], []) else ([CHR 0x5C, CHR ''/''], ''/''));
          (seg, rseg) = (if n = ''{...}'' then (''[^'' @ [CHR 0x5C] @ ''/]+'', ''{...}'') else (n, n))
      in (sep @ seg @ regex, rsep @ rseg @ replace))"

definition build_regex :: "trail \<Rightarrow> (string \<times> string) ub" where
  "build_regex tr =
     (let (segs, replace) = regex_segments True (map fst tr);
          regex = ''('' @ segs @ ''.*)''
      in if length regex < 512 \<and> length replace < 512 then Some (regex, replace) else None)"

text \<open>\<open>mtev_hash_store\<close> keeps the entry a key already has.\<close>

definition regex_store :: "(string \<rightharpoonup> string) \<Rightarrow> string \<Rightarrow> string \<Rightarrow> (string \<rightharpoonup> string)" where
  "regex_store t regex replace = (if t regex = None then t(regex \<mapsto> replace) else t)"

definition emit_regex :: "(string \<Rightarrow> bool) \<Rightarrow> bool \<Rightarrow> (string \<rightharpoonup> string) \<Rightarrow> trail \<Rightarrow> (string \<rightharpoonup> string) ub" where
  "emit_regex pcre_compile root_squashed t tr =
     (if root_squashed \<or> list_ex snd tr then
        case build_regex tr of
          None \<Rightarrow> None
        | Some (regex, replace) \<Rightarrow>
            Some (if pcre_compile regex then regex_store t regex replace else t)
      else Some t)"

definition recurse_regex ::
  "(string \<Rightarrow> bool) \<Rightarrow> bool \<Rightarrow> (string \<rightharpoonup> string) \<Rightarrow> trail \<Rightarrow> node \<Rightarrow>
     ((string \<rightharpoonup> string) \<times> (trail \<times> node) list) ub" where
  "recurse_regex pcre_compile root_squashed t abv node =
     (let tr = abv @ [(segment_name node, children_squashed node)] in
      if kids node = [] then
        case emit_regex pcre_compile root_squashed t tr of None \<Rightarrow> None | Some t' \<Rightarrow> Some (t', [])
      else Some (t, map (\<lambda>k. (tr, k)) (rev (kids node))))"

fun node_count :: "node \<Rightarrow> nat" where
  "node_count (Node n sq ks) = 1 + sum_list (map node_count ks)"

lemma node_count_kids: "node_count p = 1 + sum_list (map node_count (kids p))"
  by (cases p) simp

function regex_work ::
  "(string \<Rightarrow> bool) \<Rightarrow> bool \<Rightarrow> (string \<rightharpoonup> string) \<Rightarrow> (trail \<times> node) list \<Rightarrow> (string \<rightharpoonup> string) ub" where
  "regex_work pcre_compile root_squashed t [] = Some t"
| "regex_work pcre_compile root_squashed t ((tr, node) # stack) =
     (case recurse_regex pcre_compile root_squashed t tr node of
        None \<Rightarrow> None
      | Some (t', pushed) \<Rightarrow> regex_work pcre_compile root_squashed t' (pushed @ stack))"
  by pat_completeness auto
termination
proof (relation "measure (\<lambda>(c, r, t, st). sum_list (map (\<lambda>(tr, n). node_count n) st))", goal_cases)
  case (2 c r t tr node stack a t' pushed)
  have "sum_list (map (\<lambda>(tr, n). node_count n) pushed) < node_count node"
    using 2 by (auto simp: recurse_regex_def Let_def node_count_kids [of node] o_def rev_map [symmetric]
        split: if_splits option.splits)
  then show ?case by simp
qed simp

definition tm_path_squasher_get_regexes ::
  "(string \<Rightarrow> bool) \<Rightarrow> path_squasher \<Rightarrow> (string \<rightharpoonup> string) ub" where
  "tm_path_squasher_get_regexes pcre_compile ps =
     regex_work pcre_compile (children_squashed (root_node ps)) Map.empty
       (map (\<lambda>k. ([], k)) (rev (kids (root_node ps))))"

text \<open>The trails of the leaves in the order the stack visits them.\<close>

fun leaf_trails :: "trail \<Rightarrow> node \<Rightarrow> trail list" where
  "leaf_trails tr (Node n sq ks) =
     (if ks = [] then [tr @ [(n, sq)]] else concat (map (leaf_trails (tr @ [(n, sq)])) (rev ks)))"

lemma leaf_trails_kids:
  "leaf_trails tr p = (let tr' = tr @ [(segment_name p, children_squashed p)] in
     if kids p = [] then [tr'] else concat (map (leaf_trails tr') (rev (kids p))))"
  by (cases p) (simp add: Let_def)

fun emit_all :: "(string \<Rightarrow> bool) \<Rightarrow> bool \<Rightarrow> (string \<rightharpoonup> string) \<Rightarrow> trail list \<Rightarrow> (string \<rightharpoonup> string) ub" where
  "emit_all c r t [] = Some t"
| "emit_all c r t (tr # trs) =
     (case emit_regex c r t tr of None \<Rightarrow> None | Some t' \<Rightarrow> emit_all c r t' trs)"

lemma regex_work_leaves:
  "regex_work c r t st = emit_all c r t (concat (map (\<lambda>(tr, n). leaf_trails tr n) st))"
proof (induction c r t st rule: regex_work.induct)
  case (2 c r t tr node stack)
  show ?case
  proof (cases "kids node = []")
    case True
    show ?thesis
    proof (cases "emit_regex c r t (tr @ [(segment_name node, children_squashed node)])")
      case (Some t1)
      with True have "recurse_regex c r t tr node = Some (t1, [])"
        by (simp add: recurse_regex_def)
      with 2 [OF this] True Some show ?thesis by (simp add: leaf_trails_kids [of tr node])
    qed (simp add: True recurse_regex_def leaf_trails_kids [of tr node])
  next
    case False
    then have "recurse_regex c r t tr node = Some (t, map (\<lambda>k. (tr @ [(segment_name node, children_squashed node)], k)) (rev (kids node)))"
      by (simp add: recurse_regex_def Let_def)
    with 2 [OF this] False show ?thesis
      by (simp add: Let_def leaf_trails_kids [of tr node] o_def)
  qed
qed simp

lemma emit_all_sound:
  "emit_all c r t trs = Some t' \<Longrightarrow> t' regex = Some replace \<Longrightarrow>
     t regex = Some replace \<or>
     (\<exists>tr \<in> set trs. (r \<or> list_ex snd tr) \<and> build_regex tr = Some (regex, replace) \<and> c regex)"
  by (induction trs arbitrary: t)
     (fastforce simp: emit_regex_def regex_store_def split: option.splits if_splits)+

lemma emit_regex_mono: "emit_regex c r t tr = Some t' \<Longrightarrow> t x \<noteq> None \<Longrightarrow> t' x = t x"
  by (auto simp: emit_regex_def regex_store_def split: option.splits if_splits)

lemma emit_all_mono: "emit_all c r t trs = Some t' \<Longrightarrow> t x \<noteq> None \<Longrightarrow> t' x = t x"
  by (induction trs arbitrary: t) (auto split: option.splits dest: emit_regex_mono [where x = x])

lemma emit_all_complete:
  assumes "emit_all c r t trs = Some t'" "tr \<in> set trs" "r \<or> list_ex snd tr"
  shows "\<exists>regex replace. build_regex tr = Some (regex, replace) \<and> (c regex \<longrightarrow> t' regex \<noteq> None)"
  using assms
proof (induction trs arbitrary: t)
  case (Cons a trs)
  then obtain t1 where t1: "emit_regex c r t a = Some t1" "emit_all c r t1 trs = Some t'"
    by (auto split: option.splits)
  show ?case
  proof (cases "tr = a")
    case True
    with t1(1) Cons.prems(3) obtain regex replace
      where b: "build_regex tr = Some (regex, replace)" "c regex \<longrightarrow> t1 regex \<noteq> None"
      by (auto simp: emit_regex_def regex_store_def split: option.splits if_splits)
    then show ?thesis using emit_all_mono [OF t1(2), of regex] by auto
  qed (use Cons t1 in auto)
qed simp

text \<open>
  A trail agrees with the segments of a path when, as far as both go, each name is the segment
  or \<open>{...}\<close>.
\<close>

fun trail_agrees :: "trail \<Rightarrow> string list \<Rightarrow> bool" where
  "trail_agrees ((n, sq) # tr) (s # ss) = ((n = s \<or> n = squash_name) \<and> trail_agrees tr ss)"
| "trail_agrees tr ss = True"

lemma leaf_trails_nonempty: "leaf_trails tr p \<noteq> []"
  by (induction tr p rule: leaf_trails.induct) auto

lemma leaf_trails_prefix: "tr \<in> set (leaf_trails abv p) \<Longrightarrow> \<exists>tr'. tr = abv @ tr'"
  by (induction abv p rule: leaf_trails.induct) (fastforce split: if_splits)

lemma covers_leaf:
  "covers [p] ss \<Longrightarrow> \<exists>tr. abv @ tr \<in> set (leaf_trails abv p) \<and> trail_agrees tr ss"
proof (induction abv p arbitrary: ss rule: leaf_trails.induct)
  case (1 abv n sq ks)
  show ?case
  proof (cases ss)
    case Nil
    obtain tr where "tr \<in> set (leaf_trails abv (Node n sq ks))"
      using leaf_trails_nonempty by (metis last_in_set)
    then obtain tr' where "abv @ tr' \<in> set (leaf_trails abv (Node n sq ks))"
      using leaf_trails_prefix by blast
    then show ?thesis using Nil by (intro exI [of _ tr']) (cases tr'; auto)
  next
    case (Cons s ss')
    with 1(2) have n: "n = s \<or> n = squash_name" "covers ks ss'" by auto
    show ?thesis
    proof (cases "ks = []")
      case True
      then show ?thesis using n Cons by (intro exI [of _ "[(n, sq)]"]) simp
    next
      case False
      have "\<exists>k \<in> set ks. covers [k] ss'"
        using n(2) False by (cases ss'; cases ks) auto
      then obtain k where k: "k \<in> set ks" "covers [k] ss'" by blast
      then obtain tr where "(abv @ [(n, sq)]) @ tr \<in> set (leaf_trails (abv @ [(n, sq)]) k)"
          "trail_agrees tr ss'"
        using 1(1) [of k ss'] False by auto
      then show ?thesis using n Cons False k(1) by (intro exI [of _ "(n, sq) # tr"]) auto
    qed
  qed
qed

section \<open>The squasher as an index of paths\<close>

text \<open>
  What the users of a squasher (\<open>apply_path_squasher\<close> and \<open>tm_flush_squashers\<close>) rely on: a path
  that was added stays known.
\<close>

locale url_index =
  fixes add :: "'s \<Rightarrow> 'u \<Rightarrow> 's option"
    and valid :: "'s \<Rightarrow> bool"
    and known :: "'s \<Rightarrow> 'u \<Rightarrow> bool"
  assumes add_valid: "valid s \<Longrightarrow> add s u = Some s' \<Longrightarrow> valid s'"
    and add_known: "valid s \<Longrightarrow> add s u = Some s' \<Longrightarrow> known s' u"
    and add_mono: "valid s \<Longrightarrow> add s u = Some s' \<Longrightarrow> known s v \<Longrightarrow> known s' v"
begin

lemma valid_all: "foldM add s us = Some s' \<Longrightarrow> valid s \<Longrightarrow> valid s'"
  by (rule foldM_invariant [where I = valid]) (auto intro: add_valid)

lemma known_mono: "foldM add s us = Some s' \<Longrightarrow> valid s \<Longrightarrow> known s v \<Longrightarrow> known s' v"
  by (induction us arbitrary: s) (auto split: option.splits intro: add_valid add_mono)

lemma known_all: "foldM add s us = Some s' \<Longrightarrow> valid s \<Longrightarrow> u \<in> set us \<Longrightarrow> known s' u"
  by (induction us arbitrary: s)
     (auto split: option.splits intro: add_valid known_mono [OF _ add_valid] dest: add_known)

end

definition url_segments :: "string \<Rightarrow> string list" where
  "url_segments url =
     strtok (CHR ''/'') (if url \<noteq> [] \<and> last url = CHR 0x0A then butlast url else url)"

definition squasher_ok :: "path_squasher \<Rightarrow> bool" where
  "squasher_ok ps =
     (wf_node (root_node ps) \<and> within 5 (root_node ps) \<and> \<not> children_squashed (root_node ps) \<and>
      0 \<le> added_path_count ps)"

definition squasher_knows :: "path_squasher \<Rightarrow> string \<Rightarrow> bool" where
  "squasher_knows ps url = covers (kids (root_node ps)) (take 5 (url_segments url))"

lemma add_path_iff:
  "tm_path_squasher_add_path ps url = Some ps' \<longleftrightarrow>
     url \<noteq> [] \<and> added_path_count ps < 2 ^ 31 - 1 \<and>
     ps' = ps\<lparr>added_path_count := added_path_count ps + 1,
              root_node := add_segments (cardinality_factor ps) 0 True (url_segments url) (root_node ps)\<rparr>"
  by (auto simp: tm_path_squasher_add_path_def strip_newline_def url_segments_def split: if_splits)

lemma root_not_squashed:
  "\<not> children_squashed p \<Longrightarrow> \<not> children_squashed (add_segments c d True ss p)"
  by (cases ss) (auto simp: add_level_def too_many_def maybe_add_child_def)

interpretation squasher: url_index tm_path_squasher_add_path squasher_ok squasher_knows
proof unfold_locales
  fix s u s' assume ok: "squasher_ok s" and add: "tm_path_squasher_add_path s u = Some s'"
  show "squasher_ok s'"
    using ok add within_add_segments [of "root_node s" 0]
    by (auto simp: squasher_ok_def add_path_iff wf_add_segments root_not_squashed)
  show "squasher_knows s' u"
    using ok add covers_add_segments [of "root_node s" 0]
    by (auto simp: squasher_ok_def squasher_knows_def add_path_iff)
  show "squasher_knows s' v" if "squasher_knows s v" for v
    using that ok add
    by (auto simp: squasher_ok_def squasher_knows_def add_path_iff intro: covers_add_segments_mono)
qed

lemma squasher_ok_alloc: "squasher_ok (tm_path_squasher_alloc c)"
  by (simp add: squasher_ok_def tm_path_squasher_alloc_def)

definition squasher_trails :: "path_squasher \<Rightarrow> trail list" where
  "squasher_trails ps = concat (map (leaf_trails []) (rev (kids (root_node ps))))"

lemma get_regexes_emit:
  "tm_path_squasher_get_regexes c ps =
     emit_all c (children_squashed (root_node ps)) Map.empty (squasher_trails ps)"
  by (simp add: tm_path_squasher_get_regexes_def regex_work_leaves squasher_trails_def o_def)

lemma add_paths_total:
  assumes "\<forall>u \<in> set urls. u \<noteq> []" "0 \<le> added_path_count ps"
    "added_path_count ps + int (length urls) < 2 ^ 31"
  shows "\<exists>ps'. foldM tm_path_squasher_add_path ps urls = Some ps' \<and>
           added_path_count ps' = added_path_count ps + int (length urls)"
  using assms
proof (induction urls arbitrary: ps)
  case (Cons u urls)
  let ?ps = "ps\<lparr>added_path_count := added_path_count ps + 1,
        root_node := add_segments (cardinality_factor ps) 0 True (url_segments u) (root_node ps)\<rparr>"
  have "tm_path_squasher_add_path ps u = Some ?ps"
    using Cons.prems by (subst add_path_iff) simp
  then show ?case using Cons.IH [of ?ps] Cons.prems by (simp add: add.assoc)
qed simp

section \<open>Properties\<close>

text \<open>C16: Adding any list of non-empty URL paths to a fresh squasher succeeds as long as its counter
  does not overflow, counts every path, keeps the tree well formed and at most five levels deep,
  and the tree still covers every path that was added (its first five segments, with \<open>{...}\<close>
  standing for any segment), whatever levels were squashed in between.\<close>

theorem squasher_keeps_paths:
  assumes "\<forall>u \<in> set urls. u \<noteq> []" "length urls < 2 ^ 31"
  shows "\<exists>ps. foldM tm_path_squasher_add_path (tm_path_squasher_alloc factor) urls = Some ps \<and>
           tm_path_squasher_get_seen_count ps = int (length urls) \<and> squasher_ok ps \<and>
           (\<forall>u \<in> set urls. squasher_knows ps u)"
proof -
  have "added_path_count (tm_path_squasher_alloc factor) = 0" by (simp add: tm_path_squasher_alloc_def)
  then obtain ps where ps: "foldM tm_path_squasher_add_path (tm_path_squasher_alloc factor) urls = Some ps"
      "added_path_count ps = int (length urls)"
    using add_paths_total [of urls "tm_path_squasher_alloc factor"] assms by auto
  then show ?thesis
    using squasher.valid_all [OF ps(1) squasher_ok_alloc] squasher.known_all [OF ps(1) squasher_ok_alloc]
    by (auto simp: tm_path_squasher_get_seen_count_def)
qed

theorem squasher_keeps_paths_witness:
  "\<exists>ps. foldM tm_path_squasher_add_path (tm_path_squasher_alloc 3) [''/a/b'', ''/a/c'', ''/a/d''] = Some ps \<and>
        tm_path_squasher_get_seen_count ps = 3 \<and> squasher_ok ps \<and> squasher_knows ps ''/a/c''"
  using squasher_keeps_paths [of "[''/a/b'', ''/a/c'', ''/a/d'']" 3] by auto

text \<open>C17: After a path is added, every level the path visits below the root is squashed or has at
  most \<open>cardinality_factor / (3 << depth)\<close> children.\<close>

theorem squasher_bounds_visited_levels:
  assumes "squasher_ok ps" "tm_path_squasher_add_path ps url = Some ps'"
  shows "visited_ok (cardinality_factor ps) 0 True (take 5 (url_segments url)) (root_node ps')"
  using assms visited_ok_add_segments [of "root_node ps" 0 "cardinality_factor ps" True "url_segments url"]
  by (auto simp: squasher_ok_def add_path_iff)

lemma squasher_example:
  "tm_path_squasher_add_path (tm_path_squasher_alloc 3) ''/a/b'' = Some
     \<lparr>root_node = Node ''<ROOT>'' False [Node ''a'' True [Node squash_name False []]],
      cardinality_factor = 3, added_path_count = 1\<rparr>"
  by code_simp

theorem squasher_bounds_visited_levels_witness:
  "visited_ok 3 0 True [''a'', ''b''] (Node ''<ROOT>'' False [Node ''a'' True [Node squash_name False []]])"
  using squasher_bounds_visited_levels [OF squasher_ok_alloc squasher_example]
  by (simp add: url_segments_def strtok_def tm_path_squasher_alloc_def)

text \<open>C18: The regular expressions of a squasher: the table holds exactly the expressions of those leaves of
  the tree that lie below a squashed level, as far as the compiler takes them, each with the
  replacement of such a leaf; and every known path follows the trail of some leaf, so that a
  path below a squashed level has an expression.\<close>

theorem squasher_regexes_of_leaves:
  assumes "squasher_ok ps" "tm_path_squasher_get_regexes pcre_compile ps = Some t"
  shows "(\<forall>regex. t regex \<noteq> None \<longleftrightarrow>
            (\<exists>tr \<in> set (squasher_trails ps). list_ex snd tr \<and> pcre_compile regex \<and>
               (\<exists>replace. build_regex tr = Some (regex, replace)))) \<and>
         (\<forall>regex replace. t regex = Some replace \<longrightarrow>
            (\<exists>tr \<in> set (squasher_trails ps). list_ex snd tr \<and> build_regex tr = Some (regex, replace))) \<and>
         (\<forall>url. squasher_knows ps url \<and> kids (root_node ps) \<noteq> [] \<longrightarrow>
            (\<exists>tr \<in> set (squasher_trails ps). trail_agrees tr (take 5 (url_segments url)) \<and>
               (list_ex snd tr \<longrightarrow> (\<exists>regex replace. build_regex tr = Some (regex, replace) \<and>
                  (pcre_compile regex \<longrightarrow> t regex \<noteq> None)))))"
proof -
  have t: "emit_all pcre_compile False Map.empty (squasher_trails ps) = Some t"
    using assms by (simp add: get_regexes_emit squasher_ok_def)
  have sound: "\<exists>tr \<in> set (squasher_trails ps). list_ex snd tr \<and> build_regex tr = Some (regex, replace) \<and> pcre_compile regex"
    if "t regex = Some replace" for regex replace
    using emit_all_sound [OF t that] by auto
  have complete: "\<exists>regex replace. build_regex tr = Some (regex, replace) \<and> (pcre_compile regex \<longrightarrow> t regex \<noteq> None)"
    if "tr \<in> set (squasher_trails ps)" "list_ex snd tr" for tr
    using emit_all_complete [OF t that(1)] that(2) by simp
  have trail: "\<exists>tr \<in> set (squasher_trails ps). trail_agrees tr (take 5 (url_segments url))"
    if "squasher_knows ps url" "kids (root_node ps) \<noteq> []" for url
  proof -
    let ?ss = "take 5 (url_segments url)"
    have "\<exists>k \<in> set (kids (root_node ps)). covers [k] ?ss"
      using that unfolding squasher_knows_def by (cases ?ss; cases "kids (root_node ps)") auto
    then obtain k tr where "k \<in> set (kids (root_node ps))" "tr \<in> set (leaf_trails [] k)" "trail_agrees tr ?ss"
      using covers_leaf [where abv = "[]"] by fastforce
    then show ?thesis by (auto simp: squasher_trails_def)
  qed
  have dom: "t regex \<noteq> None \<longleftrightarrow> (\<exists>tr \<in> set (squasher_trails ps). list_ex snd tr \<and> pcre_compile regex \<and>
          (\<exists>replace. build_regex tr = Some (regex, replace)))" for regex
  proof
    assume "t regex \<noteq> None"
    then show "\<exists>tr \<in> set (squasher_trails ps). list_ex snd tr \<and> pcre_compile regex \<and>
        (\<exists>replace. build_regex tr = Some (regex, replace))" using sound by blast
  next
    assume "\<exists>tr \<in> set (squasher_trails ps). list_ex snd tr \<and> pcre_compile regex \<and>
        (\<exists>replace. build_regex tr = Some (regex, replace))"
    then obtain tr replace where tr: "tr \<in> set (squasher_trails ps)" "list_ex snd tr" "pcre_compile regex"
      "build_regex tr = Some (regex, replace)" by blast
    from complete [OF tr(1,2)] tr(3,4) show "t regex \<noteq> None" by simp
  qed
  show ?thesis
  proof (intro conjI allI impI)
    fix regex show "t regex \<noteq> None \<longleftrightarrow> (\<exists>tr \<in> set (squasher_trails ps). list_ex snd tr \<and> pcre_compile regex \<and>
        (\<exists>replace. build_regex tr = Some (regex, replace)))" by (rule dom)
  next
    fix regex replace assume "t regex = Some replace"
    from sound [OF this] show "\<exists>tr \<in> set (squasher_trails ps). list_ex snd tr \<and> build_regex tr = Some (regex, replace)"
      by blast
  next
    fix url assume "squasher_knows ps url \<and> kids (root_node ps) \<noteq> []"
    then obtain tr where tr: "tr \<in> set (squasher_trails ps)" "trail_agrees tr (take 5 (url_segments url))"
      using trail by blast
    then show "\<exists>tr \<in> set (squasher_trails ps). trail_agrees tr (take 5 (url_segments url)) \<and>
        (list_ex snd tr \<longrightarrow> (\<exists>regex replace. build_regex tr = Some (regex, replace) \<and>
           (pcre_compile regex \<longrightarrow> t regex \<noteq> None)))"
      by (intro bexI [OF _ tr(1)] conjI tr(2) impI complete [OF tr(1)])
  qed
qed

lemma squasher_regex_example:
  "tm_path_squasher_get_regexes (\<lambda>r. True)
     \<lparr>root_node = Node ''<ROOT>'' False [Node ''a'' True [Node squash_name False []]],
      cardinality_factor = 3, added_path_count = 1\<rparr> =
   Some [''(a'' @ [CHR 0x5C, CHR ''/''] @ ''[^'' @ [CHR 0x5C] @ ''/]+.*)'' \<mapsto> ''a/{...}'']"
  by (simp add: get_regexes_emit squasher_trails_def emit_regex_def build_regex_def regex_store_def)

lemma squasher_two_leaves:
  "tm_path_squasher_get_regexes (\<lambda>r. True)
     \<lparr>root_node = Node ''<ROOT>'' False [Node ''a'' True [Node squash_name False []], Node ''b'' False []],
      cardinality_factor = 3, added_path_count = 1\<rparr> =
   Some [''(a'' @ [CHR 0x5C, CHR ''/''] @ ''[^'' @ [CHR 0x5C] @ ''/]+.*)'' \<mapsto> ''a/{...}'']"
  by (simp add: get_regexes_emit squasher_trails_def emit_regex_def build_regex_def regex_store_def)

theorem squasher_regexes_of_leaves_witness:
  "\<exists>tr \<in> set (squasher_trails \<lparr>root_node = Node ''<ROOT>'' False [Node ''a'' True [Node squash_name False []], Node ''b'' False []],
      cardinality_factor = 3, added_path_count = 1\<rparr>). list_ex snd tr \<and> build_regex tr =
        Some (''(a'' @ [CHR 0x5C, CHR ''/''] @ ''[^'' @ [CHR 0x5C] @ ''/]+.*)'', ''a/{...}'')"
proof -
  let ?ps = "\<lparr>root_node = Node ''<ROOT>'' False [Node ''a'' True [Node squash_name False []], Node ''b'' False []],
      cardinality_factor = 3, added_path_count = 1\<rparr> :: path_squasher"
  have "squasher_ok ?ps" by (simp add: squasher_ok_def wf_node.simps eval_nat_numeral)
  from squasher_regexes_of_leaves [OF this squasher_two_leaves] show ?thesis by simp
qed

end
