(* ===== verification/TM_World.thy ===== *)
theory TM_World
  imports TM_Time TM_Text TM_Squasher "HOL-Library.List_Lexorder" "HOL-Library.Product_Lexorder"
begin

text \<open>
  The code tracemate calls but does not contain, as a record of functions, and the state of the
  process. A record \<open>('j, 'd, 'h) env\<close> holds one function per library routine: the JSON
  library (\<open>'j\<close> is a pointer to a JSON object, the option's \<open>None\<close> a NULL pointer), the
  arithmetic on \<open>double\<close> (\<open>'d\<close>), the histograms (\<open>'h\<close>), pcre, curl, base64 and \<open>mktime\<close>,
  the hooks, what an uninitialised stack buffer happens to hold, and what is left in the return
  register by a function that ends without a \<open>return\<close>.
\<close>

section \<open>Library routines\<close>

text \<open>
  \<open>pcre_exec\<close> gives \<open>None\<close> when its result is not positive, else the groups it set: \<open>None\<close> for a
  group that took no part in the match, \<open>Some (start, end)\<close> otherwise. \<open>d_u64\<close> is the
  conversion of a \<open>double\<close> to \<open>uint64_t\<close>, undefined for a value out of range.
\<close>

type_synonym pcre_groups = "(nat \<times> nat) option list"

text \<open>
  \<open>hash_order\<close> and \<open>metric_order\<close> are the order in which an iteration over an \<open>mtev_hash_table\<close>
  visits its keys.
\<close>

record metric_key =
  timestamp :: u64
  aggregate :: bool
  immediate_flush :: bool
  metric_name :: string

instantiation metric_key_ext :: (linorder) linorder
begin

definition key_tuple :: "'a metric_key_scheme \<Rightarrow> u64 \<times> bool \<times> bool \<times> string \<times> 'a" where
  "key_tuple k = (timestamp k, aggregate k, immediate_flush k, metric_name k, metric_key.more k)"

definition less_eq_metric_key_ext :: "'a metric_key_scheme \<Rightarrow> 'a metric_key_scheme \<Rightarrow> bool" where
  "less_eq_metric_key_ext a b = (key_tuple a \<le> key_tuple b)"

definition less_metric_key_ext :: "'a metric_key_scheme \<Rightarrow> 'a metric_key_scheme \<Rightarrow> bool" where
  "less_metric_key_ext a b = (key_tuple a < key_tuple b)"

instance
proof
  fix x y z :: "'a metric_key_scheme"
  show "x < y \<longleftrightarrow> x \<le> y \<and> \<not> y \<le> x"
    by (simp add: less_eq_metric_key_ext_def less_metric_key_ext_def less_le_not_le)
  show "x \<le> x" by (simp add: less_eq_metric_key_ext_def)
  show "x \<le> y \<Longrightarrow> y \<le> z \<Longrightarrow> x \<le> z"
    unfolding less_eq_metric_key_ext_def by (rule order_trans)
  show "x \<le> y \<Longrightarrow> y \<le> x \<Longrightarrow> x = y"
    unfolding less_eq_metric_key_ext_def by (drule (1) antisym) (simp add: key_tuple_def)
  show "x \<le> y \<or> y \<le> x" unfolding less_eq_metric_key_ext_def by (rule linear)
qed

end

datatype produce_result = Produce_ok | Produce_queue_full | Produce_error

datatype hook_result = MTEV_HOOK_CONTINUE | MTEV_HOOK_DONE | MTEV_HOOK_ABORT

record ('j, 'd, 'h) env =
  jo_get :: "'j option \<Rightarrow> string \<Rightarrow> 'j option"
  jo_string :: "'j option \<Rightarrow> string option"
  jo_uint64 :: "'j option \<Rightarrow> u64"
  jo_int :: "'j option \<Rightarrow> int"
  jo_double :: "'j option \<Rightarrow> 'd"
  jo_boolean :: "'j option \<Rightarrow> bool"
  jo_idx :: "'j option \<Rightarrow> nat \<Rightarrow> 'j option"
  jo_length :: "'j option \<Rightarrow> nat"
  jo_is_array :: "'j option \<Rightarrow> bool"
  jo_int64 :: "'j option \<Rightarrow> int"
  jo_items :: "'j \<Rightarrow> (string \<times> 'j option) list"
  jo_print :: "'j \<Rightarrow> string"
  jo_parse :: "string \<Rightarrow> 'j option"
  jo_object :: "(string \<times> 'j) list \<Rightarrow> 'j"
  jo_new_string :: "string \<Rightarrow> 'j"
  jo_cut :: "'j \<Rightarrow> 'j option \<Rightarrow> nat \<Rightarrow> 'j"
  d_zero :: 'd
  d_add :: "'d \<Rightarrow> 'd \<Rightarrow> 'd"
  d_mul :: "'d \<Rightarrow> 'd \<Rightarrow> 'd"
  d_div :: "'d \<Rightarrow> 'd \<Rightarrow> 'd"
  d_sub :: "'d \<Rightarrow> 'd \<Rightarrow> 'd"
  d_int :: "int \<Rightarrow> 'd"
  d_print :: "'d \<Rightarrow> string"
  d_u64 :: "'d \<Rightarrow> u64 option"
  d_isnormal :: "'d \<Rightarrow> bool"
  h_empty :: 'h
  h_insert :: "'h \<Rightarrow> u64 \<Rightarrow> 'h"
  h_accumulate :: "'h \<Rightarrow> 'h \<Rightarrow> 'h"
  h_b64 :: "'h \<Rightarrow> string"
  h_from_b64 :: "string \<Rightarrow> 'h"
  h_mean :: "'h \<Rightarrow> 'd"
  h_stddev :: "'h \<Rightarrow> 'd"
  h_quantile :: "'h \<Rightarrow> nat \<Rightarrow> 'd"
  pcre_compile :: "string \<Rightarrow> bool"
  pcre_exec :: "string \<Rightarrow> string \<Rightarrow> pcre_groups option"
  url_unescape :: "string \<Rightarrow> string option"
  b64_encode :: "string \<Rightarrow> string"
  lib_mktime :: "tm \<Rightarrow> int"
  junk_isdst :: int
  junk_team :: string
  junk_return :: bool
  env_owner :: u32
  trace_hook :: "'j \<Rightarrow> hook_result"
  document_hook :: "'j \<Rightarrow> hook_result \<times> 'j option \<times> int"
  lz4_compress :: "string \<Rightarrow> string option"
  lz4_decompress :: "string \<Rightarrow> nat \<Rightarrow> string option"
  compress_bound :: "nat \<Rightarrow> nat"
  hash_order :: "string set \<Rightarrow> string list"
  metric_order :: "metric_key set \<Rightarrow> metric_key list"
  bloom_contains :: "string list \<Rightarrow> string \<Rightarrow> bool"

section \<open>Metrics\<close>

text \<open>
  The bytes of a \<open>metric_key_t\<close> are the key of a team's hash: timestamp, length (a function of
  the name), the two flags and the name. The union of a \<open>metric_value_t\<close> and its type tag are
  one datatype.
\<close>

datatype ('d, 'h) metric_union = Number 'd | TextValue string | Histogram 'h | Integer u64

record ('d, 'h) metric_value =
  metric :: "('d, 'h) metric_union"
  mcount :: "32 word"
  last_seen :: u64
  flushed_ms :: u64
  owner_id :: u32
  scheduled_for_destruction :: bool

type_synonym ('d, 'h) metrics = "metric_key \<rightharpoonup> ('d, 'h) metric_value"

section \<open>Teams\<close>

datatype service_type =
  SERVICE_TYPE_UNKNOWN | SERVICE_TYPE_TRANSACTIONAL | SERVICE_TYPE_MESSAGE | SERVICE_TYPE_SCHEDULED

record service_info =
  service_agent :: "string option"
  si_type :: service_type
  created :: bool

text \<open>A compiled pattern is known by the text it was compiled from.\<close>

record pcre_matcher =
  match :: string
  replacement :: string

record ('d, 'h) team_data =
  hash :: "('d, 'h) metrics"
  circonus_api_key :: "string option"
  check_id :: "string option"
  path_squashers :: "string \<rightharpoonup> path_squasher"
  squash_regexes :: "string \<rightharpoonup> (string \<rightharpoonup> pcre_matcher)"
  service_data :: "string \<rightharpoonup> service_info"
  path_squash_cardinality_factor :: int
  allowlist :: "string option list"
  matcher :: "pcre_matcher list"
  metric_submission_url :: "string option"
  jaeger_dest_url :: "string option"
  collect_host_level_metrics :: bool
  collect_host_level_system :: bool
  rollup_high_cardinality :: bool
  metric_flush_frequency_ms :: u64

section \<open>The transaction store\<close>

text \<open>
  An LMDB environment maps a database handle to a table of byte strings. A bloom filter is the
  list of keys added to it. A write transaction may fail in one of its four steps;
  \<open>mdb_outcomes\<close> is the sequence of outcomes the library gives.
\<close>

type_synonym mdb_env = "nat \<Rightarrow> string \<rightharpoonup> string"

datatype mdb_step = Txn_begin | Cursor_open | Cursor_put | Txn_commit

type_synonym mdb_outcome = "mdb_step option"

record tstore =
  current_open_ms :: u64
  current_env :: mdb_env
  current_dbi :: nat
  current_jaeger_dbi :: nat
  current_bloom :: "string list"
  last_open_ms :: u64
  last_env :: mdb_env
  last_dbi :: nat
  last_jaeger_dbi :: nat
  last_bloom :: "string list"
  use_bloom_filters :: bool
  default_lookback_secs :: int
  mdb_outcomes :: "nat \<Rightarrow> mdb_outcome"
  mdb_pos :: nat

section \<open>The process\<close>

record topic_stats =
  topic_name :: string
  messages_seen :: nat
  messages_processed :: nat
  messages_errored :: nat
  messages_filtered :: nat
  unknown_team :: nat
  kafka_offset :: u64
  high_watermark :: int
  kafka_lag :: int

text \<open>
  \<open>clock\<close> gives the successive readings of \<open>mtev_now_ms\<close>; a reading that is only logged is not
  taken. \<open>produce_results\<close> are the successive results of \<open>rd_kafka_produce\<close>, \<open>produced\<close> the
  messages it accepted (topic, payload, key), newest first. \<open>rand_seq\<close> are the results of \<open>rand\<close>;
  \<open>journal\<close> holds the messages written to the journal, newest first, whose writes succeed or fail
  as \<open>journal_results\<close> says.
\<close>

record ('d, 'h) world =
  teams :: "string \<rightharpoonup> ('d, 'h) team_data"
  clock :: "nat \<Rightarrow> u64"
  ticks :: nat
  produce_results :: "nat \<Rightarrow> produce_result"
  produce_pos :: nat
  produced :: "(string \<times> string \<times> string) list"
  rand_seq :: "nat \<Rightarrow> nat"
  rand_pos :: nat
  journal_open :: bool
  journal_results :: "nat \<Rightarrow> bool"
  journal_pos :: nat
  journal :: "string list"
  threshold_hash :: "string \<rightharpoonup> string"
  flushes_hash :: "string \<rightharpoonup> string"
  chopper :: bool
  stats :: topic_stats
  store :: tstore

definition mtev_now_ms :: "('d, 'h) world \<Rightarrow> u64 \<times> ('d, 'h) world" where
  "mtev_now_ms w = (clock w (ticks w), w\<lparr>ticks := ticks w + 1\<rparr>)"

definition add_errored :: "('d, 'h) world \<Rightarrow> ('d, 'h) world" where
  "add_errored w = w\<lparr>stats := (stats w)\<lparr>messages_errored := messages_errored (stats w) + 1\<rparr>\<rparr>"

definition add_filtered :: "('d, 'h) world \<Rightarrow> ('d, 'h) world" where
  "add_filtered w = w\<lparr>stats := (stats w)\<lparr>messages_filtered := messages_filtered (stats w) + 1\<rparr>\<rparr>"

section \<open>Team data\<close>

definition new_team :: "('d, 'h) team_data" where
  "new_team =
     \<lparr>hash = Map.empty, circonus_api_key = None, check_id = None, path_squashers = Map.empty,
      squash_regexes = Map.empty, service_data = Map.empty, path_squash_cardinality_factor = 0,
      allowlist = [], matcher = [],
      metric_submission_url = Some ''https://api.circonus.com/module/httptrap/8e9570ba-1448-41a4-9aef-4c2b85467a11/V8w7Upqp'',
      jaeger_dest_url = Some ''apm-collector-headless.o11y:14250'',
      collect_host_level_metrics = False, collect_host_level_system = False,
      rollup_high_cardinality = False, metric_flush_frequency_ms = 0\<rparr>"

text \<open>\<open>mtev_hash_store\<close> does not replace: a second team of the same name is dropped.\<close>

definition tm_add_team :: "string \<Rightarrow> ('d, 'h) team_data \<Rightarrow> ('d, 'h) world \<Rightarrow> ('d, 'h) world" where
  "tm_add_team team data w =
     (let td = data\<lparr>hash := Map.empty, path_squashers := Map.empty, squash_regexes := Map.empty,
                    service_data := Map.empty, path_squash_cardinality_factor := 200,
                    metric_flush_frequency_ms := 60000\<rparr>
      in if teams w team = None then w\<lparr>teams := (teams w)(team \<mapsto> td)\<rparr> else w)"

text \<open>
  \<open>get_team_data\<close> always finds or makes the team: the pointer it returns is the team's name in
  the model, and never NULL.
\<close>

definition get_team_data :: "string \<Rightarrow> ('d, 'h) world \<Rightarrow> ('d, 'h) world" where
  "get_team_data team w = (if teams w team \<noteq> None then w else tm_add_team team new_team w)"

definition the_team :: "('d, 'h) world \<Rightarrow> string \<Rightarrow> ('d, 'h) team_data ub" where
  "the_team w team = teams w team"

definition put_team :: "string \<Rightarrow> ('d, 'h) team_data \<Rightarrow> ('d, 'h) world \<Rightarrow> ('d, 'h) world" where
  "put_team team td w = w\<lparr>teams := (teams w)(team \<mapsto> td)\<rparr>"

section \<open>Thresholds\<close>

text \<open>\<open>get_jaeger_threshold_us\<close> and \<open>get_metric_flush_frequency_ms\<close> (main.c).\<close>

definition lookup_setting :: "(string \<rightharpoonup> string) \<Rightarrow> string option \<Rightarrow> string option" where
  "lookup_setting table service =
     (case service of
        None \<Rightarrow> None
      | Some s \<Rightarrow> (case table s of Some d \<Rightarrow> Some d | None \<Rightarrow> table ''default''))"

definition get_jaeger_threshold_us :: "string option \<Rightarrow> ('d, 'h) world \<Rightarrow> u64" where
  "get_jaeger_threshold_us service w =
     (case lookup_setting (threshold_hash w) service of
        Some data \<Rightarrow> strtoull data * 1000
      | None \<Rightarrow> 2000 * 1000)"

definition get_metric_flush_frequency_ms :: "string option \<Rightarrow> ('d, 'h) world \<Rightarrow> u64" where
  "get_metric_flush_frequency_ms service w =
     (case lookup_setting (flushes_hash w) service of
        Some data \<Rightarrow> strtoull data
      | None \<Rightarrow> 60 * 1000)"

section \<open>Facts\<close>

lemma get_team_data_present: "\<exists>td. teams (get_team_data team w) team = Some td"
  by (auto simp: get_team_data_def tm_add_team_def Let_def)

lemma get_team_data_keeps: "teams w t = Some td \<Longrightarrow> teams (get_team_data team w) t = Some td"
  by (auto simp: get_team_data_def tm_add_team_def Let_def)

lemma get_team_data_idem [simp]: "get_team_data team (get_team_data team w) = get_team_data team w"
  using get_team_data_present [of team w] by (auto simp: get_team_data_def [of team "get_team_data team w"])

text \<open>Steps that touch only teams, the clock and what is published.\<close>

definition same_process :: "('d, 'h) world \<Rightarrow> ('d, 'h) world \<Rightarrow> bool" where
  "same_process w w' =
     (store w' = store w \<and> stats w' = stats w \<and> threshold_hash w' = threshold_hash w \<and>
      flushes_hash w' = flushes_hash w \<and> clock w' = clock w)"

lemma same_process_refl [simp]: "same_process w w"
  by (simp add: same_process_def)

lemma same_process_trans [trans]: "same_process a b \<Longrightarrow> same_process b c \<Longrightarrow> same_process a c"
  by (simp add: same_process_def)

lemma same_process_teams [simp]:
  "same_process w (get_team_data t w)" "same_process w (put_team t td w)"
  by (simp_all add: same_process_def get_team_data_def tm_add_team_def put_team_def Let_def)

lemma same_process_settings:
  "same_process w w' \<Longrightarrow> get_jaeger_threshold_us s w' = get_jaeger_threshold_us s w"
  "same_process w w' \<Longrightarrow> get_metric_flush_frequency_ms s w' = get_metric_flush_frequency_ms s w"
  by (simp_all add: same_process_def get_jaeger_threshold_us_def get_metric_flush_frequency_ms_def)

section \<open>An instance\<close>

text \<open>
  A small instance of the library record, for the concrete inputs of the witnesses: JSON
  documents as a datatype, integers for doubles, sample lists for histograms, patterns that
  match nothing.
\<close>

datatype jdoc = JObj "(string \<times> jdoc) list" | JStr string | JNum int | JArr "jdoc list"

fun jdoc_print :: "jdoc \<Rightarrow> string" where
  "jdoc_print (JObj _) = ''{}''"
| "jdoc_print (JStr s) = s"
| "jdoc_print (JNum n) = ''0''"
| "jdoc_print (JArr _) = ''[]''"

definition demo_env :: "(jdoc, int, u64 list) env" where
  "demo_env =
     \<lparr>jo_get = (\<lambda>j k. case j of Some (JObj kvs) \<Rightarrow> map_of kvs k | _ \<Rightarrow> None),
      jo_string = (\<lambda>j. case j of Some (JStr s) \<Rightarrow> Some s | _ \<Rightarrow> None),
      jo_uint64 = (\<lambda>j. case j of Some (JNum n) \<Rightarrow> word_of_int n | _ \<Rightarrow> 0),
      jo_int = (\<lambda>j. case j of Some (JNum n) \<Rightarrow> n | _ \<Rightarrow> 0),
      jo_double = (\<lambda>j. case j of Some (JNum n) \<Rightarrow> n | _ \<Rightarrow> 0),
      jo_boolean = (\<lambda>j. case j of Some (JNum n) \<Rightarrow> n \<noteq> 0 | _ \<Rightarrow> False),
      jo_idx = (\<lambda>j n. case j of Some (JArr js) \<Rightarrow> if n < length js then Some (js ! n) else None | _ \<Rightarrow> None),
      jo_length = (\<lambda>j. case j of Some (JArr js) \<Rightarrow> length js | _ \<Rightarrow> 0),
      jo_is_array = (\<lambda>j. case j of Some (JArr js) \<Rightarrow> True | _ \<Rightarrow> False),
      jo_int64 = (\<lambda>j. case j of Some (JNum n) \<Rightarrow> n | _ \<Rightarrow> 0),
      jo_items = (\<lambda>j. case j of JObj kvs \<Rightarrow> map (\<lambda>(k, v). (k, Some v)) kvs | _ \<Rightarrow> []),
      jo_print = jdoc_print,
      jo_parse = (\<lambda>s. Some (JStr s)),
      jo_object = JObj, jo_new_string = JStr, jo_cut = (\<lambda>j _ _. j),
      d_zero = 0, d_add = (+), d_mul = (*), d_div = (div), d_sub = (-), d_int = (\<lambda>n. n),
      d_print = (\<lambda>d. ''0''), d_u64 = (\<lambda>d. Some (word_of_int d)), d_isnormal = (\<lambda>d. d \<noteq> 0),
      h_empty = [], h_insert = (\<lambda>h x. x # h), h_accumulate = (@), h_b64 = (\<lambda>h. ''AA''),
      h_from_b64 = (\<lambda>s. []), h_mean = (\<lambda>h. int (length h)), h_stddev = (\<lambda>h. 0), h_quantile = (\<lambda>h q. 0),
      pcre_compile = (\<lambda>r. True), pcre_exec = (\<lambda>r s. None),
      url_unescape = Some, b64_encode = (\<lambda>s. s), lib_mktime = tm_sec,
      junk_isdst = 0, junk_team = ''junk'', junk_return = False, env_owner = 7,
      trace_hook = (\<lambda>j. MTEV_HOOK_CONTINUE), document_hook = (\<lambda>j. (MTEV_HOOK_CONTINUE, None, 600)),
      lz4_compress = (\<lambda>s. None), lz4_decompress = (\<lambda>s n. None), compress_bound = (\<lambda>n. n + 64),
      hash_order = sorted_list_of_set, metric_order = sorted_list_of_set,
      bloom_contains = (\<lambda>ks k. k \<in> set ks)\<rparr>"

definition demo_store :: tstore where
  "demo_store =
     \<lparr>current_open_ms = 0, current_env = (\<lambda>_. Map.empty), current_dbi = 2, current_jaeger_dbi = 3,
      current_bloom = [], last_open_ms = 0, last_env = (\<lambda>_. Map.empty), last_dbi = 2,
      last_jaeger_dbi = 3, last_bloom = [], use_bloom_filters = False, default_lookback_secs = 300,
      mdb_outcomes = (\<lambda>_. None), mdb_pos = 0\<rparr>"

definition demo_world :: "(int, u64 list) world" where
  "demo_world =
     \<lparr>teams = [''t'' \<mapsto> new_team], clock = (\<lambda>n. 1000000), ticks = 0,
      produce_results = (\<lambda>_. Produce_ok), produce_pos = 0, produced = [],
      rand_seq = (\<lambda>n. 7), rand_pos = 0, journal_open = True, journal_results = (\<lambda>n. True),
      journal_pos = 0, journal = [], threshold_hash = Map.empty,
      flushes_hash = Map.empty, chopper = True,
      stats = \<lparr>topic_name = ''apm'', messages_seen = 0, messages_processed = 0, messages_errored = 0,
        messages_filtered = 0, unknown_team = 0, kafka_offset = 0, high_watermark = 0, kafka_lag = 0\<rparr>,
      store = demo_store\<rparr>"

lemma demo_world_sel [simp]:
  "teams demo_world = [''t'' \<mapsto> new_team]" "store demo_world = demo_store"
  "produce_results demo_world = (\<lambda>n. Produce_ok)" "produce_pos demo_world = 0" "produced demo_world = []"
  "clock demo_world = (\<lambda>n. 1000000)" "ticks demo_world = 0" "journal_open demo_world"
  by (simp_all add: demo_world_def)

lemma demo_env_sel:
  "jo_get demo_env (Some (JObj kvs)) k = map_of kvs k" "jo_get demo_env None k = None"
  "jo_string demo_env (Some (JStr s)) = Some s" "jo_string demo_env None = None"
  "jo_boolean demo_env (Some (JNum n)) = (n \<noteq> 0)" "jo_boolean demo_env None = False"
  "jo_uint64 demo_env (Some (JNum n)) = word_of_int n" "jo_int demo_env (Some (JNum n)) = n"
  "jo_int demo_env None = 0" "jo_uint64 demo_env None = 0"
  "jo_int64 demo_env (Some (JNum n)) = n" "jo_int64 demo_env None = 0"
  "jo_length demo_env None = 0" "jo_length demo_env (Some (JArr js)) = length js"
  "url_unescape demo_env = Some" "trace_hook demo_env j = MTEV_HOOK_CONTINUE" "jo_cut demo_env j v i = j"
  "jo_print demo_env = jdoc_print" "jo_object demo_env = JObj" "jo_new_string demo_env = JStr"
  "hash_order demo_env = sorted_list_of_set" "metric_order demo_env = sorted_list_of_set"
  "lz4_compress demo_env s = None" "pcre_exec demo_env r s = None" "pcre_compile demo_env r"
  by (simp_all add: demo_env_def)

end
