(* ===== verification/TM_Metric.thy ===== *)
theory TM_Metric
  imports TM_World
begin

text \<open>
  The metric table of a team: the constructors of \<open>tm_metric.h\<close> and the update operations of
  \<open>tm_process.c\<close>. Every update looks its key up, and on a miss looks it up again under the
  team's mutex before it stores a new value; here the operations run one at a time (the
  interleaved runs are in \<open>TM_Concurrent\<close>).
\<close>

section \<open>Keys and values\<close>

definition make_metric_key :: "string \<Rightarrow> u64 \<Rightarrow> metric_key" where
  "make_metric_key name timestamp_ms =
     \<lparr>timestamp = timestamp_ms, aggregate = False, immediate_flush = False, metric_name = name\<rparr>"

definition new_value :: "u32 \<Rightarrow> ('d, 'h) metric_union \<Rightarrow> u64 \<Rightarrow> ('d, 'h) metric_value" where
  "new_value owner m now =
     \<lparr>metric = m, mcount = 1, last_seen = now, flushed_ms = 0, owner_id = owner,
      scheduled_for_destruction = False\<rparr>"

definition make_numeric_value :: "('j, 'd, 'h) env \<Rightarrow> 'd \<Rightarrow> u64 \<Rightarrow> ('d, 'h) metric_value" where
  "make_numeric_value E d = new_value (env_owner E) (Number d)"

definition make_integer_value :: "('j, 'd, 'h) env \<Rightarrow> u64 \<Rightarrow> u64 \<Rightarrow> ('d, 'h) metric_value" where
  "make_integer_value E i = new_value (env_owner E) (Integer i)"

definition make_histogram_latency_value :: "('j, 'd, 'h) env \<Rightarrow> u64 \<Rightarrow> u64 \<Rightarrow> ('d, 'h) metric_value" where
  "make_histogram_latency_value E us = new_value (env_owner E) (Histogram (h_insert E (h_empty E) us))"

definition make_text_value :: "('j, 'd, 'h) env \<Rightarrow> string \<Rightarrow> u64 \<Rightarrow> ('d, 'h) metric_value" where
  "make_text_value E s = new_value (env_owner E) (TextValue s)"

section \<open>Changing a value in place\<close>

text \<open>
  What an update does to a value it finds. A value of another type would be read through the
  wrong member of the union: \<open>None\<close>.
\<close>

definition hit_histogram ::
  "('j, 'd, 'h) env \<Rightarrow> u64 \<Rightarrow> u64 \<Rightarrow> ('d, 'h) metric_value \<Rightarrow> ('d, 'h) metric_value ub" where
  "hit_histogram E us now v =
     (case metric v of
        Histogram h \<Rightarrow> Some (v\<lparr>last_seen := now, metric := Histogram (h_insert E h us)\<rparr>)
      | _ \<Rightarrow> None)"

definition hit_counter :: "u64 \<Rightarrow> u64 \<Rightarrow> ('d, 'h) metric_value \<Rightarrow> ('d, 'h) metric_value ub" where
  "hit_counter count now v =
     (case metric v of
        Integer i \<Rightarrow> Some (v\<lparr>last_seen := now, metric := Integer (i + count)\<rparr>)
      | _ \<Rightarrow> None)"

definition hit_numeric ::
  "('j, 'd, 'h) env \<Rightarrow> 'd \<Rightarrow> 32 word \<Rightarrow> u64 \<Rightarrow> ('d, 'h) metric_value \<Rightarrow> ('d, 'h) metric_value ub" where
  "hit_numeric E d n now v =
     (case metric v of
        Number x \<Rightarrow> Some (v\<lparr>last_seen := now, metric := Number (d_add E x d), mcount := mcount v + n\<rparr>)
      | _ \<Rightarrow> None)"

text \<open>
  The common body of the updates: look up, change the value in place or store a new one. The
  clock is read once, for \<open>last_seen\<close>.
\<close>

definition upsert ::
  "metric_key \<Rightarrow> (u64 \<Rightarrow> ('d, 'h) metric_value \<Rightarrow> ('d, 'h) metric_value ub) \<Rightarrow>
     (u64 \<Rightarrow> ('d, 'h) metric_value) \<Rightarrow> u64 \<Rightarrow> ('d, 'h) metrics \<Rightarrow> ('d, 'h) metrics ub" where
  "upsert key hit mk now m =
     (case m key of
        Some v \<Rightarrow> (case hit now v of None \<Rightarrow> None | Some v' \<Rightarrow> Some (m(key \<mapsto> v')))
      | None \<Rightarrow>
          (case m key of
             Some v \<Rightarrow> (case hit now v of None \<Rightarrow> None | Some v' \<Rightarrow> Some (m(key \<mapsto> v')))
           | None \<Rightarrow> Some (m(key \<mapsto> mk now))))"

text \<open>Running an operation on the table of a team.\<close>

definition on_metrics ::
  "string \<Rightarrow> (u64 \<Rightarrow> ('d, 'h) metrics \<Rightarrow> ('d, 'h) metrics ub) \<Rightarrow> ('d, 'h) world \<Rightarrow> ('d, 'h) world ub" where
  "on_metrics team f w = do {
     let (now, w) = mtev_now_ms w;
     td \<leftarrow> the_team w team;
     m \<leftarrow> f now (hash td);
     Some (put_team team (td\<lparr>hash := m\<rparr>) w) }"

section \<open>The updates\<close>

definition agg_key :: "string \<Rightarrow> bool \<Rightarrow> u64 \<Rightarrow> metric_key" where
  "agg_key name agg ts = (make_metric_key name ts)\<lparr>aggregate := agg\<rparr>"

definition flush_key :: "string \<Rightarrow> bool \<Rightarrow> u64 \<Rightarrow> metric_key" where
  "flush_key name agg ts = (make_metric_key name ts)\<lparr>aggregate := agg, immediate_flush := \<not> agg\<rparr>"

definition update_histogram ::
  "('j, 'd, 'h) env \<Rightarrow> string \<Rightarrow> string \<Rightarrow> bool \<Rightarrow> u64 \<Rightarrow> u64 \<Rightarrow> ('d, 'h) world \<Rightarrow> ('d, 'h) world ub" where
  "update_histogram E team name agg duration_us ts =
     on_metrics team (upsert (agg_key name agg ts) (hit_histogram E duration_us)
                        (make_histogram_latency_value E duration_us))"

definition update_counter ::
  "('j, 'd, 'h) env \<Rightarrow> string \<Rightarrow> string \<Rightarrow> bool \<Rightarrow> u64 \<Rightarrow> u64 \<Rightarrow> ('d, 'h) world \<Rightarrow> ('d, 'h) world ub" where
  "update_counter E team name agg count ts =
     on_metrics team (upsert (flush_key name agg ts) (hit_counter count) (make_integer_value E count))"

definition update_text ::
  "('j, 'd, 'h) env \<Rightarrow> string \<Rightarrow> string \<Rightarrow> string \<Rightarrow> u64 \<Rightarrow> ('d, 'h) world \<Rightarrow> ('d, 'h) world ub" where
  "update_text E team name txt ts =
     on_metrics team (\<lambda>now m. Some (m(flush_key name False ts \<mapsto> make_text_value E txt now)))"

definition update_numeric ::
  "('j, 'd, 'h) env \<Rightarrow> string \<Rightarrow> string \<Rightarrow> bool \<Rightarrow> 'd \<Rightarrow> u64 \<Rightarrow> ('d, 'h) world \<Rightarrow> ('d, 'h) world ub" where
  "update_numeric E team name agg value ts =
     on_metrics team (upsert (flush_key name agg ts) (hit_numeric E value 0) (make_numeric_value E value))"

definition update_average ::
  "('j, 'd, 'h) env \<Rightarrow> string \<Rightarrow> string \<Rightarrow> bool \<Rightarrow> 'd \<Rightarrow> u64 \<Rightarrow> ('d, 'h) world \<Rightarrow> ('d, 'h) world ub" where
  "update_average E team name agg value ts =
     on_metrics team (upsert (flush_key name agg ts) (hit_numeric E value 1) (make_numeric_value E value))"

definition reset_value :: "('j, 'd, 'h) env \<Rightarrow> ('d, 'h) metric_value \<Rightarrow> ('d, 'h) metric_value" where
  "reset_value E v =
     v\<lparr>mcount := 0, flushed_ms := 0,
       metric := (case metric v of
                    Number d \<Rightarrow> Number (d_zero E)
                  | TextValue s \<Rightarrow> TextValue s
                  | Histogram h \<Rightarrow> Histogram (h_empty E)
                  | Integer i \<Rightarrow> Integer 0)\<rparr>"

section \<open>Facts\<close>

lemma upsert_eq:
  "upsert key hit mk now m =
     (case m key of
        Some v \<Rightarrow> map_option (\<lambda>v'. m(key \<mapsto> v')) (hit now v)
      | None \<Rightarrow> Some (m(key \<mapsto> mk now)))"
  by (auto simp: upsert_def split: option.splits)

lemma on_metrics_Some:
  "on_metrics team f w = Some w' \<longleftrightarrow>
     (\<exists>td m. teams w team = Some td \<and> f (clock w (ticks w)) (hash td) = Some m \<and>
        w' = put_team team (td\<lparr>hash := m\<rparr>) (w\<lparr>ticks := ticks w + 1\<rparr>))"
  by (auto simp: on_metrics_def mtev_now_ms_def the_team_def bind_eq_Some_conv)

text \<open>What every update leaves alone.\<close>

definition same_but_metrics :: "string \<Rightarrow> ('d, 'h) world \<Rightarrow> ('d, 'h) world \<Rightarrow> bool" where
  "same_but_metrics team w w' =
     (\<exists>td m. teams w team = Some td \<and> ticks w' = ticks w + 1 \<and>
        w' = w\<lparr>ticks := ticks w + 1, teams := (teams w)(team \<mapsto> td\<lparr>hash := m\<rparr>)\<rparr>)"

lemma on_metrics_frame: "on_metrics team f w = Some w' \<Longrightarrow> same_but_metrics team w w'"
  by (auto simp: on_metrics_Some same_but_metrics_def put_team_def)

text \<open>The interface the document handlers rely on.\<close>

definition team_metrics :: "('d, 'h) world \<Rightarrow> string \<Rightarrow> ('d, 'h) metrics" where
  "team_metrics w team = (case teams w team of Some td \<Rightarrow> hash td | None \<Rightarrow> Map.empty)"

locale update_contract =
  fixes update :: "'a \<Rightarrow> ('d, 'h) world \<Rightarrow> ('d, 'h) world ub"
    and team_of :: "'a \<Rightarrow> string"
    and key_of :: "'a \<Rightarrow> metric_key"
    and amount :: "'a \<Rightarrow> ('d, 'h) metric_union \<Rightarrow> ('d, 'h) metric_union ub"
    and start :: "'a \<Rightarrow> ('d, 'h) metric_union"
  assumes frame: "update a w = Some w' \<Longrightarrow> same_but_metrics (team_of a) w w'"
    and other: "update a w = Some w' \<Longrightarrow> k \<noteq> key_of a \<Longrightarrow>
      team_metrics w' (team_of a) k = team_metrics w (team_of a) k"
    and hit: "update a w = Some w' \<Longrightarrow> team_metrics w (team_of a) (key_of a) = Some v \<Longrightarrow>
      \<exists>v'. team_metrics w' (team_of a) (key_of a) = Some v' \<and> amount a (metric v) = Some (metric v') \<and>
        last_seen v' = clock w (ticks w) \<and> flushed_ms v' = flushed_ms v"
    and miss: "update a w = Some w' \<Longrightarrow> team_metrics w (team_of a) (key_of a) = None \<Longrightarrow>
      \<exists>v'. team_metrics w' (team_of a) (key_of a) = Some v' \<and> metric v' = start a \<and>
        last_seen v' = clock w (ticks w) \<and> flushed_ms v' = 0"
    and total: "teams w (team_of a) \<noteq> None \<Longrightarrow>
      (\<forall>v. team_metrics w (team_of a) (key_of a) = Some v \<longrightarrow> amount a (metric v) \<noteq> None) \<Longrightarrow>
      update a w \<noteq> None"
begin

lemma present: "update a w = Some w' \<Longrightarrow> team_metrics w' (team_of a) (key_of a) \<noteq> None"
  by (cases "team_metrics w (team_of a) (key_of a)") (fastforce dest: miss hit)+

lemma keeps_keys: "update a w = Some w' \<Longrightarrow>
    dom (team_metrics w' (team_of a)) = insert (key_of a) (dom (team_metrics w (team_of a)))"
  using present other by (auto simp: dom_def) (metis option.distinct(1))+

lemma other_team: "update a w = Some w' \<Longrightarrow> t \<noteq> team_of a \<Longrightarrow> teams w' t = teams w t"
  by (drule frame) (auto simp: same_but_metrics_def)

text \<open>A sequence of updates of one key adds up the amounts in order.\<close>

lemma updates_fold:
  assumes "foldM (\<lambda>w a. update a w) w as = Some w'" "\<forall>a \<in> set as. key_of a = k \<and> team_of a = t"
    and "team_metrics w t k = Some v"
  shows "\<exists>v'. team_metrics w' t k = Some v' \<and> foldM (\<lambda>x a. amount a x) (metric v) as = Some (metric v')"
  using assms
proof (induction as arbitrary: w v)
  case (Cons a as)
  then obtain w1 where w1: "update a w = Some w1" "foldM (\<lambda>w a. update a w) w1 as = Some w'"
    by (auto split: option.splits)
  with Cons.prems hit [OF w1(1)] obtain v1
    where "team_metrics w1 t k = Some v1" "amount a (metric v) = Some (metric v1)" by auto
  with Cons.IH [OF w1(2)] Cons.prems show ?case by auto
qed simp

end

text \<open>The five updates provide it.\<close>

lemma team_metrics_Some [simp]: "teams w team = Some td \<Longrightarrow> team_metrics w team = hash td"
  by (simp add: team_metrics_def)

lemma team_metrics_put [simp]: "team_metrics (put_team team td w) team = hash td"
  by (simp add: team_metrics_def put_team_def)

lemma metric_update_upsert:
  fixes update :: "'a \<Rightarrow> ('d, 'h) world \<Rightarrow> ('d, 'h) world ub"
  assumes u: "\<And>a. update a = on_metrics (team_of a) (upsert (key_of a) (hit a) (mk a))"
    and h: "\<And>a now v v'. hit a now v = Some v' \<Longrightarrow>
      amount a (metric v) = Some (metric v') \<and> last_seen v' = now \<and> flushed_ms v' = flushed_ms v"
    and n: "\<And>a now v. hit a now v = None \<Longrightarrow> amount a (metric v) = None"
    and m: "\<And>a now. metric (mk a now) = start a \<and> last_seen (mk a now) = now \<and> flushed_ms (mk a now) = 0"
  shows "update_contract update team_of key_of amount start"
proof
  fix a :: 'a and w w' k v
  {
    assume up: "update a w = Some w'"
    then obtain td ms where td: "teams w (team_of a) = Some td"
      and ms: "upsert (key_of a) (hit a) (mk a) (clock w (ticks w)) (hash td) = Some ms"
      and w': "w' = put_team (team_of a) (td\<lparr>hash := ms\<rparr>) (w\<lparr>ticks := ticks w + 1\<rparr>)"
      by (auto simp: u on_metrics_Some)
    show "same_but_metrics (team_of a) w w'" using up by (simp add: u on_metrics_frame)
    show "k \<noteq> key_of a \<Longrightarrow> team_metrics w' (team_of a) k = team_metrics w (team_of a) k"
      using ms by (auto simp: td w' upsert_eq split: option.splits)
    show "team_metrics w (team_of a) (key_of a) = Some v \<Longrightarrow>
      \<exists>v'. team_metrics w' (team_of a) (key_of a) = Some v' \<and> amount a (metric v) = Some (metric v') \<and>
        last_seen v' = clock w (ticks w) \<and> flushed_ms v' = flushed_ms v"
      using ms h by (auto simp: td w' upsert_eq)
    show "team_metrics w (team_of a) (key_of a) = None \<Longrightarrow>
      \<exists>v'. team_metrics w' (team_of a) (key_of a) = Some v' \<and> metric v' = start a \<and>
        last_seen v' = clock w (ticks w) \<and> flushed_ms v' = 0"
      using ms m by (auto simp: td w' upsert_eq)
  }
  assume t: "teams w (team_of a) \<noteq> None"
    and c: "\<forall>v. team_metrics w (team_of a) (key_of a) = Some v \<longrightarrow> amount a (metric v) \<noteq> None"
  from t obtain td where td: "teams w (team_of a) = Some td" by auto
  show "update a w \<noteq> None"
  proof (cases "hash td (key_of a)")
    case None
    then show ?thesis using td by (simp add: u on_metrics_def mtev_now_ms_def the_team_def upsert_eq)
  next
    case (Some v)
    then have "hit a (clock w (ticks w)) v \<noteq> None" using c n td by fastforce
    then show ?thesis using td Some
      by (auto simp: u on_metrics_def mtev_now_ms_def the_team_def upsert_eq)
  qed
qed

definition add_hist :: "('j, 'd, 'h) env \<Rightarrow> u64 \<Rightarrow> ('d, 'h) metric_union \<Rightarrow> ('d, 'h) metric_union ub" where
  "add_hist E us u = (case u of Histogram h \<Rightarrow> Some (Histogram (h_insert E h us)) | _ \<Rightarrow> None)"

definition add_count :: "u64 \<Rightarrow> ('d, 'h) metric_union \<Rightarrow> ('d, 'h) metric_union ub" where
  "add_count c u = (case u of Integer i \<Rightarrow> Some (Integer (i + c)) | _ \<Rightarrow> None)"

definition add_num :: "('j, 'd, 'h) env \<Rightarrow> 'd \<Rightarrow> ('d, 'h) metric_union \<Rightarrow> ('d, 'h) metric_union ub" where
  "add_num E d u = (case u of Number x \<Rightarrow> Some (Number (d_add E x d)) | _ \<Rightarrow> None)"

lemmas update_op_defs = hit_histogram_def hit_counter_def hit_numeric_def add_hist_def add_count_def
  add_num_def make_numeric_value_def make_integer_value_def make_histogram_latency_value_def new_value_def

interpretation histogram: update_contract
  "\<lambda>(team, name, agg, us, ts). update_histogram E team name agg us ts"
  "\<lambda>(team, name, agg, us, ts). team" "\<lambda>(team, name, agg, us, ts). agg_key name agg ts"
  "\<lambda>(team, name, agg, us, ts). add_hist E us"
  "\<lambda>(team, name, agg, us, ts). Histogram (h_insert E (h_empty E) us)"
  for E :: "('j, 'd, 'h) env"
  by (rule metric_update_upsert
        [where hit = "\<lambda>(team, name, agg, us, ts). hit_histogram E us"
           and mk = "\<lambda>(team, name, agg, us, ts). make_histogram_latency_value E us"])
     (auto simp: update_histogram_def update_op_defs split: metric_union.splits)

interpretation counter: update_contract
  "\<lambda>(team, name, agg, count, ts). update_counter E team name agg count ts"
  "\<lambda>(team, name, agg, count, ts). team" "\<lambda>(team, name, agg, count, ts). flush_key name agg ts"
  "\<lambda>(team, name, agg, count, ts). add_count count"
  "\<lambda>(team, name, agg, count, ts). Integer count"
  for E :: "('j, 'd, 'h) env"
  by (rule metric_update_upsert
        [where hit = "\<lambda>(team, name, agg, count, ts). hit_counter count"
           and mk = "\<lambda>(team, name, agg, count, ts). make_integer_value E count"])
     (auto simp: update_counter_def update_op_defs split: metric_union.splits)

interpretation numeric: update_contract
  "\<lambda>(team, name, agg, d, ts). update_numeric E team name agg d ts"
  "\<lambda>(team, name, agg, d, ts). team" "\<lambda>(team, name, agg, d, ts). flush_key name agg ts"
  "\<lambda>(team, name, agg, d, ts). add_num E d" "\<lambda>(team, name, agg, d, ts). Number d"
  for E :: "('j, 'd, 'h) env"
  by (rule metric_update_upsert
        [where hit = "\<lambda>(team, name, agg, d, ts). hit_numeric E d 0"
           and mk = "\<lambda>(team, name, agg, d, ts). make_numeric_value E d"])
     (auto simp: update_numeric_def update_op_defs split: metric_union.splits)

interpretation average: update_contract
  "\<lambda>(team, name, agg, d, ts). update_average E team name agg d ts"
  "\<lambda>(team, name, agg, d, ts). team" "\<lambda>(team, name, agg, d, ts). flush_key name agg ts"
  "\<lambda>(team, name, agg, d, ts). add_num E d" "\<lambda>(team, name, agg, d, ts). Number d"
  for E :: "('j, 'd, 'h) env"
  by (rule metric_update_upsert
        [where hit = "\<lambda>(team, name, agg, d, ts). hit_numeric E d 1"
           and mk = "\<lambda>(team, name, agg, d, ts). make_numeric_value E d"])
     (auto simp: update_average_def update_op_defs split: metric_union.splits)

section \<open>Sequences of updates\<close>

lemma update_counter_step:
  assumes "teams w team = Some td" "hash td (flush_key name agg ts) = Some v" "metric v = Integer i"
  shows "\<exists>td' v'. update_counter E team name agg c ts w =
           Some (put_team team td' (w\<lparr>ticks := ticks w + 1\<rparr>)) \<and>
           hash td' = (hash td)(flush_key name agg ts \<mapsto> v') \<and> metric v' = Integer (i + c)"
proof -
  let ?v = "v\<lparr>last_seen := clock w (ticks w), metric := Integer (i + c)\<rparr>"
  show ?thesis
    by (rule exI [of _ "td\<lparr>hash := (hash td)(flush_key name agg ts \<mapsto> ?v)\<rparr>"], rule exI [of _ ?v])
       (simp add: assms update_counter_def on_metrics_def mtev_now_ms_def the_team_def upsert_eq hit_counter_def)
qed

lemma counters_from:
  assumes "teams w team = Some td" "hash td (flush_key name agg ts) = Some v" "metric v = Integer i"
  shows "\<exists>w' td' v'. foldM (\<lambda>w c. update_counter E team name agg c ts w) w counts = Some w' \<and>
           teams w' team = Some td' \<and> hash td' (flush_key name agg ts) = Some v' \<and>
           metric v' = Integer (i + sum_list counts) \<and>
           (\<forall>k. k \<noteq> flush_key name agg ts \<longrightarrow> hash td' k = hash td k) \<and>
           (\<forall>t. t \<noteq> team \<longrightarrow> teams w' t = teams w t)"
  using assms
proof (induction counts arbitrary: w td v i)
  case (Cons c counts)
  obtain td1 v1 where 1: "update_counter E team name agg c ts w = Some (put_team team td1 (w\<lparr>ticks := ticks w + 1\<rparr>))"
      "hash td1 = (hash td)(flush_key name agg ts \<mapsto> v1)" "metric v1 = Integer (i + c)"
    using update_counter_step [OF Cons.prems, where c = c and E = E] by auto
  have "teams (put_team team td1 (w\<lparr>ticks := ticks w + 1\<rparr>)) team = Some td1" by (simp add: put_team_def)
  from Cons.IH [OF this, of v1 "i + c"] 1 show ?case
    by (fastforce simp: put_team_def add.assoc)
qed auto

section \<open>Properties\<close>

text \<open>C25: Counting is exact: a sequence of \<open>update_counter\<close> calls for one metric that is not in the
  team's table succeeds and leaves the sum (modulo \<open>2 ^ 64\<close>) of the counts there; no other metric
  and no other team changes.\<close>

theorem counter_accumulates:
  assumes "teams w team = Some td" "hash td (flush_key name agg ts) = None" "counts \<noteq> []"
  shows "\<exists>w' td' v. foldM (\<lambda>w c. update_counter E team name agg c ts w) w counts = Some w' \<and>
           teams w' team = Some td' \<and> hash td' (flush_key name agg ts) = Some v \<and>
           metric v = Integer (sum_list counts) \<and>
           (\<forall>k. k \<noteq> flush_key name agg ts \<longrightarrow> hash td' k = hash td k) \<and>
           (\<forall>t. t \<noteq> team \<longrightarrow> teams w' t = teams w t)"
proof -
  obtain c cs where counts: "counts = c # cs" using assms(3) by (cases counts) auto
  let ?v = "make_integer_value E c (clock w (ticks w))"
  let ?td = "td\<lparr>hash := (hash td)(flush_key name agg ts \<mapsto> ?v)\<rparr>"
  let ?w = "put_team team ?td (w\<lparr>ticks := ticks w + 1\<rparr>)"
  have 1: "update_counter E team name agg c ts w = Some ?w"
    using assms(1,2) by (simp add: update_counter_def on_metrics_def mtev_now_ms_def the_team_def upsert_eq)
  have "teams ?w team = Some ?td" by (simp add: put_team_def)
  from counters_from [OF this, of name agg ts ?v c E cs] 1 show ?thesis
    unfolding counts
    by (fastforce simp: put_team_def make_integer_value_def new_value_def)
qed

theorem counter_accumulates_witness:
  "\<exists>w' td' v. foldM (\<lambda>w c. update_counter demo_env ''t'' ''n'' True c 60 w) demo_world [1, 2] = Some w' \<and>
      teams w' ''t'' = Some td' \<and> hash td' (flush_key ''n'' True 60) = Some v \<and> metric v = Integer 3"
  using counter_accumulates [of demo_world "''t''" new_team "''n''" True 60 "[1, 2]" demo_env]
  by (auto simp: new_team_def)

end
