(* ===== verification/TM_Concurrent.thy ===== *)
theory TM_Concurrent
  imports TM_Metric
begin

text \<open>
  \<open>update_counter\<close> run by several threads at once. Each access to the table and each atomic
  operation is one step; a thread that misses takes the team's mutex and looks again before it
  stores. A job is the key and the count of one call; \<open>vals\<close> is the \<open>integer\<close> member of the
  vals in the table.
\<close>

section \<open>Steps\<close>

datatype pc = Lookup | Found bool | Wait_lock | Recheck | Store_new | Unlock | Finished

record cstate =
  vals :: "metric_key \<rightharpoonup> u64"
  mutex :: "nat option"
  pcs :: "pc list"

type_synonym counter_job = "metric_key \<times> u64"

text \<open>
  The step thread \<open>t\<close> takes; \<open>None\<close> when it is finished or has to wait for the mutex. \<open>Found\<close>
  records whether the mutex is held. \<open>mtev_hash_store\<close> keeps an entry that is already there.
\<close>

definition thread_step :: "counter_job list \<Rightarrow> nat \<Rightarrow> cstate \<Rightarrow> cstate option" where
  "thread_step jobs t s =
     (let (key, count) = jobs ! t;
          goto = (\<lambda>p s. s\<lparr>pcs := (pcs s)[t := p]\<rparr>)
      in case pcs s ! t of
        Lookup \<Rightarrow> Some (goto (if vals s key \<noteq> None then Found False else Wait_lock) s)
      | Found locked \<Rightarrow>
          (case vals s key of
             None \<Rightarrow> None
           | Some i \<Rightarrow> Some (goto (if locked then Unlock else Finished)
                             (s\<lparr>vals := (vals s)(key \<mapsto> i + count)\<rparr>)))
      | Wait_lock \<Rightarrow> (if mutex s = None then Some (goto Recheck (s\<lparr>mutex := Some t\<rparr>)) else None)
      | Recheck \<Rightarrow> Some (goto (if vals s key \<noteq> None then Found True else Store_new) s)
      | Store_new \<Rightarrow>
          Some (goto Unlock
            (if vals s key = None then s\<lparr>vals := (vals s)(key \<mapsto> count)\<rparr> else s))
      | Unlock \<Rightarrow> Some (goto Finished (s\<lparr>mutex := None\<rparr>))
      | Finished \<Rightarrow> None)"

inductive cstep :: "counter_job list \<Rightarrow> cstate \<Rightarrow> cstate \<Rightarrow> bool" for jobs where
  step: "t < length jobs \<Longrightarrow> thread_step jobs t s = Some s' \<Longrightarrow> cstep jobs s s'"

inductive_cases cstepE: "cstep jobs s s'"

definition cinit :: "counter_job list \<Rightarrow> cstate" where
  "cinit jobs = \<lparr>vals = Map.empty, mutex = None, pcs = replicate (length jobs) Lookup\<rparr>"

inductive creach :: "counter_job list \<Rightarrow> cstate \<Rightarrow> bool" for jobs where
  init: "creach jobs (cinit jobs)"
| more: "creach jobs s \<Longrightarrow> cstep jobs s s' \<Longrightarrow> creach jobs s'"

section \<open>The invariant\<close>

fun holds :: "pc \<Rightarrow> bool" where
  "holds Lookup = False" | "holds (Found b) = b" | "holds Wait_lock = False" | "holds Recheck = True"
| "holds Store_new = True" | "holds Unlock = True" | "holds Finished = False"

fun added :: "pc \<Rightarrow> bool" where
  "added Unlock = True" | "added Finished = True" | "added _ = False"

text \<open>The counts of the threads that have added theirs to a key.\<close>

definition total :: "counter_job list \<Rightarrow> pc list \<Rightarrow> metric_key \<Rightarrow> u64" where
  "total jobs ps k = (\<Sum>t<length jobs. if fst (jobs ! t) = k \<and> added (ps ! t) then snd (jobs ! t) else 0)"

definition cinv :: "counter_job list \<Rightarrow> cstate \<Rightarrow> bool" where
  "cinv jobs s =
     (length (pcs s) = length jobs \<and>
      (\<forall>t < length jobs. holds (pcs s ! t) \<longleftrightarrow> mutex s = Some t) \<and>
      (\<forall>t < length jobs. pcs s ! t = Store_new \<longrightarrow> vals s (fst (jobs ! t)) = None) \<and>
      (\<forall>t < length jobs. (\<exists>b. pcs s ! t = Found b) \<or> added (pcs s ! t) \<longrightarrow> vals s (fst (jobs ! t)) \<noteq> None) \<and>
      (\<forall>k i. vals s k = Some i \<longrightarrow> i = total jobs (pcs s) k) \<and>
      (\<forall>t. mutex s = Some t \<longrightarrow> t < length jobs))"

lemma total_same:
  assumes "length ps = length jobs" "t < length jobs" "added p = added (ps ! t)"
  shows "total jobs (ps[t := p]) k = total jobs ps k"
  unfolding total_def using assms by (intro sum.cong) (auto simp: nth_list_update)

lemma total_add:
  assumes "length ps = length jobs" "t < length jobs" "added p" "\<not> added (ps ! t)"
  shows "total jobs (ps[t := p]) k =
           total jobs ps k + (if fst (jobs ! t) = k then snd (jobs ! t) else 0)"
proof -
  let ?f = "\<lambda>ps u. if fst (jobs ! u) = k \<and> added (ps ! u) then snd (jobs ! u) else 0"
  have "(\<Sum>u<length jobs. ?f (ps[t := p]) u) = ?f (ps[t := p]) t + (\<Sum>u\<in>{..<length jobs} - {t}. ?f (ps[t := p]) u)"
    using assms(2) by (simp add: sum.remove)
  also have "(\<Sum>u\<in>{..<length jobs} - {t}. ?f (ps[t := p]) u) = (\<Sum>u\<in>{..<length jobs} - {t}. ?f ps u)"
    by (intro sum.cong) auto
  also have "\<dots> = (\<Sum>u<length jobs. ?f ps u)"
    using assms(2,4) by (simp add: sum.remove [of "{..<length jobs}" t])
  finally show ?thesis using assms by (simp add: total_def)
qed

lemma total_none:
  assumes "cinv jobs s" "vals s k = None"
  shows "total jobs (pcs s) k = 0"
proof -
  have "(if fst (jobs ! t) = k \<and> added (pcs s ! t) then snd (jobs ! t) else 0) = 0" if "t < length jobs" for t
    using assms that by (auto simp: cinv_def)
  then show ?thesis by (simp add: total_def)
qed

lemma cinv_init: "cinv jobs (cinit jobs)"
  by (simp add: cinv_def cinit_def)

text \<open>One lemma per kind of step.\<close>

lemmas cinv_intro = cinv_def [THEN iffD2]

lemma cinv_goto:
  assumes inv: "cinv jobs s" and t: "t < length jobs"
    and p: "holds p = holds (pcs s ! t)" "added p = added (pcs s ! t)"
    and st: "p = Store_new \<longrightarrow> vals s (fst (jobs ! t)) = None"
    and fo: "(\<exists>b. p = Found b) \<longrightarrow> vals s (fst (jobs ! t)) \<noteq> None"
  shows "cinv jobs (s\<lparr>pcs := (pcs s)[t := p]\<rparr>)"
  using assms total_same [of "pcs s" jobs t p] unfolding cinv_def
  by (simp add: nth_list_update)

lemma cinv_add:
  assumes inv: "cinv jobs s" and t: "t < length jobs" and key: "fst (jobs ! t) = key" "snd (jobs ! t) = c"
    and p: "added p" "\<not> added (pcs s ! t)" "holds p = holds (pcs s ! t)" "p \<noteq> Store_new"
    and v: "v = (case vals s key of Some i \<Rightarrow> i | None \<Rightarrow> 0) + c"
    and free: "vals s key = None \<Longrightarrow> mutex s = Some t"
  shows "cinv jobs (s\<lparr>vals := (vals s)(key \<mapsto> v), pcs := (pcs s)[t := p]\<rparr>)"
proof -
  have len: "length (pcs s) = length jobs" using inv by (simp add: cinv_def)
  have tot: "total jobs ((pcs s)[t := p]) k = total jobs (pcs s) k + (if k = key then c else 0)" for k
    using total_add [OF len t p(1,2), of k] key by auto
  have old: "total jobs (pcs s) key = (case vals s key of Some i \<Rightarrow> i | None \<Rightarrow> 0)"
    using inv total_none [OF inv, of key] by (auto simp: cinv_def split: option.split)
  have no: "pcs s ! u \<noteq> Store_new" if "u < length jobs" "u \<noteq> t" "fst (jobs ! u) = key" for u
  proof
    assume "pcs s ! u = Store_new"
    with inv that have "vals s key = None" "mutex s = Some u" by (auto simp: cinv_def)
    with free that show False by simp
  qed
  show ?thesis
    using inv t len p no key by (auto simp: cinv_def nth_list_update tot old v)
qed

lemma cinv_step:
  assumes inv: "cinv jobs s" and step: "cstep jobs s s'"
  shows "cinv jobs s'"
proof -
  from step obtain t where t: "t < length jobs" and st: "thread_step jobs t s = Some s'"
    by (rule cstepE)
  obtain key c where j: "jobs ! t = (key, c)" by (cases "jobs ! t")
  have len: "length (pcs s) = length jobs" using inv by (simp add: cinv_def)
  show ?thesis
  proof (cases "pcs s ! t")
    case Wait_lock
    with st j have s': "s' = s\<lparr>mutex := Some t, pcs := (pcs s)[t := Recheck]\<rparr>" "mutex s = None"
      by (auto simp: thread_step_def split: if_splits)
    then show ?thesis using inv t len Wait_lock total_same [OF len t, of Recheck]
      by (auto simp: cinv_def nth_list_update)
  next
    case Unlock
    with st j have s': "s' = s\<lparr>mutex := None, pcs := (pcs s)[t := Finished]\<rparr>"
      by (auto simp: thread_step_def)
    have "mutex s = Some t" using inv t Unlock by (auto simp: cinv_def)
    then show ?thesis using inv t len Unlock total_same [OF len t, of Finished]
      by (auto simp: s' cinv_def nth_list_update)
  next
    case Store_new
    then have none: "vals s key = None" and m: "mutex s = Some t"
      using inv t j by (auto simp: cinv_def)
    with st j Store_new have "s' = s\<lparr>vals := (vals s)(key \<mapsto> c), pcs := (pcs s)[t := Unlock]\<rparr>"
      by (auto simp: thread_step_def)
    then show ?thesis using cinv_add [OF inv t, of key c Unlock c] j none m Store_new by simp
  next
    case (Found b)
    then obtain i where i: "vals s key = Some i" using inv t j by (auto simp: cinv_def)
    with st j Found have "s' = s\<lparr>vals := (vals s)(key \<mapsto> i + c),
        pcs := (pcs s)[t := (if b then Unlock else Finished)]\<rparr>"
      by (auto simp: thread_step_def)
    then show ?thesis
      using cinv_add [OF inv t, of key c "if b then Unlock else Finished" "i + c"] j i Found by auto
  qed (use st j cinv_goto [OF inv t] in \<open>auto simp: thread_step_def split: if_splits\<close>)
qed

lemma cinv_reach: "creach jobs s \<Longrightarrow> cinv jobs s"
  by (induction rule: creach.induct) (auto intro: cinv_init cinv_step)

section \<open>Progress\<close>

fun rank :: "pc \<Rightarrow> nat" where
  "rank Lookup = 6" | "rank Wait_lock = 5" | "rank Recheck = 4" | "rank Store_new = 3"
| "rank (Found b) = 2" | "rank Unlock = 1" | "rank Finished = 0"

definition work_left :: "cstate \<Rightarrow> nat" where
  "work_left s = sum_list (map rank (pcs s))"

lemma work_left_update:
  "t < length ps \<Longrightarrow> rank p < rank (ps ! t) \<Longrightarrow> sum_list (map rank (ps[t := p])) < sum_list (map rank ps)"
  by (induction ps arbitrary: t) (auto simp: nth_Cons split: nat.splits)

lemma cstep_decreases:
  assumes "cinv jobs s" "cstep jobs s s'"
  shows "work_left s' < work_left s"
proof -
  from assms(2) obtain t where t: "t < length jobs" and st: "thread_step jobs t s = Some s'"
    by (rule cstepE)
  then obtain p where "pcs s' = (pcs s)[t := p]" "rank p < rank (pcs s ! t)"
    by (cases "pcs s ! t") (auto simp: thread_step_def Let_def split: prod.splits option.splits if_splits)
  then show ?thesis using t assms(1) by (simp add: work_left_def cinv_def work_left_update)
qed

text \<open>Unless all threads are finished, some thread can move.\<close>

lemma no_deadlock:
  assumes inv: "cinv jobs s" and t: "t < length jobs" "pcs s ! t \<noteq> Finished"
  shows "\<exists>s'. cstep jobs s s'"
proof -
  have "\<exists>u < length jobs. thread_step jobs u s \<noteq> None"
  proof (cases "mutex s")
    case None
    then have "thread_step jobs t s \<noteq> None"
      using inv t by (cases "pcs s ! t") (auto simp: thread_step_def cinv_def split: prod.splits option.splits)
    then show ?thesis using t by blast
  next
    case (Some u)
    then have u: "u < length jobs" "holds (pcs s ! u)" using inv by (auto simp: cinv_def)
    then have "thread_step jobs u s \<noteq> None"
      using inv by (cases "pcs s ! u") (auto simp: thread_step_def cinv_def split: prod.splits option.splits)
    then show ?thesis using u by blast
  qed
  then show ?thesis by (auto intro: cstep.intros)
qed

section \<open>The sequential operation as a run\<close>

definition int_values :: "('d, 'h) metrics \<Rightarrow> metric_key \<rightharpoonup> u64" where
  "int_values m k = (case m k of Some v \<Rightarrow> (case metric v of Integer i \<Rightarrow> Some i | _ \<Rightarrow> Some 0) | None \<Rightarrow> None)"

lemma run_one:
  "thread_step [j] 0 s = Some s' \<Longrightarrow> (cstep [j])\<^sup>*\<^sup>* s' s'' \<Longrightarrow> (cstep [j])\<^sup>*\<^sup>* s s''"
  by (rule converse_rtranclp_into_rtranclp, rule cstep.step [where t = 0]) auto

lemma int_values_upd: "int_values (m(k \<mapsto> v)) = (int_values m)(k := int_values [k \<mapsto> v] k)"
  by (auto simp: int_values_def fun_eq_iff)

section \<open>Properties\<close>

text \<open>C3: No count is lost when any number of threads run \<open>update_counter\<close> at the same time: in every
  reachable state in which all of them have finished, each counter holds the sum of the counts of
  all calls for it, in whatever order the lookups, the mutex and the atomic additions interleaved.\<close>

theorem concurrent_counters_exact:
  assumes "creach jobs s" "\<forall>t < length jobs. pcs s ! t = Finished" "u < length jobs"
  shows "vals s (fst (jobs ! u)) =
           Some (\<Sum>t<length jobs. if fst (jobs ! t) = fst (jobs ! u) then snd (jobs ! t) else 0)"
proof -
  note inv = cinv_reach [OF assms(1)]
  have "vals s (fst (jobs ! u)) \<noteq> None" using inv assms(2,3) by (simp add: cinv_def)
  then obtain i where i: "vals s (fst (jobs ! u)) = Some i" by auto
  then have "i = total jobs (pcs s) (fst (jobs ! u))" using inv by (simp add: cinv_def)
  also have "\<dots> = (\<Sum>t<length jobs. if fst (jobs ! t) = fst (jobs ! u) then snd (jobs ! t) else 0)"
    unfolding total_def using assms(2) by (intro sum.cong) auto
  finally show ?thesis using i by simp
qed

text \<open>A schedule names the thread that moves next.\<close>

definition run_schedule :: "counter_job list \<Rightarrow> cstate \<Rightarrow> nat list \<Rightarrow> cstate option" where
  "run_schedule jobs = foldM (\<lambda>s t. thread_step jobs t s)"

lemma creach_schedule:
  assumes "creach jobs s" "run_schedule jobs s ts = Some s'" "\<forall>t \<in> set ts. t < length jobs"
  shows "creach jobs s'"
proof (rule foldM_invariant [where I = "creach jobs", OF assms(2) [unfolded run_schedule_def] assms(1)])
  fix s t s' assume "t \<in> set ts" "creach jobs s" "thread_step jobs t s = Some s'"
  then show "creach jobs s'" using assms(3) by (auto intro: creach.more cstep.intros)
qed

theorem concurrent_counters_exact_witness:
  "\<exists>s. creach [(make_metric_key ''n'' 0, 1), (make_metric_key ''n'' 0, 2)] s \<and>
       vals s (make_metric_key ''n'' 0) = Some 3"
proof -
  let ?jobs = "[(make_metric_key ''n'' 0, 1), (make_metric_key ''n'' 0, 2)]"
  let ?ts = "[0, 1, 0, 0, 0, 0, 1, 1, 1, 1] :: nat list"
  have run: "map_option pcs (run_schedule ?jobs (cinit ?jobs) ?ts) = Some [Finished, Finished]"
    by code_simp
  then obtain s where s: "run_schedule ?jobs (cinit ?jobs) ?ts = Some s" "pcs s = [Finished, Finished]"
    by auto
  then have r: "creach ?jobs s" by (intro creach_schedule [OF creach.init]) auto
  have "vals s (fst (?jobs ! 0)) = Some 3"
    using concurrent_counters_exact [OF r, of 0] s(2) by (simp add: less_Suc_eq numeral_2_eq_2 lessThan_Suc)
  then show ?thesis using r by auto
qed

text \<open>C22: Concurrent counter updates always come to an end: while some thread is not finished another
  step is possible (no deadlock on the team's mutex), and every step brings the end closer.\<close>

theorem concurrent_counters_finish:
  assumes "creach jobs s"
  shows "((\<forall>t < length jobs. pcs s ! t = Finished) \<or> (\<exists>s'. cstep jobs s s')) \<and>
         (\<forall>s'. cstep jobs s s' \<longrightarrow> work_left s' < work_left s)"
  using no_deadlock [OF cinv_reach [OF assms]] cstep_decreases [OF cinv_reach [OF assms]] by blast

theorem concurrent_counters_finish_witness:
  "\<exists>s'. cstep [(make_metric_key ''n'' 0, 1)] (cinit [(make_metric_key ''n'' 0, 1)]) s'"
  using concurrent_counters_finish [OF creach.init, of "[(make_metric_key ''n'' 0, 1)]"]
  by (auto simp: cinit_def dest: spec [of _ 0])

text \<open>C32: The sequential \<open>update_counter\<close> is one run of these steps: whenever it succeeds, a single
  thread goes from its lookup to its end and leaves the same counters.\<close>

theorem update_counter_is_thread_run:
  assumes "update_counter E team name agg c ts w = Some w'"
  shows "\<exists>s'. (cstep [(flush_key name agg ts, c)])\<^sup>*\<^sup>*
            \<lparr>vals = int_values (team_metrics w team), mutex = None, pcs = [Lookup]\<rparr> s' \<and>
          vals s' = int_values (team_metrics w' team) \<and> mutex s' = None \<and> pcs s' = [Finished]"
proof -
  let ?k = "flush_key name agg ts"
  let ?j = "(?k, c)"
  let ?s = "\<lparr>vals = int_values (team_metrics w team), mutex = None, pcs = [Lookup]\<rparr>"
  let ?e = "\<lparr>vals = int_values (team_metrics w' team), mutex = None, pcs = [Finished]\<rparr>"
  obtain td m where td: "teams w team = Some td"
    and m: "upsert ?k (hit_counter c) (make_integer_value E c) (clock w (ticks w)) (hash td) = Some m"
    and w': "team_metrics w' team = m"
    using assms by (auto simp: update_counter_def on_metrics_Some)
  have "(cstep [?j])\<^sup>*\<^sup>* ?s ?e"
  proof (cases "hash td ?k")
    case (Some v)
    from m Some obtain v' where v': "hit_counter c (clock w (ticks w)) v = Some v'" "m = (hash td)(?k \<mapsto> v')"
      by (auto simp: upsert_eq)
    from v'(1) obtain i where "metric v = Integer i" "metric v' = Integer (i + c)"
      by (cases "metric v") (auto simp: hit_counter_def)
    note m' = this v'(2)
    have "int_values m = (int_values (hash td))(?k \<mapsto> i + c)" "int_values (hash td) ?k = Some i"
      using Some m' by (auto simp: int_values_def fun_eq_iff)
    then show ?thesis
      by - (rule run_one [where s' = "?s\<lparr>pcs := [Found False]\<rparr>"], simp add: thread_step_def td,
            rule run_one [where s' = ?e], simp_all add: thread_step_def td w')
  next
    case None
    with m have m': "m = (hash td)(?k \<mapsto> make_integer_value E c (clock w (ticks w)))"
      by (simp add: upsert_eq)
    then have "int_values m = (int_values (hash td))(?k \<mapsto> c)" "int_values (hash td) ?k = None"
      using None by (auto simp: int_values_def make_integer_value_def new_value_def fun_eq_iff)
    then show ?thesis
      by - (rule run_one [where s' = "?s\<lparr>pcs := [Wait_lock]\<rparr>"], simp add: thread_step_def td,
            rule run_one [where s' = "?s\<lparr>mutex := Some 0, pcs := [Recheck]\<rparr>"], simp add: thread_step_def td,
            rule run_one [where s' = "?s\<lparr>mutex := Some 0, pcs := [Store_new]\<rparr>"], simp add: thread_step_def td,
            rule run_one [where s' = "?e\<lparr>mutex := Some 0, pcs := [Unlock]\<rparr>"], simp add: thread_step_def td w',
            rule run_one [where s' = ?e], simp_all add: thread_step_def td w')
  qed
  then show ?thesis by (intro exI [of _ ?e]) simp
qed

theorem update_counter_is_thread_run_witness:
  "\<exists>w' s'. update_counter demo_env ''t'' ''n'' True 5 60 demo_world = Some w' \<and>
     (cstep [(flush_key ''n'' True 60, 5)])\<^sup>*\<^sup>*
       \<lparr>vals = int_values (team_metrics demo_world ''t''), mutex = None, pcs = [Lookup]\<rparr> s' \<and>
     vals s' = int_values (team_metrics w' ''t'')"
proof -
  obtain w' where "update_counter demo_env ''t'' ''n'' True 5 60 demo_world = Some w'"
    by (auto simp: update_counter_def on_metrics_def mtev_now_ms_def the_team_def upsert_eq new_team_def)
  then show ?thesis using update_counter_is_thread_run by blast
qed

end
