(* ===== verification/TM_Jwt.thy ===== *)
theory TM_Jwt
  imports TM_World
begin

text \<open>
  Signed tokens for Google's OAuth service (tm_utils.c): the header and the claims as URL-safe
  base64, the signature over both, and the exchange of the token for an access token. The RSA
  signature is a parameter \<open>sign\<close> (its key included), \<open>None\<close> when one of its steps fails; the
  exchange is a parameter \<open>http\<close> that maps the posted fields to an answer.
\<close>

section \<open>The token\<close>

text \<open>\<open>%.*s\<close> of a buffer stops at a NUL or after the given number of characters.\<close>

definition print_n :: "string \<times> nat \<Rightarrow> string" where
  "print_n = (\<lambda>(buffer, n). cstr (take n buffer))"

definition b64_url :: "('j, 'd, 'h) env \<Rightarrow> string \<Rightarrow> string \<times> nat" where
  "b64_url E temp = (let enc = b64_encode E temp in to_b64_url enc (length enc))"

definition create_jwt_header :: "('j, 'd, 'h) env \<Rightarrow> string \<Rightarrow> string \<times> nat" where
  "create_jwt_header E private_key_id =
     b64_url E (''{\"alg\":\"RS256\",\"typ\":\"JWT\",\"kid\":\"'' @ private_key_id @ ''\"}'')"

text \<open>\<open>%d\<close> of a time cut to \<open>int\<close>.\<close>

definition print_d :: "int \<Rightarrow> string" where
  "print_d t = (let n = sint (word_of_int t :: 32 word) in if n < 0 then ''-'' @ dec (nat (- n)) else dec (nat n))"

definition create_jwt_claim_set ::
  "('j, 'd, 'h) env \<Rightarrow> int \<Rightarrow> string \<Rightarrow> string \<Rightarrow> string \<Rightarrow> string \<times> nat" where
  "create_jwt_claim_set E now service_account scope aud =
     b64_url E (''{\"iss\":\"'' @ service_account @ ''\",\"scope\":\"'' @ scope @ ''\",\"aud\":\"'' @ aud @
       ''\",\"iat\": '' @ print_d now @ '',\"exp\": '' @ print_d (now + 3600) @ ''}'')"

definition create_signed_jwt ::
  "('j, 'd, 'h) env \<Rightarrow> (string \<Rightarrow> string option) \<Rightarrow> int \<Rightarrow> string \<Rightarrow> string \<Rightarrow> string \<Rightarrow> string \<Rightarrow> string option" where
  "create_signed_jwt E sign now private_key_id service_account scope aud = do {
     let jws = print_n (create_jwt_header E private_key_id) @ ''.'' @
               print_n (create_jwt_claim_set E now service_account scope aud);
     signature \<leftarrow> sign jws;
     Some (jws @ ''.'' @ print_n (b64_url E signature)) }"

section \<open>The exchange\<close>

text \<open>
  \<open>%s\<close> of a missing token and \<open>strdup\<close> of a missing member are undefined. The result is the access
  token and when it expires, or NULL when the request failed.
\<close>

definition get_oauth2_token ::
  "('j, 'd, 'h) env \<Rightarrow> (string \<Rightarrow> string option) \<Rightarrow> (string \<Rightarrow> string option) \<Rightarrow> int \<Rightarrow> u64 \<Rightarrow>
     string \<Rightarrow> string \<Rightarrow> string \<Rightarrow> string \<Rightarrow> (string \<times> u64) option ub" where
  "get_oauth2_token E sign http now now_ms private_key_id service_account scope aud = do {
     jwt \<leftarrow> create_signed_jwt E sign now private_key_id service_account scope aud;
     (case http (''grant_type=urn:ietf:params:oauth:grant-type:jwt-bearer&assertion='' @ jwt) of
        None \<Rightarrow> Some None
      | Some body \<Rightarrow> do {
          let json = jo_parse E body;
          access_token \<leftarrow> jo_string E (jo_get E json ''access_token'');
          let secs = jo_int E (jo_get E json ''expires_in'');
          Some (Some (access_token, now_ms + word_of_int secs * 1000)) }) }"

section \<open>Facts\<close>

text \<open>What base64 documents of its output: its alphabet, and at most two padding characters.\<close>

definition b64_text :: "string \<Rightarrow> bool" where
  "b64_text s = (\<exists>d p. s = d @ replicate p (CHR ''='') \<and> set d \<inter> {CHR ''='', CHR ''.'', NUL} = {} \<and> p \<le> 2)"

definition url_safe :: "string \<Rightarrow> string" where
  "url_safe s = map url_char (takeWhile (\<lambda>c. c \<noteq> CHR ''='') s)"

lemma takeWhile_padded: "CHR ''='' \<notin> set d \<Longrightarrow> takeWhile (\<lambda>c. c \<noteq> CHR ''='') (d @ replicate p (CHR ''='')) = d"
  by (induction d) (cases p, auto)

lemma b64_url_print:
  assumes "b64_text (b64_encode E x)"
  shows "print_n (b64_url E x) = url_safe (b64_encode E x)"
proof -
  obtain d p where d: "b64_encode E x = d @ replicate p (CHR ''='')" "CHR ''='' \<notin> set d" "NUL \<notin> set d" "p \<le> 2"
    using assms by (auto simp: b64_text_def)
  have n: "NUL \<notin> set (map url_char d)" using d(3) by (auto simp: url_char_def split: if_splits)
  have "p = 0 \<or> p = 1 \<or> p = 2" using d(4) by linarith
  then show ?thesis
    using to_b64_url_padded [OF d(2,4)] n takeWhile_padded [OF d(2)]
    by (auto simp: print_n_def b64_url_def url_safe_def d(1) Let_def cstr_no_NUL cstr_append cstr_def [of "[NUL]"])
qed

lemma url_safe_chars:
  assumes "b64_text s"
  shows "set (url_safe s) \<inter> set ''+/=.'' = {}"
  using assms takeWhile_padded by (fastforce simp: b64_text_def url_safe_def url_char_def split: if_splits)

section \<open>Properties\<close>

text \<open>A signed token consists of three parts, separated by its only two dots: the header and the
  claims in URL-safe base64 without padding, and the signature over exactly these two; no
  character of it needs escaping in a URL.\<close>

lemma signed_jwt_parts:
  assumes "\<forall>x. b64_text (b64_encode E x)"
    and "create_signed_jwt E sign now kid sa scope aud = Some jwt"
  shows "\<exists>header claims signature.
    jwt = url_safe (b64_encode E header) @ ''.'' @ url_safe (b64_encode E claims) @ ''.'' @ url_safe (b64_encode E signature) \<and>
    sign (url_safe (b64_encode E header) @ ''.'' @ url_safe (b64_encode E claims)) = Some signature \<and>
    header = ''{\"alg\":\"RS256\",\"typ\":\"JWT\",\"kid\":\"'' @ kid @ ''\"}'' \<and>
    count_list jwt (CHR ''.'') = 2 \<and> set jwt \<inter> set ''+/='' = {}"
proof -
  note p = b64_url_print [OF spec [OF assms(1)]]
  have c: "set (url_safe (b64_encode E x)) \<inter> set ''+/=.'' = {}" for x by (rule url_safe_chars [OF spec [OF assms(1)]])
  then have "CHR ''.'' \<notin> set (url_safe (b64_encode E x))" for x by fastforce
  then have "count_list (url_safe (b64_encode E x)) (CHR ''.'') = 0" for x by (simp add: count_list_0_iff)
  with assms(2) c show ?thesis
    by (fastforce simp: create_signed_jwt_def bind_eq_Some_conv Let_def p create_jwt_header_def create_jwt_claim_set_def
        count_list_append)
qed

definition plain_env :: "(jdoc, int, u64 list) env" where
  "plain_env = demo_env\<lparr>b64_encode := (\<lambda>x. ''QQ=='')\<rparr>"

lemma signed_jwt_parts_witness:
  "\<exists>jwt. create_signed_jwt plain_env (\<lambda>x. Some ''s'') 0 ''k'' ''a'' ''s'' ''u'' = Some jwt \<and> count_list jwt (CHR ''.'') = 2"
proof -
  have "b64_text ''QQ==''" unfolding b64_text_def
    by (intro exI [of _ "''QQ''"] exI [of _ "2"]) (simp add: numeral_2_eq_2)
  then have b: "\<forall>x. b64_text (b64_encode plain_env x)" by (simp add: plain_env_def)
  obtain jwt where j: "create_signed_jwt plain_env (\<lambda>x. Some ''s'') 0 ''k'' ''a'' ''s'' ''u'' = Some jwt"
    by (simp add: create_signed_jwt_def Let_def)
  from signed_jwt_parts [OF b j] j show ?thesis by auto
qed

end
