(* ===== verification/TM_Doc.thy ===== *)
theory TM_Doc
  imports TM_Metric
begin

text \<open>
  Reading an APM document: the accessors of \<open>tm_process.h\<close>, and \<open>pre_process\<close> and
  \<open>build_agg_tag_string\<close> of tm_process.c, which every document handler runs first. A document is
  a pointer \<open>'j\<close>, a missing object a NULL pointer.
\<close>

section \<open>Accessors\<close>

text \<open>
  The major version is the number of the version text's first character. (\<open>memcpy\<close> reads seven
  bytes of the text whatever its length; only the first is used.)
\<close>

definition atoi_char :: "char \<Rightarrow> int" where
  "atoi_char c = (if is_digit c then int (digit_val c) else 0)"

definition tm_apm_server_major_version :: "('j, 'd, 'h) env \<Rightarrow> 'j option \<Rightarrow> int ub" where
  "tm_apm_server_major_version E m =
     (case m of
        None \<Rightarrow> Some 0
      | Some _ \<Rightarrow>
          (case jo_get E m ''@metadata'' of
             None \<Rightarrow> Some 6
           | Some md \<Rightarrow>
               (case jo_get E (Some md) ''version'' of
                  None \<Rightarrow> Some 6
                | Some version \<Rightarrow>
                    (case jo_string E (Some version) of
                       None \<Rightarrow> None
                     | Some v \<Rightarrow> Some (if v = [] then 6 else atoi_char (hd v))))))"

definition tm_apm_server_version :: "('j, 'd, 'h) env \<Rightarrow> 'j option \<Rightarrow> string option ub" where
  "tm_apm_server_version E m =
     (case m of
        None \<Rightarrow> Some None
      | Some _ \<Rightarrow>
          (case jo_get E m ''@metadata'' of
             None \<Rightarrow> Some None
           | Some md \<Rightarrow>
               (case jo_get E (Some md) ''version'' of
                  None \<Rightarrow> Some None
                | Some version \<Rightarrow>
                    (case jo_string E (Some version) of
                       None \<Rightarrow> None
                     | Some v \<Rightarrow> Some (if v = [] then None else Some v)))))"

definition service_field :: "('j, 'd, 'h) env \<Rightarrow> 'j option \<Rightarrow> int \<Rightarrow> string \<Rightarrow> string option" where
  "service_field E m mv field =
     (case (if mv = 6 then jo_get E m ''context'' else m) of
        None \<Rightarrow> None
      | Some root \<Rightarrow>
          (case jo_get E (Some root) ''service'' of
             None \<Rightarrow> None
           | Some service \<Rightarrow>
               (case jo_get E (Some service) field of
                  None \<Rightarrow> None
                | Some name \<Rightarrow> jo_string E (Some name))))"

definition tm_service_name :: "('j, 'd, 'h) env \<Rightarrow> 'j option \<Rightarrow> string option ub" where
  "tm_service_name E m = do {
     mv0 \<leftarrow> tm_apm_server_major_version E m;
     let mv = (if mv0 = 0 then 6 else mv0);
     Some (if mv < 6 then None else service_field E m mv ''name'') }"

definition tm_service_env :: "('j, 'd, 'h) env \<Rightarrow> 'j option \<Rightarrow> string option ub" where
  "tm_service_env E m = do {
     mv \<leftarrow> tm_apm_server_major_version E m;
     Some (if mv < 6 then None else service_field E m mv ''environment'') }"

text \<open>
  \<open>tm_get_team\<close> writes the text before the first dash to a buffer of \<open>cap\<close> bytes.
\<close>

definition tm_get_team :: "nat \<Rightarrow> string option \<Rightarrow> string option ub" where
  "tm_get_team cap sn =
     (case sn of
        None \<Rightarrow> Some None
      | Some s \<Rightarrow>
          (case strchr s (CHR ''-'') of
             None \<Rightarrow> Some None
           | Some p \<Rightarrow> if p < cap then Some (Some (take p s)) else None))"

section \<open>The tags of a document\<close>

text \<open>\<open>,host:\<close> and \<open>,ip:\<close> from the object that holds \<open>hostname\<close> and \<open>ip\<close>.\<close>

definition host_tag :: "('j, 'd, 'h) env \<Rightarrow> string \<Rightarrow> 'j option \<Rightarrow> string ub" where
  "host_tag E lbl v =
     (case v of
        None \<Rightarrow> Some []
      | Some _ \<Rightarrow> (case jo_string E v of None \<Rightarrow> None | Some s \<Rightarrow> Some (lbl @ tm_clean_tag_value s)))"

definition host_tags :: "('j, 'd, 'h) env \<Rightarrow> 'j option \<Rightarrow> string ub" where
  "host_tags E sys =
     (case sys of
        None \<Rightarrow> Some []
      | Some _ \<Rightarrow> do {
          h \<leftarrow> host_tag E '',host:'' (jo_get E sys ''hostname'');
          i \<leftarrow> host_tag E '',ip:'' (jo_get E sys ''ip'');
          Some (h @ i) })"

definition doc_host :: "('j, 'd, 'h) env \<Rightarrow> 'j \<Rightarrow> int \<Rightarrow> 'j option" where
  "doc_host E message mv =
     (if mv = 6 then
        (case jo_get E (Some message) ''context'' of
           None \<Rightarrow> None
         | Some c \<Rightarrow> jo_get E (Some c) ''system'')
      else if 6 < mv then jo_get E (Some message) ''host''
      else None)"

section \<open>\<open>pre_process\<close>\<close>

text \<open>
  What \<open>pre_process\<close> leaves: the contents of the caller's \<open>team\<close> buffer, and, when it returns
  the team's table, the tag string and the timestamp. The buffers hold 128, 3172 and 256 (\<open>sn\<close>)
  bytes. When it fails before it knows the team, \<open>team\<close> holds what the stack held.
\<close>

record pre =
  pre_team :: string
  pre_tags :: string
  pre_timestamp :: u64

datatype pre_result = Pre_fail string | Pre_ok pre

definition pre_process_team ::
  "('j, 'd, 'h) env \<Rightarrow> 'j \<Rightarrow> int \<Rightarrow> string \<Rightarrow> string \<Rightarrow> pre ub" where
  "pre_process_team E message mv team service = do {
     sn \<leftarrow> into_buf 256 (drop (length team + 1) service);
     ts_text \<leftarrow> jo_string E (jo_get E (Some message) ''@timestamp'');
     ts \<leftarrow> parse_timestamp (lib_mktime E) (junk_isdst E) ts_text;
     hosts \<leftarrow> host_tags E (doc_host E message mv);
     tags \<leftarrow> into_buf 3172 (''service:'' @ service @ hosts);
     Some \<lparr>pre_team = team, pre_tags = tags, pre_timestamp = ts\<rparr> }"

definition pre_process ::
  "('j, 'd, 'h) env \<Rightarrow> 'j \<Rightarrow> ('d, 'h) world \<Rightarrow> (pre_result \<times> ('d, 'h) world) ub" where
  "pre_process E message w =
     (case tm_apm_server_major_version E (Some message) of
        None \<Rightarrow> None
      | Some mv \<Rightarrow>
          if mv < 6 then Some (Pre_fail (junk_team E), w)
          else
            (case tm_service_name E (Some message) of
               None \<Rightarrow> None
             | Some None \<Rightarrow> Some (Pre_fail (junk_team E), w)
             | Some (Some service) \<Rightarrow>
                 (case tm_get_team 128 (Some service) of
                    None \<Rightarrow> None
                  | Some None \<Rightarrow> Some (Pre_fail (junk_team E), w)
                  | Some (Some team) \<Rightarrow>
                      (case pre_process_team E message mv team service of
                         None \<Rightarrow> None
                       | Some p \<Rightarrow> Some (Pre_ok p, get_team_data team w)))))"

text \<open>The team named by the buffer after \<open>pre_process\<close>.\<close>

definition pre_team_buf :: "pre_result \<Rightarrow> string" where
  "pre_team_buf r = (case r of Pre_fail t \<Rightarrow> t | Pre_ok p \<Rightarrow> pre_team p)"

text \<open>\<open>%s\<close> of a NULL pointer is undefined. \<open>get_team_metrics_table\<close> never returns NULL.\<close>

definition build_agg_tag_string ::
  "('j, 'd, 'h) env \<Rightarrow> 'j \<Rightarrow> string \<Rightarrow> ('d, 'h) world \<Rightarrow> (string \<times> ('d, 'h) world) ub" where
  "build_agg_tag_string E message team w = do {
     service_name \<leftarrow> tm_service_name E (Some message);
     let w = get_team_data team w;
     service \<leftarrow> service_name;
     tags \<leftarrow> into_buf 2048 (''service:'' @ service @ '',host:all,ip:all'');
     Some (tags, w) }"

section \<open>Facts\<close>

lemma tm_get_team_spec:
  "tm_get_team cap (Some s) =
     (if CHR ''-'' \<notin> set s then Some None
      else let t = takeWhile (\<lambda>c. c \<noteq> CHR ''-'') s in if length t < cap then Some (Some t) else None)"
proof (cases "strchr s (CHR ''-'')")
  case None
  moreover have "CHR ''-'' \<notin> set s" using None by (simp add: strchr_None_iff)
  ultimately show ?thesis by (simp add: tm_get_team_def)
next
  case (Some p)
  from strchr_Some_nth [OF Some] have p: "p < length s" "s ! p = CHR ''-''" "CHR ''-'' \<notin> set (take p s)"
    by auto
  have "takeWhile (\<lambda>c. c \<noteq> CHR ''-'') s =
      takeWhile (\<lambda>c. c \<noteq> CHR ''-'') (take p s @ CHR ''-'' # drop (Suc p) s)"
    using p by (metis id_take_nth_drop)
  also have "\<dots> = take p s" using p(3) by (auto simp: takeWhile_append)
  finally have "take p s = takeWhile (\<lambda>c. c \<noteq> CHR ''-'') s" "p = length (takeWhile (\<lambda>c. c \<noteq> CHR ''-'') s)"
    using p(1) by simp_all
  then show ?thesis using Some strchr_None_iff [of s "CHR ''-''"] by (auto simp: tm_get_team_def Let_def)
qed

text \<open>\<open>pre_process\<close> and \<open>build_agg_tag_string\<close> only add the team they name.\<close>

lemma pre_process_team_name: "pre_process_team E message mv team service = Some p \<Longrightarrow> pre_team p = team"
  by (auto simp: pre_process_team_def bind_eq_Some_conv)

lemma pre_process_world:
  "pre_process E message w = Some (r, w') \<Longrightarrow>
     w' = (case r of Pre_fail t \<Rightarrow> w | Pre_ok p \<Rightarrow> get_team_data (pre_team p) w)"
  by (auto simp: pre_process_def pre_process_team_name split: if_splits option.splits)

lemma build_agg_world:
  "build_agg_tag_string E message team w = Some (tags, w') \<Longrightarrow> w' = get_team_data team w"
  by (auto simp: build_agg_tag_string_def bind_eq_Some_conv Let_def)

lemma host_tag_chars:
  "host_tag E lbl v = Some h \<Longrightarrow> c \<in> set h \<Longrightarrow> c \<in> set lbl \<or> tag_char_ok c"
  by (auto simp: host_tag_def split: option.splits dest: clean_tag_chars)

lemma host_tags_chars:
  assumes "host_tags E sys = Some h"
  shows "CHR '']'' \<notin> set h \<and> CHR ''['' \<notin> set h \<and> CHR ''|'' \<notin> set h"
proof (cases sys)
  case None
  then show ?thesis using assms by (simp add: host_tags_def)
next
  case (Some j)
  with assms obtain y z where h: "host_tag E '',host:'' (jo_get E sys ''hostname'') = Some y"
      "host_tag E '',ip:'' (jo_get E sys ''ip'') = Some z" "h = y @ z"
    by (auto simp: host_tags_def bind_eq_Some_conv)
  have "c \<in> set '',host:'' \<or> c \<in> set '',ip:'' \<or> tag_char_ok c" if "c \<in> set h" for c
    using that host_tag_chars [OF h(1), of c] host_tag_chars [OF h(2), of c] by (simp only: h(3)) auto
  from this [of "CHR '']''"] this [of "CHR ''[''"] this [of "CHR ''|''"] show ?thesis
    using tag_separators_rejected by auto
qed

section \<open>Properties\<close>

text \<open>When \<open>pre_process\<close> accepts a document, the team is the part of the service's name before the
  first dash and exists from then on, no other team changes, and the tag string is the service
  followed by host and ip tags in which no character can close or reopen the tag list.\<close>

lemma pre_process_accepts:
  assumes "pre_process E message w = Some (Pre_ok p, w')"
  shows "\<exists>service rest h. tm_service_name E (Some message) = Some (Some service) \<and>
           service = pre_team p @ CHR ''-'' # rest \<and> CHR ''-'' \<notin> set (pre_team p) \<and>
           teams w' (pre_team p) \<noteq> None \<and> (\<forall>t td. teams w t = Some td \<longrightarrow> teams w' t = Some td) \<and>
           pre_tags p = ''service:'' @ service @ h \<and> length (pre_tags p) < 3172 \<and>
           set h \<inter> set '']|['' = {}"
proof -
  from assms obtain mv service team where
    sv: "tm_service_name E (Some message) = Some (Some service)" and
    tm: "tm_get_team 128 (Some service) = Some (Some team)" and
    pt: "pre_process_team E message mv team service = Some p" and w': "w' = get_team_data team w"
    by (auto simp: pre_process_def split: if_splits option.splits)
  have name: "pre_team p = team" by (rule pre_process_team_name [OF pt])
  from pt obtain h where h: "host_tags E (doc_host E message mv) = Some h"
    "pre_tags p = ''service:'' @ service @ h" "length (pre_tags p) < 3172"
    by (auto simp: pre_process_team_def bind_eq_Some_conv into_buf_def split: if_splits)
  have t: "CHR ''-'' \<in> set service" "team = takeWhile (\<lambda>c. c \<noteq> CHR ''-'') service"
    using tm by (auto simp: tm_get_team_spec Let_def split: if_splits)
  then have "dropWhile (\<lambda>c. c \<noteq> CHR ''-'') service \<noteq> []" by (simp add: dropWhile_eq_Nil_conv)
  then obtain rest where "dropWhile (\<lambda>c. c \<noteq> CHR ''-'') service = CHR ''-'' # rest"
    using hd_dropWhile [of "\<lambda>c. c \<noteq> CHR ''-''" service]
    by (cases "dropWhile (\<lambda>c. c \<noteq> CHR ''-'') service") auto
  then have "service = team @ CHR ''-'' # rest" "CHR ''-'' \<notin> set team"
    using t(2) takeWhile_dropWhile_id [of "\<lambda>c. c \<noteq> CHR ''-''" service] by (auto dest: set_takeWhileD)
  then show ?thesis
    using sv name h host_tags_chars [OF h(1)] get_team_data_present [of team w] get_team_data_keeps [of w]
    by (auto simp: w')
qed

definition demo_doc :: jdoc where
  "demo_doc = JObj [(''@metadata'', JObj [(''version'', JStr ''7.4.0'')]),
     (''service'', JObj [(''name'', JStr ''t-web'')]), (''host'', JObj [(''hostname'', JStr ''a,b]'')]),
     (''@timestamp'', JStr ''2019-03-20T17:09:03.949Z'')]"

lemma demo_doc_accepted:
  "pre_process demo_env demo_doc demo_world =
     Some (Pre_ok \<lparr>pre_team = ''t'', pre_tags = ''service:t-web,host:a_b_'', pre_timestamp = 3949\<rparr>, demo_world)"
proof -
  have "map_option fst (pre_process demo_env demo_doc demo_world) =
      Some (Pre_ok \<lparr>pre_team = ''t'', pre_tags = ''service:t-web,host:a_b_'', pre_timestamp = 3949\<rparr>)"
    by code_simp
  then obtain w' where "pre_process demo_env demo_doc demo_world =
      Some (Pre_ok \<lparr>pre_team = ''t'', pre_tags = ''service:t-web,host:a_b_'', pre_timestamp = 3949\<rparr>, w')"
    by auto
  with pre_process_world [OF this] show ?thesis by (simp add: get_team_data_def)
qed

lemma pre_process_accepts_witness:
  "\<exists>service rest. tm_service_name demo_env (Some demo_doc) = Some (Some service) \<and>
     service = ''t'' @ CHR ''-'' # rest"
  using pre_process_accepts [OF demo_doc_accepted] by auto

end
