(* ===== verification/TM_Store.thy ===== *)
theory TM_Store
  imports TM_Doc
begin

text \<open>
  The transaction store of \<open>tm_transaction_store.c\<close>: two LMDB environments, \<open>current\<close> and
  \<open>last\<close>, each with a table of stored records and a table of traces to send to Jaeger. Records
  are the packed C structures, byte by byte. The operations run under the read lock, the rotation
  under the write lock, so each is one step here.
\<close>

section \<open>Stored records\<close>

definition MAGIC_WORD_V4 :: nat where "MAGIC_WORD_V4 = 0x0fa7a55"
definition MAGIC_WORD_V4_COMPRESS :: nat where "MAGIC_WORD_V4_COMPRESS = 0x1fa7a55"

text \<open>
  \<open>lmdb_stored_root_v4\<close>: the magic word (4 bytes), the length of the data (8), the two times (8
  each), the ttl (4), an unused byte, the data. The unused byte is never set nor read; it is NUL
  here.
\<close>

definition stored_root :: "nat \<Rightarrow> u64 \<Rightarrow> u64 \<Rightarrow> int \<Rightarrow> string \<Rightarrow> string" where
  "stored_root mw first last_mod ttl d =
     le_bytes 4 mw @ le_bytes 8 (length d) @ le_bytes 8 (unat first) @ le_bytes 8 (unat last_mod) @
     le_bytes 4 (unat (word_of_int ttl :: u32)) @ [NUL] @ d"

definition root_magic :: "string \<Rightarrow> nat" where "root_magic b = le_val (take 4 b)"
definition root_len :: "string \<Rightarrow> nat" where "root_len b = le_val (take 8 (drop 4 b))"
definition root_first_seen :: "string \<Rightarrow> u64" where "root_first_seen b = of_nat (le_val (take 8 (drop 12 b)))"
definition root_last_modified :: "string \<Rightarrow> u64" where "root_last_modified b = of_nat (le_val (take 8 (drop 20 b)))"
definition root_data :: "string \<Rightarrow> string" where "root_data b = take (root_len b) (drop 33 b)"

definition set_last_modified :: "string \<Rightarrow> u64 \<Rightarrow> string" where
  "set_last_modified b t = take 20 b @ le_bytes 8 (unat t) @ drop 28 b"

text \<open>\<open>lmdb_stored_child_v4\<close> has one time and no unused byte.\<close>

definition stored_child :: "nat \<Rightarrow> u64 \<Rightarrow> int \<Rightarrow> string \<Rightarrow> string" where
  "stored_child mw first ttl d =
     le_bytes 4 mw @ le_bytes 8 (length d) @ le_bytes 8 (unat first) @
     le_bytes 4 (unat (word_of_int ttl :: u32)) @ d"

definition child_data :: "string \<Rightarrow> string" where "child_data b = take (root_len b) (drop 24 b)"

text \<open>Reading a record of fewer bytes than its header and data is a read outside the value.\<close>

definition root_ok :: "string \<Rightarrow> bool" where "root_ok b = (33 \<le> length b \<and> 33 + root_len b \<le> length b)"
definition child_ok :: "string \<Rightarrow> bool" where "child_ok b = (24 \<le> length b \<and> 24 + root_len b \<le> length b)"

text \<open>Compression falls back to the text itself; the magic word says which.\<close>

definition pack :: "('j, 'd, 'h) env \<Rightarrow> string \<Rightarrow> nat \<times> string" where
  "pack E json =
     (case lz4_compress E json of
        None \<Rightarrow> (MAGIC_WORD_V4, json)
      | Some c \<Rightarrow> (MAGIC_WORD_V4_COMPRESS, c))"

text \<open>
  The text of a record: a compressed one is decompressed into a buffer of \<open>mtev_compress_bound\<close> of its
  compressed length, the third argument of the decompressor.
\<close>

definition unpack :: "('j, 'd, 'h) env \<Rightarrow> nat \<Rightarrow> string \<Rightarrow> string option" where
  "unpack E mw d =
     (if mw = MAGIC_WORD_V4_COMPRESS then lz4_decompress E d (compress_bound E (length d)) else Some d)"

section \<open>Transactions on an environment\<close>

text \<open>LMDB refuses an empty key and a key of more than 511 bytes.\<close>

definition key_size_ok :: "string \<Rightarrow> bool" where
  "key_size_ok k = (k \<noteq> [] \<and> length k \<le> 511)"

definition mdb_next :: "tstore \<Rightarrow> mdb_outcome \<times> tstore" where
  "mdb_next st = (mdb_outcomes st (mdb_pos st), st\<lparr>mdb_pos := mdb_pos st + 1\<rparr>)"

text \<open>The outcome of a transaction that puts \<open>key\<close>.\<close>

definition put_outcome :: "string \<Rightarrow> tstore \<Rightarrow> mdb_outcome \<times> tstore" where
  "put_outcome key st =
     (let (r, st) = mdb_next st in
      (if key_size_ok key \<or> r = Some Txn_begin \<or> r = Some Cursor_open then r else Some Cursor_put, st))"

definition env_put :: "nat \<Rightarrow> string \<Rightarrow> string \<Rightarrow> mdb_env \<Rightarrow> mdb_env" where
  "env_put dbi key data env = env(dbi := (env dbi)(key \<mapsto> data))"

definition env_del :: "nat \<Rightarrow> string \<Rightarrow> mdb_env \<Rightarrow> mdb_env" where
  "env_del dbi key env = env(dbi := (env dbi)(key := None))"

section \<open>Opening\<close>

definition open_ms_key :: string where "open_ms_key = ''tm_transaction_store_open_ms''"

text \<open>
  Both environments open \<open>ts\<close> and then \<open>jaeger\<close>, so the handles, which LMDB numbers per
  environment from 2 on, are the same in both.
\<close>

definition ts_dbi :: nat where "ts_dbi = 2"
definition jaeger_dbi :: nat where "jaeger_dbi = 3"

definition open_environment :: "u64 \<Rightarrow> mdb_env \<Rightarrow> mdb_env \<times> u64" where
  "open_environment now env =
     (case env ts_dbi open_ms_key of
        None \<Rightarrow> (env_put ts_dbi open_ms_key (le_bytes 8 (unat now)) env, now)
      | Some d \<Rightarrow> (env, of_nat (le_val (take 8 d))))"

definition keys_of :: "mdb_env \<Rightarrow> nat \<Rightarrow> string list" where
  "keys_of env dbi = sorted_list_of_set (dom (env dbi))"

text \<open>\<open>cur\<close> and \<open>las\<close> are the environments on disk; each is opened with its own clock reading.\<close>

definition tm_transaction_store_open_environments ::
  "mdb_env \<Rightarrow> mdb_env \<Rightarrow> bool \<Rightarrow> u64 \<Rightarrow> u64 \<Rightarrow> tstore \<Rightarrow> tstore" where
  "tm_transaction_store_open_environments cur las create_blooms now1 now2 st =
     (let (cur', cur_ms) = open_environment now1 cur;
          (las', las_ms) = open_environment now2 las;
          st = st\<lparr>current_env := cur', current_dbi := ts_dbi, current_jaeger_dbi := jaeger_dbi,
                  current_open_ms := cur_ms,
                  last_env := las', last_dbi := ts_dbi, last_jaeger_dbi := jaeger_dbi,
                  last_open_ms := las_ms\<rparr>
      in if create_blooms then st\<lparr>current_bloom := keys_of cur' ts_dbi, last_bloom := keys_of las' ts_dbi\<rparr>
         else st)"

definition tm_transaction_store_init ::
  "mdb_env \<Rightarrow> mdb_env \<Rightarrow> int \<Rightarrow> bool \<Rightarrow> (nat \<Rightarrow> mdb_outcome) \<Rightarrow> u64 \<Rightarrow> u64 \<Rightarrow> tstore" where
  "tm_transaction_store_init cur las lookback use_bloom outcomes now1 now2 =
     tm_transaction_store_open_environments cur las use_bloom now1 now2
       \<lparr>current_open_ms = 0, current_env = (\<lambda>_. Map.empty), current_dbi = 0, current_jaeger_dbi = 0,
        current_bloom = [], last_open_ms = 0, last_env = (\<lambda>_. Map.empty), last_dbi = 0,
        last_jaeger_dbi = 0, last_bloom = [], use_bloom_filters = use_bloom,
        default_lookback_secs = lookback, mdb_outcomes = outcomes, mdb_pos = 0\<rparr>"

section \<open>Put\<close>

definition default_ttl :: "int \<Rightarrow> tstore \<Rightarrow> int" where
  "default_ttl ttl st = (if ttl = 0 then default_lookback_secs st + 300 else ttl)"

definition tm_transaction_store_put ::
  "('j, 'd, 'h) env \<Rightarrow> string \<Rightarrow> u64 \<Rightarrow> 'j \<Rightarrow> int \<Rightarrow> u64 \<Rightarrow> tstore \<Rightarrow> bool \<times> tstore" where
  "tm_transaction_store_put E tid first_seen data ttl now st =
     (let (mw, d) = pack E (jo_print E data);
          s = stored_root mw first_seen now (default_ttl ttl st) d;
          (r, st) = put_outcome tid st
      in case r of
           Some _ \<Rightarrow> (False, st)
         | None \<Rightarrow>
             (True, st\<lparr>current_env := env_put (current_dbi st) tid s (current_env st),
                       current_bloom := (if use_bloom_filters st then tid # current_bloom st
                                         else current_bloom st)\<rparr>))"

section \<open>Finding a record\<close>

datatype found = Read_error | Not_found | In_last string | In_current string

definition passes_bloom :: "('j, 'd, 'h) env \<Rightarrow> tstore \<Rightarrow> string list \<Rightarrow> string \<Rightarrow> bool" where
  "passes_bloom E st bloom key = (use_bloom_filters st \<longrightarrow> bloom_contains E bloom key)"

text \<open>
  The lookup of \<open>add_child\<close>: \<open>last\<close> first, then \<open>current\<close>, each behind its bloom filter. A read
  transaction of \<open>current\<close> that does not begin is used all the same: \<open>None\<close>.
\<close>

definition find_current :: "('j, 'd, 'h) env \<Rightarrow> string \<Rightarrow> tstore \<Rightarrow> (found \<times> tstore) ub" where
  "find_current E key st =
     (if \<not> passes_bloom E st (current_bloom st) key then Some (Not_found, st)
      else let (r, st) = mdb_next st in
        (case r of
           Some Txn_begin \<Rightarrow> None
         | Some _ \<Rightarrow> Some (Read_error, st)
         | None \<Rightarrow>
             Some (case current_env st (current_dbi st) key of
                     None \<Rightarrow> Not_found | Some b \<Rightarrow> In_current b, st)))"

definition find_record :: "('j, 'd, 'h) env \<Rightarrow> string \<Rightarrow> tstore \<Rightarrow> (found \<times> tstore) ub" where
  "find_record E key st =
     (if \<not> passes_bloom E st (last_bloom st) key then find_current E key st
      else let (r, st) = mdb_next st in
        (case r of
           Some _ \<Rightarrow> Some (Read_error, st)
         | None \<Rightarrow>
             (case last_env st (last_dbi st) key of
                Some b \<Rightarrow> Some (In_last b, st)
              | None \<Rightarrow> find_current E key st)))"

section \<open>Children\<close>

text \<open>
  The key of a child is the trace id, a dash and the child's own id, in a buffer of 96 bytes;
  \<open>snprintf\<close> returns the full length. A child without an event gets the empty key, one with an
  unknown event or without an id formats a NULL pointer.
\<close>

definition child_hex_id :: "('j, 'd, 'h) env \<Rightarrow> 'j \<Rightarrow> int \<Rightarrow> string \<Rightarrow> string ub" where
  "child_hex_id E child mv ev =
     (if ev = ''span'' then
        jo_string E (jo_get E (jo_get E (Some child) ''span'') (if mv = 6 then ''hex_id'' else ''id''))
      else if ev = ''error'' then jo_string E (jo_get E (jo_get E (Some child) ''error'') ''id'')
      else if ev = ''transaction'' then jo_string E (jo_get E (jo_get E (Some child) ''transaction'') ''id'')
      else None)"

definition child_key :: "('j, 'd, 'h) env \<Rightarrow> string \<Rightarrow> 'j \<Rightarrow> string ub" where
  "child_key E trace_id child = do {
     mv \<leftarrow> tm_apm_server_major_version E (Some child);
     (case jo_get E (jo_get E (Some child) ''processor'') ''event'' of
        None \<Rightarrow> Some []
      | Some event \<Rightarrow> do {
          ev \<leftarrow> jo_string E (Some event);
          hex_id \<leftarrow> child_hex_id E child mv ev;
          let k = trace_id @ ''-'' @ hex_id;
          if length k < 96 then Some k
          else if length k = 96 then Some (take 95 k @ [NUL])
          else None }) }"

text \<open>The parent is written back with a new \<open>last_modified_ms\<close>; its commit is not checked.\<close>

definition on_env :: "bool \<Rightarrow> (nat \<Rightarrow> mdb_env \<Rightarrow> mdb_env) \<Rightarrow> tstore \<Rightarrow> tstore" where
  "on_env in_last f st =
     (if in_last then st\<lparr>last_env := f (last_dbi st) (last_env st)\<rparr>
      else st\<lparr>current_env := f (current_dbi st) (current_env st)\<rparr>)"

definition put_child ::
  "bool \<Rightarrow> string \<Rightarrow> string \<Rightarrow> tstore \<Rightarrow> (bool \<times> tstore) ub" where
  "put_child in_last key sc st =
     (let (r, st) = put_outcome key st in
      (case r of
         Some Txn_begin \<Rightarrow> None
       | Some _ \<Rightarrow> Some (False, st)
       | None \<Rightarrow> Some (True, on_env in_last (\<lambda>dbi. env_put dbi key sc) st)))"

definition put_parent ::
  "bool \<Rightarrow> string \<Rightarrow> string \<Rightarrow> tstore \<Rightarrow> (bool \<times> tstore) ub" where
  "put_parent in_last key b st =
     (let (r, st) = put_outcome key st in
      (case r of
         Some Txn_begin \<Rightarrow> None
       | Some Txn_commit \<Rightarrow> Some (True, st)
       | Some _ \<Rightarrow> Some (False, st)
       | None \<Rightarrow> Some (True, on_env in_last (\<lambda>dbi. env_put dbi key b) st)))"

definition tm_transaction_store_add_child ::
  "('j, 'd, 'h) env \<Rightarrow> string \<Rightarrow> 'j \<Rightarrow> int \<Rightarrow> u64 \<Rightarrow> u64 \<Rightarrow> tstore \<Rightarrow> (bool \<times> tstore) ub" where
  "tm_transaction_store_add_child E trace_id child ttl now_parent now_child st = do {
     (fd, st) \<leftarrow> find_record E trace_id st;
     if fd = Read_error then Some (False, st)
     else do {
       let (mw, d) = pack E (jo_print E child);
       let sc = stored_child mw now_child (default_ttl ttl st) d;
       key \<leftarrow> child_key E trace_id child;
       (case fd of
          Not_found \<Rightarrow> put_child False key sc st
        | Read_error \<Rightarrow> Some (False, st)
        | In_last b \<Rightarrow>
            (if \<not> root_ok b \<or> length b \<noteq> 33 + root_len b then None
             else do {
               (ok, st) \<leftarrow> put_parent True trace_id (set_last_modified b now_parent) st;
               if ok then put_child True key sc st else Some (False, st) })
        | In_current b \<Rightarrow>
            (if \<not> root_ok b \<or> length b \<noteq> 33 + root_len b then None
             else do {
               (ok, st) \<leftarrow> put_parent False trace_id (set_last_modified b now_parent) st;
               if ok then put_child False key sc st else Some (False, st) })) } }"

section \<open>Get\<close>

record 'j entry =
  first_seen_ms :: u64
  last_modified_ms :: u64
  data :: "'j option"

definition read_entry :: "('j, 'd, 'h) env \<Rightarrow> string \<Rightarrow> 'j entry option ub" where
  "read_entry E b =
     (if \<not> root_ok b then None
      else case unpack E (root_magic b) (root_data b) of
          None \<Rightarrow> Some None
        | Some json \<Rightarrow>
            Some (Some \<lparr>first_seen_ms = root_first_seen b, last_modified_ms = root_last_modified b,
                        data = jo_parse E json\<rparr>))"

text \<open>
  Reads must begin and open their cursor (asserted). Any failure of the lookup counts as not found; for
  these arguments LMDB documents no other failure than that the key is missing.
\<close>

definition read_ok :: "tstore \<Rightarrow> tstore ub" where
  "read_ok st =
     (let (r, st) = mdb_next st in
      if r = Some Txn_begin \<or> r = Some Cursor_open then None else Some st)"

definition get_current :: "('j, 'd, 'h) env \<Rightarrow> string \<Rightarrow> tstore \<Rightarrow> (string option \<times> tstore) ub" where
  "get_current E tid st =
     (if \<not> passes_bloom E st (current_bloom st) tid then Some (None, st)
      else case read_ok st of
          None \<Rightarrow> None
        | Some st \<Rightarrow> Some (current_env st (current_dbi st) tid, st))"

definition get_record :: "('j, 'd, 'h) env \<Rightarrow> string \<Rightarrow> tstore \<Rightarrow> (string option \<times> tstore) ub" where
  "get_record E tid st =
     (if \<not> passes_bloom E st (last_bloom st) tid then get_current E tid st
      else case read_ok st of
          None \<Rightarrow> None
        | Some st \<Rightarrow>
            (case last_env st (last_dbi st) tid of
               Some b \<Rightarrow> Some (Some b, st)
             | None \<Rightarrow> get_current E tid st))"

definition tm_transaction_store_get ::
  "('j, 'd, 'h) env \<Rightarrow> string \<Rightarrow> tstore \<Rightarrow> ('j entry option \<times> tstore) ub" where
  "tm_transaction_store_get E tid st =
     (case get_record E tid st of
        None \<Rightarrow> None
      | Some (None, st) \<Rightarrow> Some (None, st)
      | Some (Some b, st) \<Rightarrow> (case read_entry E b of None \<Rightarrow> None | Some e \<Rightarrow> Some (e, st)))"

section \<open>Reading the children of a trace\<close>

text \<open>The cursor starts at the first key that is not below the id; \<open>count\<close> children are kept so far.\<close>

definition keys_from :: "mdb_env \<Rightarrow> nat \<Rightarrow> string \<Rightarrow> string list" where
  "keys_from env dbi tid = filter (\<lambda>k. tid \<le> k) (keys_of env dbi)"

fun children_loop ::
  "('j, 'd, 'h) env \<Rightarrow> (string \<rightharpoonup> string) \<Rightarrow> string \<Rightarrow> 'j list \<Rightarrow> string list \<Rightarrow> 'j list ub" where
  "children_loop E t tid acc [] = Some acc"
| "children_loop E t tid acc (k # ks) =
     (if \<not> strncmp_eq tid k (length tid) then Some acc
      else if length k = length tid then children_loop E t tid acc ks
      else case t k of
        None \<Rightarrow> None
      | Some b \<Rightarrow>
          if \<not> child_ok b then None
          else (case unpack E (root_magic b) (child_data b) of
            None \<Rightarrow> Some []
          | Some json \<Rightarrow>
              (case jo_parse E json of
                 None \<Rightarrow> children_loop E t tid acc ks
               | Some j \<Rightarrow>
                   if 1000 \<le> length acc + 1 then Some (acc @ [j])
                   else children_loop E t tid (acc @ [j]) ks)))"

definition tm_transaction_store_get_children ::
  "('j, 'd, 'h) env \<Rightarrow> mdb_env \<Rightarrow> nat \<Rightarrow> string \<Rightarrow> 'j list ub" where
  "tm_transaction_store_get_children E env dbi tid = children_loop E (env dbi) tid [] (keys_from env dbi tid)"

section \<open>Rotation\<close>

text \<open>
  The files of \<open>last\<close> are removed, those of \<open>current\<close> renamed to it; \<open>current\<close> starts empty.
  \<open>now\<close> is the clock at the start, \<open>now1\<close> and \<open>now2\<close> its readings while the environments open.
\<close>

definition tm_transaction_store_delete_old_transactions ::
  "u64 \<Rightarrow> u64 \<Rightarrow> u64 \<Rightarrow> tstore \<Rightarrow> nat \<times> tstore" where
  "tm_transaction_store_delete_old_transactions now now1 now2 st =
     (if current_open_ms st < now \<and> 600000 < now - current_open_ms st then
        let entries = card (dom (current_env st (current_dbi st)));
            st1 = (if use_bloom_filters st
                   then st\<lparr>last_bloom := current_bloom st, current_bloom := []\<rparr> else st)
        in (entries, tm_transaction_store_open_environments (\<lambda>_. Map.empty) (current_env st) False now1 now2 st1)
      else (0, st))"

section \<open>Marking a trace\<close>

definition tm_transaction_store_mark_traceable :: "string \<Rightarrow> tstore \<Rightarrow> tstore" where
  "tm_transaction_store_mark_traceable trace_id st =
     (let (r, st) = put_outcome trace_id st in
      (case r of
         Some _ \<Rightarrow> st
       | None \<Rightarrow> st\<lparr>current_env := env_put (current_jaeger_dbi st) trace_id ''trace'' (current_env st)\<rparr>))"

section \<open>Records: facts\<close>

lemma take_drop_append:
  "length a = n \<Longrightarrow> take n (a @ b) = a" "length a = n \<Longrightarrow> drop n (a @ b) = b"
  by simp_all

lemma stored_root_fields:
  assumes "mw < 2 ^ 32" "length d < 2 ^ 64"
  shows "root_magic (stored_root mw f l ttl d) = mw" "root_len (stored_root mw f l ttl d) = length d"
    "root_first_seen (stored_root mw f l ttl d) = f" "root_last_modified (stored_root mw f l ttl d) = l"
    "root_data (stored_root mw f l ttl d) = d" "root_ok (stored_root mw f l ttl d)"
    "length (stored_root mw f l ttl d) = 33 + length d"
proof -
  have p: "(256 :: nat) ^ 4 = 2 ^ 32" "(256 :: nat) ^ 8 = 2 ^ 64" by simp_all
  show m: "root_magic (stored_root mw f l ttl d) = mw"
    using assms(1) by (simp add: root_magic_def stored_root_def le_val_le_bytes p)
  show n: "root_len (stored_root mw f l ttl d) = length d"
    using assms(2) by (simp add: root_len_def stored_root_def le_val_le_bytes p)
  show "root_first_seen (stored_root mw f l ttl d) = f" "root_last_modified (stored_root mw f l ttl d) = l"
    using unat_less_64 [of f] unat_less_64 [of l]
    by (simp_all add: root_first_seen_def root_last_modified_def stored_root_def le_val_le_bytes p)
  show "root_data (stored_root mw f l ttl d) = d" "root_ok (stored_root mw f l ttl d)"
    "length (stored_root mw f l ttl d) = 33 + length d"
    by (simp_all add: root_data_def root_ok_def n) (simp_all add: stored_root_def)
qed

lemma stored_child_fields:
  assumes "mw < 2 ^ 32" "length d < 2 ^ 64"
  shows "root_magic (stored_child mw f ttl d) = mw" "root_len (stored_child mw f ttl d) = length d"
    "child_data (stored_child mw f ttl d) = d" "child_ok (stored_child mw f ttl d)"
proof -
  have p: "(256 :: nat) ^ 4 = 2 ^ 32" "(256 :: nat) ^ 8 = 2 ^ 64" by simp_all
  show "root_magic (stored_child mw f ttl d) = mw"
    using assms(1) by (simp add: root_magic_def stored_child_def le_val_le_bytes p)
  show n: "root_len (stored_child mw f ttl d) = length d"
    using assms(2) by (simp add: root_len_def stored_child_def le_val_le_bytes p)
  show "child_data (stored_child mw f ttl d) = d" "child_ok (stored_child mw f ttl d)"
    by (simp_all add: child_data_def child_ok_def n) (simp_all add: stored_child_def)
qed

lemma magic_bounds: "fst (pack E j) < 2 ^ 32"
  by (simp add: pack_def MAGIC_WORD_V4_def MAGIC_WORD_V4_COMPRESS_def split: option.split)

lemma unpack_pack:
  assumes "\<And>c n. lz4_compress E s = Some c \<Longrightarrow> lz4_decompress E c n = Some (take n s)"
  shows "unpack E (fst (pack E s)) (snd (pack E s)) =
           Some (case lz4_compress E s of None \<Rightarrow> s | Some c \<Rightarrow> take (compress_bound E (length c)) s)"
  using assms by (auto simp: pack_def unpack_def MAGIC_WORD_V4_def MAGIC_WORD_V4_COMPRESS_def split: option.split)

lemma set_last_modified_fields:
  assumes "root_ok b"
  shows "root_last_modified (set_last_modified b t) = t" "root_magic (set_last_modified b t) = root_magic b"
    "root_len (set_last_modified b t) = root_len b" "root_first_seen (set_last_modified b t) = root_first_seen b"
    "root_data (set_last_modified b t) = root_data b" "length (set_last_modified b t) = length b"
    "root_ok (set_last_modified b t)"
proof -
  have b: "33 \<le> length b" "length (take 20 b) = 20" using assms by (simp_all add: root_ok_def)
  have p: "(256 :: nat) ^ 8 = 2 ^ 64" by simp
  have drop20: "drop 20 (set_last_modified b t) = le_bytes 8 (unat t) @ drop 28 b"
    and drop33: "drop 33 (set_last_modified b t) = drop 33 b"
    using b by (simp_all add: set_last_modified_def drop_append)
  show "root_last_modified (set_last_modified b t) = t"
    using unat_less_64 [of t] by (simp add: root_last_modified_def drop20 le_val_le_bytes p)
  show "root_magic (set_last_modified b t) = root_magic b"
    using b by (simp add: root_magic_def set_last_modified_def take_append)
  show n: "root_len (set_last_modified b t) = root_len b"
    using b by (simp add: root_len_def set_last_modified_def drop_append take_append drop_take)
  show "root_first_seen (set_last_modified b t) = root_first_seen b"
    using b by (simp add: root_first_seen_def set_last_modified_def drop_append take_append drop_take)
  show "root_data (set_last_modified b t) = root_data b" by (simp add: root_data_def n drop33)
  show l: "length (set_last_modified b t) = length b" using b by (simp add: set_last_modified_def)
  show "root_ok (set_last_modified b t)" using assms by (simp add: root_ok_def n l)
qed

section \<open>The bloom filters\<close>

text \<open>What a bloom filter documents: no false negatives.\<close>

definition bloom_sound :: "('j, 'd, 'h) env \<Rightarrow> bool" where
  "bloom_sound E = (\<forall>ks k. k \<in> set ks \<longrightarrow> bloom_contains E ks k)"

text \<open>
  Trace ids: a key with neither dash nor NUL that is not the store's own entry. The filters know
  every trace id in the tables; children's keys contain a dash (or the NUL of a full buffer).
\<close>

definition trace_key :: "string \<Rightarrow> bool" where
  "trace_key k = (CHR ''-'' \<notin> set k \<and> NUL \<notin> set k \<and> k \<noteq> open_ms_key)"

definition known :: "mdb_env \<Rightarrow> string list \<Rightarrow> bool" where
  "known env bloom = (\<forall>k. env ts_dbi k \<noteq> None \<and> trace_key k \<longrightarrow> k \<in> set bloom)"

definition store_ok :: "tstore \<Rightarrow> bool" where
  "store_ok st =
     (current_dbi st = ts_dbi \<and> last_dbi st = ts_dbi \<and> current_jaeger_dbi st = jaeger_dbi \<and>
      last_jaeger_dbi st = jaeger_dbi \<and>
      (use_bloom_filters st \<longrightarrow> known (current_env st) (current_bloom st) \<and> known (last_env st) (last_bloom st)))"

inductive store_step :: "('j, 'd, 'h) env \<Rightarrow> tstore \<Rightarrow> tstore \<Rightarrow> bool" for E where
  put: "tm_transaction_store_put E tid first d ttl now st = (ok, st') \<Longrightarrow> store_step E st st'"
| add_child: "tm_transaction_store_add_child E tid child ttl now now' st = Some (ok, st') \<Longrightarrow> store_step E st st'"
| get: "tm_transaction_store_get E tid st = Some (e, st') \<Longrightarrow> store_step E st st'"
| mark: "tm_transaction_store_mark_traceable tid st = st' \<Longrightarrow> store_step E st st'"
| rotate: "tm_transaction_store_delete_old_transactions now now1 now2 st = (n, st') \<Longrightarrow> store_step E st st'"

lemma env_put_same [simp]: "env_put d k v env d = (env d)(k \<mapsto> v)"
  and env_put_other [simp]: "d \<noteq> d' \<Longrightarrow> env_put d k v env d' = env d'"
  by (simp_all add: env_put_def)

lemma dbis_differ [simp]: "ts_dbi \<noteq> jaeger_dbi" "jaeger_dbi \<noteq> ts_dbi"
  by (simp_all add: ts_dbi_def jaeger_dbi_def)

lemma known_put: "known env bloom \<Longrightarrow> trace_key k \<longrightarrow> k \<in> set bloom \<Longrightarrow> known (env_put ts_dbi k v env) bloom"
  by (auto simp: known_def)

lemma key_known_mono: "known env bloom \<Longrightarrow> set bloom \<subseteq> set bloom' \<Longrightarrow> known env bloom'"
  by (auto simp: known_def)

lemma known_open: "known env bloom \<Longrightarrow> known (fst (open_environment now env)) bloom"
  by (auto simp: open_environment_def trace_key_def split: option.splits intro!: known_put)

lemma mdb_next_eq [simp]: "mdb_next st = (mdb_outcomes st (mdb_pos st), st\<lparr>mdb_pos := mdb_pos st + 1\<rparr>)"
  by (simp add: mdb_next_def)

lemma store_ok_pos [simp]: "store_ok (st\<lparr>mdb_pos := n\<rparr>) = store_ok st"
  by (simp add: store_ok_def)

lemma put_outcome_state [simp]: "snd (put_outcome k st) = st\<lparr>mdb_pos := mdb_pos st + 1\<rparr>"
  by (simp add: put_outcome_def Let_def)

lemma put_outcome_ok: "put_outcome k st = (None, st') \<Longrightarrow> key_size_ok k"
  by (auto simp: put_outcome_def Let_def split: if_splits)

text \<open>\<open>put_outcome\<close> and the lookups change the position in the outcomes only.\<close>

definition same_store :: "tstore \<Rightarrow> tstore \<Rightarrow> bool" where
  "same_store st st' = (\<exists>n. st' = st\<lparr>mdb_pos := n\<rparr>)"

lemma same_store_refl [simp]: "same_store st st"
  unfolding same_store_def by (rule exI [of _ "mdb_pos st"]) simp

lemma same_store_pos [simp]: "same_store (st\<lparr>mdb_pos := n\<rparr>) st' = same_store st st'" "same_store st (st\<lparr>mdb_pos := n\<rparr>)"
  by (auto simp: same_store_def)

lemma same_store_ok: "same_store st st' \<Longrightarrow> store_ok st' = store_ok st"
  by (auto simp: same_store_def)

lemma same_store_trans: "same_store a b \<Longrightarrow> same_store b c \<Longrightarrow> same_store a c"
  by (auto simp: same_store_def)

lemma put_outcome_same: "put_outcome k st = (r, st') \<Longrightarrow> same_store st st'"
  using put_outcome_state [of k st] by simp

lemma find_current_same: "find_current E k st = Some (fd, st') \<Longrightarrow> same_store st st'"
  by (auto simp: find_current_def Let_def split: if_splits option.splits mdb_step.splits)

lemma find_record_same: "find_record E k st = Some (fd, st') \<Longrightarrow> same_store st st'"
  by (auto simp: find_record_def Let_def split: if_splits option.splits dest: find_current_same)

lemma get_current_same: "get_current E k st = Some (r, st') \<Longrightarrow> same_store st st'"
  by (auto simp: get_current_def read_ok_def Let_def split: if_splits option.splits)

lemma get_record_same: "get_record E k st = Some (r, st') \<Longrightarrow> same_store st st'"
  by (auto simp: get_record_def read_ok_def Let_def split: if_splits option.splits dest: get_current_same)

lemma get_same: "tm_transaction_store_get E tid st = Some (e, st') \<Longrightarrow> same_store st st'"
  by (auto simp: tm_transaction_store_get_def split: option.splits dest: get_record_same)

section \<open>Every operation keeps the store's invariant\<close>

lemma store_ok_put:
  "store_ok st \<Longrightarrow> tm_transaction_store_put E tid first d ttl now st = (ok, st') \<Longrightarrow> store_ok st'"
proof -
  assume ok: "store_ok st" and p: "tm_transaction_store_put E tid first d ttl now st = (ok, st')"
  obtain r s1 where r: "put_outcome tid st = (r, s1)" by (cases "put_outcome tid st")
  note s1 = put_outcome_same [OF r]
  then have "store_ok s1" using ok same_store_ok by blast
  then show "store_ok st'"
    using p r by (auto simp: tm_transaction_store_put_def Let_def split_beta store_ok_def known_def
        split: option.splits if_splits)
qed

lemma store_ok_on_env:
  assumes "store_ok st"
    and "trace_key k \<Longrightarrow> (if in_last then last_env st else current_env st) ts_dbi k \<noteq> None"
  shows "store_ok (on_env in_last (\<lambda>dbi. env_put dbi k v) st)"
  using assms by (auto simp: on_env_def store_ok_def known_def split: if_splits)

lemma put_parent_ok:
  assumes "put_parent in_last k b st = Some (ok, st')" "store_ok st"
    "(if in_last then last_env st else current_env st) ts_dbi k \<noteq> None"
  shows "store_ok st' \<and> (\<forall>d. current_env st d = current_env st' d \<or> d = ts_dbi)"
proof -
  obtain r s1 where r: "put_outcome k st = (r, s1)" by (cases "put_outcome k st")
  then obtain n where s1: "s1 = st\<lparr>mdb_pos := n\<rparr>" using put_outcome_same [OF r] by (auto simp: same_store_def)
  have ok1: "store_ok s1" using assms(2) s1 by simp
  have "store_ok (on_env in_last (\<lambda>dbi. env_put dbi k b) s1)"
    using ok1 assms(3) s1 by (intro store_ok_on_env) auto
  then show ?thesis using assms(1,2) ok1 s1
    by (auto simp: put_parent_def r on_env_def store_ok_def env_put_def
        split: option.splits mdb_step.splits if_splits)
qed

lemma put_child_ok:
  assumes "put_child in_last k b st = Some (ok, st')" "store_ok st" "\<not> trace_key k \<or> k = []"
  shows "store_ok st'"
proof -
  obtain r s1 where r: "put_outcome k st = (r, s1)" by (cases "put_outcome k st")
  have ok1: "store_ok s1" using assms(2) put_outcome_same [OF r] same_store_ok by blast
  have "r = None \<Longrightarrow> \<not> trace_key k" using put_outcome_ok r assms(3) by (auto simp: key_size_ok_def)
  then have "r = None \<Longrightarrow> store_ok (on_env in_last (\<lambda>dbi. env_put dbi k b) s1)"
    using ok1 by (auto intro: store_ok_on_env)
  then show ?thesis using assms(1) ok1
    by (auto simp: put_child_def r split: option.splits mdb_step.splits)
qed

lemma child_key_dash: "child_key E tid child = Some k \<Longrightarrow> \<not> trace_key k \<or> k = []"
  by (auto simp: child_key_def bind_eq_Some_conv Let_def trace_key_def split: option.splits if_splits)

lemma find_record_In:
  assumes "find_record E k st = Some (fd, st')" "store_ok st"
  shows "fd = In_last b \<Longrightarrow> last_env st ts_dbi k = Some b"
    and "fd = In_current b \<Longrightarrow> current_env st ts_dbi k = Some b"
  using assms by (auto simp: find_record_def find_current_def store_ok_def Let_def
      split: if_splits option.splits mdb_step.splits)

lemma store_ok_add_child:
  assumes "tm_transaction_store_add_child E tid child ttl now now' st = Some (ok, st')" "store_ok st"
  shows "store_ok st'"
proof -
  from assms(1) obtain fd s1 where fd: "find_record E tid st = Some (fd, s1)"
    by (auto simp: tm_transaction_store_add_child_def bind_eq_Some_conv)
  from find_record_same [OF fd] obtain n where s1: "s1 = st\<lparr>mdb_pos := n\<rparr>"
    by (auto simp: same_store_def)
  have ok1: "store_ok s1" using assms(2) s1 by simp
  note found = find_record_In [OF fd assms(2)]
  show ?thesis
  proof (cases fd)
    case Read_error
    then show ?thesis using assms(1) fd ok1 by (simp add: tm_transaction_store_add_child_def)
  next
    case Not_found
    then show ?thesis using assms(1) fd ok1
      by (auto simp: tm_transaction_store_add_child_def bind_eq_Some_conv Let_def split_beta
          dest: put_child_ok [OF _ _ child_key_dash])
  next
    case (In_last b)
    with assms(1) fd obtain key pok s2 sc where key: "child_key E tid child = Some key"
      and p: "put_parent True tid (set_last_modified b now) s1 = Some (pok, s2)"
      and c: "if pok then put_child True key sc s2 = Some (ok, st') else st' = s2"
      by (auto simp: tm_transaction_store_add_child_def bind_eq_Some_conv Let_def split_beta split: if_splits)
    have s2: "store_ok s2" using put_parent_ok [OF p ok1] found(1) [OF In_last] s1 by simp
    show ?thesis
      using c s2 put_child_ok [OF _ s2 child_key_dash [OF key]] by (cases pok) auto
  next
    case (In_current b)
    with assms(1) fd obtain key pok s2 sc where key: "child_key E tid child = Some key"
      and p: "put_parent False tid (set_last_modified b now) s1 = Some (pok, s2)"
      and c: "if pok then put_child False key sc s2 = Some (ok, st') else st' = s2"
      by (auto simp: tm_transaction_store_add_child_def bind_eq_Some_conv Let_def split_beta split: if_splits)
    have s2: "store_ok s2" using put_parent_ok [OF p ok1] found(2) [OF In_current] s1 by simp
    show ?thesis
      using c s2 put_child_ok [OF _ s2 child_key_dash [OF key]] by (cases pok) auto
  qed
qed

lemma store_ok_mark: "store_ok st \<Longrightarrow> store_ok (tm_transaction_store_mark_traceable tid st)"
proof -
  assume ok: "store_ok st"
  obtain r s1 where r: "put_outcome tid st = (r, s1)" by (cases "put_outcome tid st")
  have "store_ok s1" using ok put_outcome_same [OF r] same_store_ok by blast
  then show ?thesis using ok
    by (auto simp: tm_transaction_store_mark_traceable_def r store_ok_def known_def split: option.splits)
qed

lemma store_ok_rotate:
  assumes "tm_transaction_store_delete_old_transactions now now1 now2 st = (n, st')" "store_ok st"
  shows "store_ok st'"
proof (cases "current_open_ms st < now \<and> 600000 < now - current_open_ms st")
  case False
  then show ?thesis using assms by (auto simp: tm_transaction_store_delete_old_transactions_def)
next
  case True
  have e: "known (fst (open_environment now1 (\<lambda>_. Map.empty))) []"
    by (intro known_open) (simp add: known_def)
  have l: "use_bloom_filters st \<Longrightarrow> known (fst (open_environment now2 (current_env st))) (current_bloom st)"
    using assms(2) by (intro known_open) (simp add: store_ok_def)
  show ?thesis using True assms e l
    by (auto simp: tm_transaction_store_delete_old_transactions_def tm_transaction_store_open_environments_def
        Let_def split_beta store_ok_def)
qed

lemma store_ok_step: "store_step E st st' \<Longrightarrow> store_ok st \<Longrightarrow> store_ok st'"
proof (induction rule: store_step.induct)
  case (get tid st e st')
  then show ?case using get_same same_store_ok by blast
qed (auto intro: store_ok_put store_ok_add_child store_ok_mark store_ok_rotate)

lemma store_ok_init:
  assumes "finite (dom (cur ts_dbi))" "finite (dom (las ts_dbi))"
  shows "store_ok (tm_transaction_store_init cur las lb ub oc now1 now2)"
proof -
  have f: "finite (dom (fst (open_environment now env) ts_dbi))" if "finite (dom (env ts_dbi))" for now env
    using that by (auto simp: open_environment_def split: option.split)
  show ?thesis using f [where env = cur and now = now1] f [where env = las and now = now2] assms
    by (auto simp: tm_transaction_store_init_def tm_transaction_store_open_environments_def Let_def
        split_beta store_ok_def known_def keys_of_def)
qed

lemma store_ok_run: "(store_step E)\<^sup>*\<^sup>* st st' \<Longrightarrow> store_ok st \<Longrightarrow> store_ok st'"
  by (induction rule: rtranclp_induct) (auto intro: store_ok_step)

lemma get_record_value:
  assumes "get_record E tid st = Some (r, st')" "store_ok st" "bloom_sound E" "trace_key tid"
  shows "r = (case last_env st ts_dbi tid of Some b \<Rightarrow> Some b | None \<Rightarrow> current_env st ts_dbi tid)"
proof -
  have c: "r = current_env s1 ts_dbi tid"
    if "get_current E tid s1 = Some (r, s2)" "same_store st s1" for r s1 s2
    using that assms(2-4)
    by (auto simp: get_current_def read_ok_def passes_bloom_def store_ok_def known_def bloom_sound_def
        same_store_def Let_def split: if_splits option.splits) (metis not_None_eq)+
  show ?thesis using assms
    by (auto simp: get_record_def read_ok_def passes_bloom_def store_ok_def known_def bloom_sound_def
        Let_def split: if_splits option.splits dest!: c)
qed

section \<open>Children: facts\<close>

text \<open>In key order, the keys that start with an id are contiguous and begin at the first key not below it.\<close>

lemma prefix_le: "prefix tid k \<Longrightarrow> tid \<le> (k :: string)"
proof (induction tid arbitrary: k)
  case (Cons a tid)
  then show ?case by (cases k) auto
qed simp

lemma prefix_between: "tid \<le> (k :: string) \<Longrightarrow> k \<le> k' \<Longrightarrow> prefix tid k' \<Longrightarrow> prefix tid k"
proof (induction tid arbitrary: k k')
  case (Cons a tid)
  then obtain r' where k': "k' = a # r'" "prefix tid r'" by (cases k') auto
  with Cons.prems obtain r where "k = a # r" "tid \<le> r" "r \<le> r'" by (cases k) auto
  then show ?case using Cons.IH [of r r'] k'(2) by simp
qed simp

lemma strncmp_prefix: "strncmp_eq tid k (length tid) = prefix tid k"
  by (auto simp: strncmp_eq_def prefix_def take_all_iff) (metis append_take_drop_id)

definition child_doc :: "('j, 'd, 'h) env \<Rightarrow> string \<Rightarrow> 'j option" where
  "child_doc E b = (case unpack E (root_magic b) (child_data b) of Some json \<Rightarrow> jo_parse E json | None \<Rightarrow> None)"

text \<open>
  The loop takes every longer key that starts with the id (\<open>strncmp\<close> and the length); the keys it is
  meant for are \<open>tid-child\<close>.
\<close>

definition is_child :: "string \<Rightarrow> string \<Rightarrow> bool" where
  "is_child tid k = (prefix tid k \<and> length k \<noteq> length tid)"

lemma is_child_of_ids:
  assumes "\<exists>t c. length t = length tid \<and> k \<in> {t, t @ ''-'' @ c}"
  shows "is_child tid k \<longleftrightarrow> (\<exists>c. k = tid @ ''-'' @ c)"
proof
  assume c: "is_child tid k"
  then obtain r where r: "k = tid @ r" "r \<noteq> []" by (auto simp: is_child_def prefix_def)
  from assms obtain t c where "length t = length tid" "k = t \<or> k = t @ ''-'' @ c" by blast
  with c r have "length t = length tid" "tid @ r = t @ ''-'' @ c" by (auto simp: is_child_def)
  then show "\<exists>c. k = tid @ ''-'' @ c" using r by auto
qed (auto simp: is_child_def)

lemma children_loop_all:
  assumes "sorted ks" "\<forall>k \<in> set ks. tid \<le> k" "\<forall>k \<in> set ks. t k \<noteq> None"
    and "\<forall>k \<in> set ks. \<forall>b. t k = Some b \<and> is_child tid k \<longrightarrow>
           child_ok b \<and> unpack E (root_magic b) (child_data b) \<noteq> None"
    and "length acc + length (filter (is_child tid) ks) < 1000"
  shows "children_loop E t tid acc ks =
           Some (acc @ List.map_filter (\<lambda>k. child_doc E (the (t k))) (filter (is_child tid) ks))"
  using assms
proof (induction ks arbitrary: acc)
  case (Cons k ks)
  show ?case
  proof (cases "prefix tid k")
    case False
    have "\<not> prefix tid k'" if "k' \<in> set ks" for k'
      using prefix_between [of tid k k'] False Cons.prems(1,2) that by auto
    then have "filter (is_child tid) ks = []" by (auto simp: filter_empty_conv is_child_def)
    moreover have "\<not> is_child tid k" using False by (simp add: is_child_def)
    ultimately show ?thesis using False by (simp add: strncmp_prefix List.map_filter_simps)
  next
    case True
    show ?thesis
    proof (cases "length k = length tid")
      case True
      then show ?thesis using \<open>prefix tid k\<close> Cons by (simp add: strncmp_prefix is_child_def)
    next
      case False
      with True have c: "is_child tid k" by (simp add: is_child_def)
      obtain b where b: "t k = Some b" using Cons.prems(3) by auto
      obtain json where j: "child_ok b" "unpack E (root_magic b) (child_data b) = Some json"
        using Cons.prems(4) b c by auto
      have IH: "children_loop E t tid acc' ks =
          Some (acc' @ List.map_filter (\<lambda>k. child_doc E (the (t k))) (filter (is_child tid) ks))"
        if "length acc' \<le> Suc (length acc)" for acc'
        using Cons that c by (intro Cons.IH) auto
      show ?thesis using Cons.prems(5) True False c b j IH [of acc] IH [of "acc @ [d]" for d]
        by (auto simp: strncmp_prefix List.map_filter_simps child_doc_def split: option.split)
    qed
  qed
qed (simp add: List.map_filter_simps)

lemma children_loop_bound:
  "children_loop E t tid acc ks = Some cs \<Longrightarrow> length acc < 1000 \<Longrightarrow> length cs \<le> 1000"
  by (induction ks arbitrary: acc) (auto split: if_splits option.splits)

lemma length_map_filter_le: "length (List.map_filter f xs) \<le> length xs"
  by (induction xs) (auto simp: List.map_filter_simps split: option.split)

lemma set_map_filter: "set (List.map_filter f xs) = {y. \<exists>x \<in> set xs. f x = Some y}"
  by (induction xs) (auto simp: List.map_filter_simps split: option.split)

lemma keys_from_set:
  "finite (dom (env dbi)) \<Longrightarrow> set (keys_from env dbi tid) = {k \<in> dom (env dbi). tid \<le> k}"
  "sorted (keys_from env dbi tid)" "distinct (keys_from env dbi tid)"
  by (auto simp: keys_from_def keys_of_def sorted_filter [of "\<lambda>x. x", simplified] intro: distinct_filter)

lemma get_exact:
  assumes "store_ok st" "bloom_sound E" "trace_key tid" "tm_transaction_store_get E tid st = Some (e, st')"
  shows "case last_env st ts_dbi tid of
           Some b \<Rightarrow> read_entry E b = Some e
         | None \<Rightarrow> (case current_env st ts_dbi tid of Some b \<Rightarrow> read_entry E b = Some e | None \<Rightarrow> e = None)"
proof -
  from assms(4) obtain r s1 where r: "get_record E tid st = Some (r, s1)"
      "case r of None \<Rightarrow> e = None | Some b \<Rightarrow> read_entry E b = Some e"
    by (auto simp: tm_transaction_store_get_def split: option.splits)
  with get_record_value [OF r(1) assms(1-3)] show ?thesis by (auto split: option.splits)
qed

section \<open>Properties\<close>

text \<open>C9: Whatever sequence of puts, added children, marks, lookups and rotations the store has seen since
  it was opened, a lookup of a trace id that returns gives exactly the record stored under it, the
  one in \<open>last\<close> before the one in \<open>current\<close>, and nothing only when neither has it: the bloom
  filters never hide a stored trace.\<close>

theorem store_lookup_exact:
  assumes "finite (dom (cur ts_dbi))" "finite (dom (las ts_dbi))" "bloom_sound E"
    and "(store_step E)\<^sup>*\<^sup>* (tm_transaction_store_init cur las lookback use_bloom oc now1 now2) st"
    and "trace_key tid" "tm_transaction_store_get E tid st = Some (e, st')"
  shows "case last_env st ts_dbi tid of
           Some b \<Rightarrow> read_entry E b = Some e
         | None \<Rightarrow> (case current_env st ts_dbi tid of Some b \<Rightarrow> read_entry E b = Some e | None \<Rightarrow> e = None)"
proof -
  have ok: "store_ok st" using store_ok_run [OF assms(4) store_ok_init] assms(1,2) by blast
  show ?thesis using get_exact [OF ok assms(3,5,6)] .
qed

lemma demo_store_ok: "store_ok demo_store"
  by (simp add: store_ok_def demo_store_def ts_dbi_def jaeger_dbi_def)

lemma demo_bloom: "bloom_sound demo_env"
  by (simp add: bloom_sound_def demo_env_def)

theorem store_lookup_exact_witness:
  "\<exists>e st'. tm_transaction_store_get demo_env ''ab''
      (tm_transaction_store_init (\<lambda>_. Map.empty) (\<lambda>_. Map.empty) 300 True (\<lambda>_. None) 1 2) = Some (e, st') \<and> e = None"
proof -
  let ?st = "tm_transaction_store_init (\<lambda>_. Map.empty) (\<lambda>_. Map.empty) 300 True (\<lambda>_. None) 1 2"
  have d: "env_put ts_dbi open_ms_key v (\<lambda>_. Map.empty) ts_dbi ''ab'' = None" for v
    by (simp add: open_ms_key_def)
  have s: "last_env ?st ts_dbi ''ab'' = None" "current_env ?st ts_dbi ''ab'' = None"
    by (simp_all add: tm_transaction_store_init_def tm_transaction_store_open_environments_def
        open_environment_def open_ms_key_def)
  have "\<exists>e st'. tm_transaction_store_get demo_env ''ab'' ?st = Some (e, st')"
    by (simp add: tm_transaction_store_get_def get_record_def get_current_def read_ok_def passes_bloom_def
        tm_transaction_store_init_def tm_transaction_store_open_environments_def open_environment_def
        demo_env_def keys_of_def d ts_dbi_def open_ms_key_def env_put_def)
  then obtain e st' where g: "tm_transaction_store_get demo_env ''ab'' ?st = Some (e, st')" by blast
  have "trace_key ''ab''" by (simp add: trace_key_def open_ms_key_def)
  from store_lookup_exact [OF _ _ demo_bloom rtranclp.rtrancl_refl this g] s g show ?thesis by simp
qed

text \<open>C24: A root document that was put is what a later lookup returns, with its first-seen time and the time
  of the put, unless \<open>last\<close> still holds an older record of the same trace (which would win). A text
  that was stored uncompressed is read back whole; of a compressed one, whose decompression fills
  the given buffer and stops, only the bytes that \<open>mtev_compress_bound\<close> of the compressed length
  allows for are parsed, so that a document that compresses well comes back cut.\<close>

theorem put_then_get:
  assumes "store_ok st" "bloom_sound E" "trace_key tid" "last_env st ts_dbi tid = None"
    and "\<And>c n. lz4_compress E (jo_print E d) = Some c \<Longrightarrow> lz4_decompress E c n = Some (take n (jo_print E d))"
    and "length (snd (pack E (jo_print E d))) < 2 ^ 64"
    and "tm_transaction_store_put E tid first d ttl now st = (True, st1)"
    and "tm_transaction_store_get E tid st1 = Some (e, st2)"
  shows "e = Some \<lparr>first_seen_ms = first, last_modified_ms = now,
                   data = jo_parse E (case lz4_compress E (jo_print E d) of
                                        None \<Rightarrow> jo_print E d
                                      | Some c \<Rightarrow> take (compress_bound E (length c)) (jo_print E d))\<rparr>"
proof -
  obtain mw c where pk: "pack E (jo_print E d) = (mw, c)" by (cases "pack E (jo_print E d)")
  obtain ro s1 where ro: "put_outcome tid st = (ro, s1)" by (cases "put_outcome tid st")
  from put_outcome_same [OF ro] obtain n where s1: "s1 = st\<lparr>mdb_pos := n\<rparr>" by (auto simp: same_store_def)
  let ?b = "stored_root mw first now (default_ttl ttl st) c"
  have st1: "current_env st1 ts_dbi tid = Some ?b" "last_env st1 ts_dbi tid = None"
    using assms(1,4,7) by (auto simp: tm_transaction_store_put_def pk ro s1 store_ok_def split: option.splits)
  have ok1: "store_ok st1" using store_ok_put [OF assms(1,7)] .
  from assms(8) obtain r s2 where r: "get_record E tid st1 = Some (r, s2)"
      "case r of None \<Rightarrow> e = None | Some b \<Rightarrow> read_entry E b = Some e"
    by (auto simp: tm_transaction_store_get_def split: option.splits)
  have "r = Some ?b" using get_record_value [OF r(1) ok1 assms(2,3)] st1 by simp
  moreover have "mw < 2 ^ 32" "length c < 2 ^ 64" using magic_bounds [of E "jo_print E d"] assms(6) pk by simp_all
  moreover have "unpack E mw c = Some (case lz4_compress E (jo_print E d) of None \<Rightarrow> jo_print E d
      | Some c \<Rightarrow> take (compress_bound E (length c)) (jo_print E d))"
    using unpack_pack [of E "jo_print E d"] assms(5) pk by simp
  ultimately show ?thesis
    using r(2) stored_root_fields [of mw c] by (simp add: read_entry_def)
qed

theorem put_then_get_witness:
  "\<exists>st1 e st2. tm_transaction_store_put
       (demo_env\<lparr>lz4_compress := (\<lambda>s. Some ''z''), lz4_decompress := (\<lambda>c n. Some (take n ''doc'')),
                compress_bound := (\<lambda>n. n + 1)\<rparr>)
       ''ab'' 5 (JStr ''doc'') 600 9 demo_store = (True, st1) \<and>
     tm_transaction_store_get
       (demo_env\<lparr>lz4_compress := (\<lambda>s. Some ''z''), lz4_decompress := (\<lambda>c n. Some (take n ''doc'')),
                compress_bound := (\<lambda>n. n + 1)\<rparr>)
       ''ab'' st1 = Some (e, st2) \<and>
     e = Some \<lparr>first_seen_ms = 5, last_modified_ms = 9, data = Some (JStr ''do'')\<rparr>"
proof -
  let ?E = "demo_env\<lparr>lz4_compress := (\<lambda>s. Some ''z''), lz4_decompress := (\<lambda>c n. Some (take n ''doc'')),
                    compress_bound := (\<lambda>n. n + 1)\<rparr>"
  let ?b = "stored_root MAGIC_WORD_V4_COMPRESS 5 9 600 ''z''"
  let ?st1 = "demo_store\<lparr>mdb_pos := 1, current_env := env_put 2 ''ab'' ?b (\<lambda>_. Map.empty)\<rparr>"
  have put: "tm_transaction_store_put ?E ''ab'' 5 (JStr ''doc'') 600 9 demo_store = (True, ?st1)"
    by (simp add: tm_transaction_store_put_def put_outcome_def key_size_ok_def pack_def demo_env_def
        demo_store_def default_ttl_def)
  obtain e st2 where g: "tm_transaction_store_get ?E ''ab'' ?st1 = Some (e, st2)"
    by (simp add: tm_transaction_store_get_def get_record_def get_current_def read_ok_def passes_bloom_def
        demo_store_def read_entry_def stored_root_fields MAGIC_WORD_V4_COMPRESS_def unpack_def)
  have t: "trace_key ''ab''" by (simp add: trace_key_def open_ms_key_def)
  have b: "bloom_sound ?E" using demo_bloom by (simp add: bloom_sound_def)
  have "e = Some \<lparr>first_seen_ms = 5, last_modified_ms = 9, data = Some (JStr ''do'')\<rparr>"
    using put_then_get [OF demo_store_ok b t _ _ _ put g]
    by (simp add: demo_store_def pack_def demo_env_def)
  with put g show ?thesis by blast
qed

text \<open>C8: The rotation happens only when the current environment is more than ten minutes old. Then all its
  records and all its marked traces are found in \<open>last\<close>, \<open>current\<close> is empty, the records of the
  old \<open>last\<close> are gone, and the number of entries moved is returned.\<close>

theorem rotation_moves_current:
  assumes "store_ok st"
    and "tm_transaction_store_delete_old_transactions now now1 now2 st = (n, st')"
  shows "if current_open_ms st < now \<and> 600000 < now - current_open_ms st
         then n = card (dom (current_env st ts_dbi)) \<and>
              (\<forall>k. k \<noteq> open_ms_key \<longrightarrow> last_env st' ts_dbi k = current_env st ts_dbi k \<and>
                   current_env st' ts_dbi k = None) \<and>
              last_env st' jaeger_dbi = current_env st jaeger_dbi \<and> current_env st' jaeger_dbi = Map.empty \<and>
              store_ok st'
         else n = 0 \<and> st' = st"
proof (cases "current_open_ms st < now \<and> 600000 < now - current_open_ms st")
  case True
  have o: "fst (open_environment t env) jaeger_dbi = env jaeger_dbi"
    "k \<noteq> open_ms_key \<Longrightarrow> fst (open_environment t env) ts_dbi k = env ts_dbi k" for t env k
    by (auto simp: open_environment_def split: option.split)
  show ?thesis using True assms store_ok_rotate [OF assms(2,1)]
    by (auto simp: tm_transaction_store_delete_old_transactions_def tm_transaction_store_open_environments_def
        Let_def split_beta o store_ok_def)
next
  case False
  then show ?thesis using assms(2) by (auto simp: tm_transaction_store_delete_old_transactions_def)
qed

theorem rotation_moves_current_witness:
  "\<exists>n st'. tm_transaction_store_delete_old_transactions 600001 600002 600003 demo_store = (n, st') \<and>
      n = 0 \<and> store_ok st'"
proof -
  obtain n st' where r: "tm_transaction_store_delete_old_transactions 600001 600002 600003 demo_store = (n, st')"
    by (cases "tm_transaction_store_delete_old_transactions 600001 600002 600003 demo_store")
  from rotation_moves_current [OF demo_store_ok r] r show ?thesis by (simp add: demo_store_def)
qed

text \<open>C35: When the records whose longer key starts with the trace id can be read and there are fewer than
  1000 of them, \<open>get_children\<close> returns the documents of exactly these records, each once, in the
  order of their keys; a record whose text is no JSON is passed over. In a table of ids of one length
  and of \<open>id-child\<close> keys these records are the children \<open>tid-child\<close> of the trace.\<close>

theorem get_children_complete:
  assumes "finite (dom (env dbi))"
    and "\<forall>k b. env dbi k = Some b \<and> is_child tid k \<longrightarrow>
           child_ok b \<and> unpack E (root_magic b) (child_data b) \<noteq> None"
    and "card {k \<in> dom (env dbi). is_child tid k} < 1000"
  shows "\<exists>ks. tm_transaction_store_get_children E env dbi tid =
                Some (List.map_filter (\<lambda>k. child_doc E (the (env dbi k))) ks) \<and>
           sorted ks \<and> distinct ks \<and> set ks = {k \<in> dom (env dbi). is_child tid k} \<and>
           ((\<forall>k \<in> dom (env dbi). \<exists>t c. length t = length tid \<and> k \<in> {t, t @ ''-'' @ c}) \<longrightarrow>
              set ks = {k \<in> dom (env dbi). \<exists>c. k = tid @ ''-'' @ c})"
proof -
  let ?ks = "filter (is_child tid) (keys_from env dbi tid)"
  have set_ks: "set ?ks = {k \<in> dom (env dbi). is_child tid k}"
    using keys_from_set(1) [of env dbi tid] assms(1) prefix_le by (auto simp: is_child_def)
  have len: "length ?ks < 1000"
    using assms(3) set_ks distinct_card [of ?ks] keys_from_set(3) by (metis distinct_filter)
  have "tm_transaction_store_get_children E env dbi tid =
          Some ([] @ List.map_filter (\<lambda>k. child_doc E (the (env dbi k))) ?ks)"
    unfolding tm_transaction_store_get_children_def
    using keys_from_set [of env dbi tid] assms(1,2) len by (intro children_loop_all) auto
  moreover have "sorted ?ks" "distinct ?ks"
    using keys_from_set(2,3) [of env dbi tid] by (simp_all add: sorted_wrt_filter)
  moreover have "set ?ks = {k \<in> dom (env dbi). \<exists>c. k = tid @ ''-'' @ c}"
    if "\<forall>k \<in> dom (env dbi). \<exists>t c. length t = length tid \<and> k \<in> {t, t @ ''-'' @ c}"
    unfolding set_ks by (intro Collect_cong conj_cong refl is_child_of_ids) (use that in blast)
  ultimately show ?thesis using set_ks by (intro exI [of _ ?ks]) auto
qed

theorem get_children_complete_witness:
  "tm_transaction_store_get_children demo_env
     (env_put 2 ''ab-2'' (stored_child MAGIC_WORD_V4 5 600 ''two'')
       (env_put 2 ''ab-1'' (stored_child MAGIC_WORD_V4 5 600 ''one'') (\<lambda>_. Map.empty))) 2 ''ab'' =
   Some [JStr ''one'', JStr ''two'']"
proof -
  let ?one = "stored_child MAGIC_WORD_V4 5 600 ''one''" and ?two = "stored_child MAGIC_WORD_V4 5 600 ''two''"
  let ?env = "env_put 2 ''ab-2'' ?two (env_put 2 ''ab-1'' ?one (\<lambda>_. Map.empty))"
  have b: "child_ok ?one" "unpack demo_env (root_magic ?one) (child_data ?one) = Some ''one''"
    "child_ok ?two" "unpack demo_env (root_magic ?two) (child_data ?two) = Some ''two''"
    by (simp_all add: stored_child_fields MAGIC_WORD_V4_def MAGIC_WORD_V4_COMPRESS_def unpack_def)
  have d: "child_doc demo_env ?one = Some (JStr ''one'')" "child_doc demo_env ?two = Some (JStr ''two'')"
    using b by (simp_all add: child_doc_def) (simp_all add: demo_env_def)
  have e: "?env 2 = [''ab-1'' \<mapsto> ?one, ''ab-2'' \<mapsto> ?two]" by simp
  have k: "{k \<in> dom (?env 2). is_child ''ab'' k} = {''ab-1'', ''ab-2''}" unfolding e by (auto simp: is_child_def)
  have r: "\<forall>k b. ?env 2 k = Some b \<and> is_child ''ab'' k \<longrightarrow>
      child_ok b \<and> unpack demo_env (root_magic b) (child_data b) \<noteq> None"
    unfolding e using b by (auto split: if_splits)
  have fin: "finite (dom (?env 2))" "card {k \<in> dom (?env 2). is_child ''ab'' k} < 1000"
    unfolding k by (simp_all add: e)
  obtain ks where ks: "tm_transaction_store_get_children demo_env ?env 2 ''ab'' =
        Some (List.map_filter (\<lambda>k. child_doc demo_env (the (?env 2 k))) ks)"
      "sorted ks" "distinct ks" "set ks = {''ab-1'', ''ab-2''}"
    using get_children_complete [where env = ?env and dbi = 2 and tid = "''ab''" and E = demo_env, OF fin(1) r fin(2)]
    unfolding k by blast
  have "ks = [''ab-1'', ''ab-2'']"
    by (rule sorted_distinct_set_unique) (use ks in simp_all)
  then show ?thesis using ks(1) d by (simp add: e List.map_filter_simps)
qed

end
