(* ===== verification/TM_Path.thy ===== *)
theory TM_Path
  imports TM_World
begin

text \<open>
  URL paths: \<open>tm_kafka_produce\<close> (tm_kafka.c), and from tm_utils.c the filter \<open>is_path_ok\<close> and
  \<open>genericize_path\<close> with the regular expressions, the squasher's expressions and the chopper it
  applies; \<open>process_url_message\<close> and \<open>process_regex_message\<close> feed the squasher and its result
  back (in \<open>TM_Handlers\<close>).
\<close>

section \<open>Producing to Kafka\<close>

text \<open>
  \<open>tm_kafka_produce\<close> retries while the queue is full, for ever if it stays full; then the result
  is \<open>None\<close>.
\<close>

partial_function (option) tm_kafka_produce ::
  "string \<Rightarrow> string \<Rightarrow> string \<Rightarrow> ('d, 'h) world \<Rightarrow> (bool \<times> ('d, 'h) world) option" where
  "tm_kafka_produce topic payload key w =
     (case produce_results w (produce_pos w) of
        Produce_ok \<Rightarrow>
          Some (True, w\<lparr>produce_pos := produce_pos w + 1, produced := (topic, payload, key) # produced w\<rparr>)
      | Produce_queue_full \<Rightarrow>
          tm_kafka_produce topic payload key (w\<lparr>produce_pos := produce_pos w + 1\<rparr>)
      | Produce_error \<Rightarrow> Some (False, w\<lparr>produce_pos := produce_pos w + 1\<rparr>))"

lemma produce_from:
  assumes "\<forall>i < n. produce_results w (produce_pos w + i) = Produce_queue_full"
  shows "tm_kafka_produce topic payload key w =
           tm_kafka_produce topic payload key (w\<lparr>produce_pos := produce_pos w + n\<rparr>)"
  using assms
proof (induction n arbitrary: w)
  case (Suc n)
  have "tm_kafka_produce topic payload key w =
          tm_kafka_produce topic payload key (w\<lparr>produce_pos := produce_pos w + 1\<rparr>)"
    using Suc.prems [rule_format, of 0] by (subst tm_kafka_produce.simps) simp
  also have "\<dots> = tm_kafka_produce topic payload key
                    ((w\<lparr>produce_pos := produce_pos w + 1\<rparr>)\<lparr>produce_pos := produce_pos w + 1 + n\<rparr>)"
    using Suc.IH [of "w\<lparr>produce_pos := produce_pos w + 1\<rparr>"] Suc.prems by fastforce
  finally show ?case by simp
qed simp

lemma produce_result:
  assumes "\<forall>i < n. produce_results w (produce_pos w + i) = Produce_queue_full"
    and "produce_results w (produce_pos w + n) \<noteq> Produce_queue_full"
  shows "tm_kafka_produce topic payload key w =
     Some (let ok = (produce_results w (produce_pos w + n) = Produce_ok) in
       (ok, w\<lparr>produce_pos := produce_pos w + n + 1,
              produced := (if ok then (topic, payload, key) # produced w else produced w)\<rparr>))"
  using assms(2)
  by (subst produce_from [OF assms(1)], subst tm_kafka_produce.simps)
     (auto simp: Let_def split: produce_result.splits)

lemma produce_some:
  assumes "\<not> (\<forall>i. produce_results w (produce_pos w + i) = Produce_queue_full)"
  shows "tm_kafka_produce topic payload key w \<noteq> None"
proof -
  define k where "k = (LEAST n. produce_results w (produce_pos w + n) \<noteq> Produce_queue_full)"
  have k: "produce_results w (produce_pos w + k) \<noteq> Produce_queue_full"
    unfolding k_def using assms by (metis (mono_tags, lifting) LeastI_ex)
  have "\<forall>i < k. produce_results w (produce_pos w + i) = Produce_queue_full"
    unfolding k_def using not_less_Least by blast
  from produce_result [OF this k] show ?thesis by simp
qed

lemma produce_full:
  assumes "\<forall>i. produce_results w (produce_pos w + i) = Produce_queue_full"
  shows "tm_kafka_produce topic payload key w = None"
proof (rule ccontr)
  assume "tm_kafka_produce topic payload key w \<noteq> None"
  then obtain r where r: "tm_kafka_produce topic payload key w = Some r" by blast
  have "(\<lambda>topic payload key w r. \<exists>i. produce_results w (produce_pos w + i) \<noteq> Produce_queue_full) topic payload key w r"
  proof (rule tm_kafka_produce.raw_induct [OF _ r], goal_cases)
    case (1 f topic payload key w y)
    show ?case
    proof (cases "produce_results w (produce_pos w)")
      case Produce_queue_full
      then show ?thesis using 1 by (fastforce intro: exI [where x = "Suc _"])
    qed (auto intro: exI [where x = 0])
  qed
  then show False using assms by blast
qed


section \<open>Paths that are not tracked\<close>

definition bad_parts :: "string list" where
  "bad_parts = [''..'', ''//'', ''.git'', ''.ssh'', ''.svn'', ''.vscode'', ''.htaccess'', ''etc'',
                ''php'', ''<script>'']"

definition is_path_ok :: "('j, 'd, 'h) env \<Rightarrow> string option \<Rightarrow> bool" where
  "is_path_ok E str =
     (case str of
        None \<Rightarrow> True
      | Some s \<Rightarrow>
          (case url_unescape E s of
             None \<Rightarrow> False
           | Some decoded \<Rightarrow> list_all (\<lambda>bad. strstr (cstr decoded) bad = None) bad_parts))"

section \<open>Replacing a capture\<close>

text \<open>
  The \<open>char\<close> arrays \<open>copy\<close> and \<open>temp\<close> (4096 bytes each) are lists of bytes; reading or writing
  outside of one is \<open>None\<close>. An array starts with whatever was on the stack, so \<open>temp\<close> and the bytes
  of \<open>copy\<close> behind its text are arguments.
\<close>

definition bytes_at :: "string \<Rightarrow> nat \<Rightarrow> nat \<Rightarrow> string ub" where
  "bytes_at src p n = (if p + n \<le> length src then Some (take n (drop p src)) else None)"

definition memcpy :: "string \<Rightarrow> nat \<Rightarrow> string \<Rightarrow> string ub" where
  "memcpy dst p bytes =
     (if p + length bytes \<le> length dst then Some (take p dst @ bytes @ drop (p + length bytes) dst) else None)"

definition strcpy :: "string \<Rightarrow> string \<Rightarrow> string ub" where
  "strcpy dst src = (if NUL \<in> set src then memcpy dst 0 (cstr src @ [NUL]) else None)"

text \<open>
  One match replaces the first capture; the result is the new content of \<open>temp\<close> and of \<open>copy\<close>. Behind
  the capture \<open>*len - (ovector[3] - ovector[2])\<close> bytes are copied, \<open>ovector[2]\<close> more than the text has
  there. A failed \<open>assert\<close>, and a pattern without a set capture, whose \<open>ovector\<close> entries are unset,
  are \<open>None\<close>.
\<close>

definition replace_capture ::
  "string \<Rightarrow> string \<Rightarrow> nat \<Rightarrow> string \<Rightarrow> pcre_groups \<Rightarrow> (string \<times> string) ub" where
  "replace_capture temp copy len replace gs =
     (case gs of
        _ # Some (a, b) # _ \<Rightarrow>
          if \<not> (a \<le> b \<and> b \<le> len) then None
          else if \<not> a < length temp then None
          else do {
            before \<leftarrow> bytes_at copy 0 a;
            temp \<leftarrow> memcpy temp 0 before;
            let t = a;
            if \<not> length replace < length temp - t then None
            else do {
              temp \<leftarrow> memcpy temp t replace;
              let t = t + length replace;
              let copy_len = len - (b - a);
              if \<not> copy_len < length temp - t then None
              else do {
                behind \<leftarrow> bytes_at copy b copy_len;
                temp \<leftarrow> memcpy temp t behind;
                let t = t + copy_len;
                temp \<leftarrow> memcpy temp t [NUL];
                copy \<leftarrow> strcpy copy temp;
                Some (temp, copy) } } }
      | _ \<Rightarrow> None)"

text \<open>
  \<open>left\<close> is the number of attempts that remain; the result is the return value, the buffer and
  \<open>*len\<close>.
\<close>

fun apply_regex_from ::
  "('j, 'd, 'h) env \<Rightarrow> pcre_matcher \<Rightarrow> nat \<Rightarrow> int \<Rightarrow> string \<Rightarrow> string \<Rightarrow> nat \<Rightarrow> (int \<times> string \<times> nat) ub" where
  "apply_regex_from E m 0 rval temp copy len = Some (rval, copy, len)"
| "apply_regex_from E m (Suc left) rval temp copy len =
     (case pcre_exec E (match m) (take len copy) of
        None \<Rightarrow> Some (rval, copy, len)
      | Some gs \<Rightarrow>
          (case replace_capture temp copy len (replacement m) gs of
             None \<Rightarrow> None
           | Some (temp', copy') \<Rightarrow>
               apply_regex_from E m left (if rval \<le> 0 then int (length gs) else rval)
                 temp' copy' (length (cstr copy'))))"

text \<open>
  The callers see the text in the buffer. The bytes behind it are zeros here; \<open>apply_regex_any_bytes\<close>
  shows that no other bytes, in \<open>copy\<close> or in \<open>temp\<close>, give another result.
\<close>

definition apply_regex ::
  "('j, 'd, 'h) env \<Rightarrow> pcre_matcher \<Rightarrow> string \<Rightarrow> nat \<Rightarrow> (int \<times> string) ub" where
  "apply_regex E m copy attempts =
     map_option (\<lambda>(r, buf, len). (r, take len buf))
       (apply_regex_from E m (max 1 attempts) (- 1) (replicate 4096 NUL)
          (copy @ replicate (4096 - length copy) NUL) (length copy))"

lemma cstr_to_NUL [simp]: "cstr (x @ NUL # y) = cstr x"
  by (induction x) (auto simp: cstr_def)

text \<open>When one replacement stays inside both arrays, and the text it leaves.\<close>

definition fits :: "string \<Rightarrow> nat \<Rightarrow> string \<Rightarrow> nat \<Rightarrow> nat \<Rightarrow> bool" where
  "fits replace sz s a b =
     (a \<le> b \<and> b \<le> length s \<and> a + length s \<le> sz \<and> 2 * a + length replace + (length s - b) < sz)"

lemma take_behind:
  assumes "b \<le> length s" "a \<le> b"
  shows "\<exists>y. take (length s - (b - a)) (drop b (s @ NUL # rest)) @ [NUL] = drop b s @ NUL # y"
proof (cases a)
  case 0
  then show ?thesis using assms by simp
next
  case (Suc a')
  have "length s - (b - a) - (length s - b) = Suc a'" using assms Suc by simp
  then show ?thesis using assms by (simp add: min_def)
qed

lemma memcpy_behind:
  "length x = p \<Longrightarrow> length bytes \<le> length y \<Longrightarrow> memcpy (x @ y) p bytes = Some (x @ bytes @ drop (length bytes) y)"
  by (auto simp: memcpy_def)

lemma strcpy_NUL:
  assumes "length (x @ NUL # y) = length dst"
  shows "\<exists>rest. strcpy dst (x @ NUL # y) = Some (cstr x @ NUL # rest) \<and> length (cstr x @ NUL # rest) = length dst"
  using assms length_cstr_le [of x] by (auto simp: strcpy_def memcpy_def)

lemma replace_capture_fits:
  assumes "length temp = N" "length (s @ NUL # rest) = N" "fits replace N s a b"
  shows "\<exists>temp' rest'. replace_capture temp (s @ NUL # rest) (length s) replace (g # Some (a, b) # gs) =
             Some (temp', cstr (take a s @ replace @ drop b s) @ NUL # rest') \<and>
           length temp' = N \<and> length (cstr (take a s @ replace @ drop b s) @ NUL # rest') = N"
proof -
  let ?n = "length s - (b - a)"
  have ab: "a \<le> b" "b \<le> length s" "a + length s \<le> N" "2 * a + length replace + (length s - b) < N"
    using assms(3) by (auto simp: fits_def)
  obtain y where y: "take ?n (drop b (s @ NUL # rest)) @ [NUL] = drop b s @ NUL # y"
    using take_behind [OF ab(2,1)] by blast
  let ?behind = "take ?n (drop b (s @ NUL # rest))"
  let ?temp = "take a s @ replace @ ?behind @ [NUL] @ drop (Suc (a + length replace + ?n)) temp"
  have n: "length ?behind = ?n" using assms(2) ab by simp
  have t: "?temp = (take a s @ replace @ drop b s) @ NUL # y @ drop (Suc (a + length replace + ?n)) temp"
    using y by (metis append.assoc append_Cons)
  have "length ?temp = N" using n assms(1) ab by simp
  then obtain rest' where r: "strcpy (s @ NUL # rest) ?temp = Some (cstr (take a s @ replace @ drop b s) @ NUL # rest')"
      "length (cstr (take a s @ replace @ drop b s) @ NUL # rest') = N"
    using strcpy_NUL [of "take a s @ replace @ drop b s" _ "s @ NUL # rest"] assms(2) unfolding t by metis
  have l: "length (take a s) = a" using ab by simp
  have m1: "bytes_at (s @ NUL # rest) 0 a = Some (take a s)" using ab by (simp add: bytes_at_def)
  have m2: "memcpy temp 0 (take a s) = Some (take a s @ drop a temp)"
    using memcpy_behind [of "[]" 0 "take a s" temp] ab assms(1) by simp
  have m3: "memcpy (take a s @ drop a temp) a replace = Some ((take a s @ replace) @ drop (a + length replace) temp)"
    using memcpy_behind [of "take a s" a replace "drop a temp"] l ab assms(1) by (simp add: add.commute)
  have m4: "bytes_at (s @ NUL # rest) b ?n = Some ?behind" using ab assms(2) by (simp add: bytes_at_def)
  have m5: "memcpy ((take a s @ replace) @ drop (a + length replace) temp) (a + length replace) ?behind =
      Some ((take a s @ replace @ ?behind) @ drop (a + length replace + ?n) temp)"
    using memcpy_behind [of "take a s @ replace" "a + length replace" ?behind "drop (a + length replace) temp"] n l ab assms(1)
    by (simp add: add_ac)
  have m6: "memcpy (((take a s @ replace) @ ?behind) @ drop (a + length replace + ?n) temp) (a + length replace + ?n) [NUL] = Some ?temp"
    using memcpy_behind [of "take a s @ replace @ ?behind" "a + length replace + ?n" "[NUL]" "drop (a + length replace + ?n) temp"] n l ab assms(1)
    by (simp add: add_ac)
  have l': "length (take a s @ drop a temp) = N"
      "length ((take a s @ replace) @ drop (a + length replace) temp) = N"
    using ab l assms(1) by simp_all
  have g: "a < N" "length replace < N - a" "?n < N - (a + length replace)" using ab assms(1) by auto
  have "replace_capture temp (s @ NUL # rest) (length s) replace (g # Some (a, b) # gs) =
          map_option (Pair ?temp) (strcpy (s @ NUL # rest) ?temp)"
    unfolding replace_capture_def Let_def
    using r(1)
    by (simp only: list.case option.case prod.case m1 m2 m3 m4 m5 m6 append_assoc [symmetric] Option.bind.simps
        ab(1,2) g l' assms(1) simp_thms if_False if_True map_option_case)
  then show ?thesis using r \<open>length ?temp = N\<close> by auto
qed

lemma replace_capture_misfit:
  assumes "length temp = N" "length (s @ NUL # rest) = N" "\<not> fits replace N s a b"
  shows "replace_capture temp (s @ NUL # rest) (length s) replace (g # Some (a, b) # gs) = None"
  using assms by (auto simp: replace_capture_def fits_def bytes_at_def memcpy_def Let_def bind_eq_None_conv)

lemma replace_capture_no_capture:
  "(\<nexists>g a b gs'. gs = g # Some (a, b) # gs') \<Longrightarrow> replace_capture temp copy len replace gs = None"
  by (auto simp: replace_capture_def split: list.splits option.splits)

lemma replace_capture_any_bytes:
  assumes "length temp = N" "length (s @ NUL # rest) = N" "length temp1 = N" "length (s @ NUL # rest1) = N"
  obtains (None) "replace_capture temp (s @ NUL # rest) (length s) replace gs = None"
      "replace_capture temp1 (s @ NUL # rest1) (length s) replace gs = None"
    | (Some) s' temp' rest' temp1' rest1' where
      "replace_capture temp (s @ NUL # rest) (length s) replace gs = Some (temp', s' @ NUL # rest')"
      "replace_capture temp1 (s @ NUL # rest1) (length s) replace gs = Some (temp1', s' @ NUL # rest1')"
      "cstr s' = s'" "length temp' = N" "length (s' @ NUL # rest') = N" "length temp1' = N" "length (s' @ NUL # rest1') = N"
proof (cases "\<exists>g a b gs'. gs = g # Some (a, b) # gs' \<and> fits replace N s a b")
  case True
  then show ?thesis
    using Some replace_capture_fits [OF assms(1,2)] replace_capture_fits [OF assms(3,4)]
      cstr_no_NUL [OF NUL_notin_cstr] by metis
next
  case False
  then show ?thesis
    using None replace_capture_misfit [OF assms(1,2)] replace_capture_misfit [OF assms(3,4)]
      replace_capture_no_capture by metis
qed

lemma apply_regex_from_any_bytes:
  assumes "length temp = N" "length (s @ NUL # rest) = N" "length temp1 = N" "length (s @ NUL # rest1) = N"
  shows "map_option (\<lambda>(r, buf, len). (r, take len buf)) (apply_regex_from E m k rval temp (s @ NUL # rest) (length s)) =
         map_option (\<lambda>(r, buf, len). (r, take len buf)) (apply_regex_from E m k rval temp1 (s @ NUL # rest1) (length s))"
  using assms
proof (induction k arbitrary: rval s temp rest temp1 rest1)
  case (Suc k)
  show ?case
  proof (cases "pcre_exec E (match m) s")
    case (Some gs)
    from Suc.prems show ?thesis
    proof (rule replace_capture_any_bytes [where gs = gs and replace = "replacement m"])
      fix s' temp' rest' temp1' rest1'
      assume "replace_capture temp (s @ NUL # rest) (length s) (replacement m) gs = Some (temp', s' @ NUL # rest')"
        "replace_capture temp1 (s @ NUL # rest1) (length s) (replacement m) gs = Some (temp1', s' @ NUL # rest1')"
        "cstr s' = s'" "length temp' = N" "length (s' @ NUL # rest') = N" "length temp1' = N" "length (s' @ NUL # rest1') = N"
      then show ?thesis using Some Suc.IH [of temp' s' rest' temp1' rest1'] by simp
    qed (use Some in simp)
  qed simp
qed simp

lemma apply_regex_any_bytes:
  assumes "length temp = 4096" "length (s @ NUL # rest) = 4096"
  shows "map_option (\<lambda>(r, buf, len). (r, take len buf))
             (apply_regex_from E m (max 1 attempts) (- 1) temp (s @ NUL # rest) (length s)) =
           apply_regex E m s attempts"
proof -
  have "replicate (4096 - length s) NUL = NUL # replicate (4095 - length s) NUL"
    using assms(2) by (simp flip: replicate_Suc)
  then show ?thesis unfolding apply_regex_def
    using apply_regex_from_any_bytes [OF assms, of "replicate 4096 NUL" "replicate (4095 - length s) NUL"] assms(2)
    by simp
qed

lemma apply_regex_unmatched [simp]:
  "pcre_exec E (match m) s = None \<Longrightarrow> apply_regex E m s attempts = Some (- 1, s)"
  by (cases "max 1 attempts") (auto simp: apply_regex_def)

text \<open>The text after at most \<open>k\<close> replacements of the first capture; it stops where nothing matches.\<close>

fun replaced :: "('j, 'd, 'h) env \<Rightarrow> pcre_matcher \<Rightarrow> nat \<Rightarrow> string \<Rightarrow> string" where
  "replaced E m 0 s = s"
| "replaced E m (Suc k) s =
     (case pcre_exec E (match m) s of
        Some (_ # Some (a, b) # _) \<Rightarrow> replaced E m k (take a s @ replacement m @ drop b s)
      | _ \<Rightarrow> s)"

definition match_fits :: "('j, 'd, 'h) env \<Rightarrow> pcre_matcher \<Rightarrow> string \<Rightarrow> bool" where
  "match_fits E m s =
     (case pcre_exec E (match m) s of
        None \<Rightarrow> True
      | Some (_ # Some (a, b) # _) \<Rightarrow> fits (replacement m) 4096 s a b
      | _ \<Rightarrow> False)"

lemma apply_regex_from_replaced:
  assumes "\<forall>i < k. match_fits E m (replaced E m i s)" "NUL \<notin> set s" "NUL \<notin> set (replacement m)"
    and "length temp = 4096" "length (s @ NUL # rest) = 4096"
  shows "\<exists>rest'. apply_regex_from E m k rval temp (s @ NUL # rest) (length s) =
             Some (if 0 < rval then rval
                   else if k = 0 then rval
                   else case pcre_exec E (match m) s of None \<Rightarrow> rval | Some gs \<Rightarrow> int (length gs),
                   replaced E m k s @ NUL # rest', length (replaced E m k s)) \<and>
           length (replaced E m k s @ NUL # rest') = 4096"
  using assms
proof (induction k arbitrary: s temp rest rval)
  case (Suc k)
  show ?case
  proof (cases "pcre_exec E (match m) s")
    case (Some gs)
    have mf: "match_fits E m s" using Suc.prems(1) [rule_format, of 0] by simp
    then obtain g a b gs' where gs: "gs = g # Some (a, b) # gs'" and f: "fits (replacement m) 4096 s a b"
      by (auto simp: match_fits_def Some split: list.splits option.splits)
    let ?s = "take a s @ replacement m @ drop b s"
    have n: "NUL \<notin> set ?s" using Suc.prems(2,3) by (auto dest: in_set_takeD in_set_dropD)
    obtain temp' rest' where r: "replace_capture temp (s @ NUL # rest) (length s) (replacement m) gs =
        Some (temp', ?s @ NUL # rest')" "length temp' = 4096" "length (?s @ NUL # rest') = 4096"
      using replace_capture_fits [OF Suc.prems(4,5) f, of g gs'] n unfolding gs by (metis cstr_no_NUL)
    have "\<forall>i < k. match_fits E m (replaced E m i ?s)"
      using Suc.prems(1) by (auto simp: Some gs dest: spec [where x = "Suc _"])
    note IH = Suc.IH [OF this n Suc.prems(3) r(2,3)]
    have l: "length (cstr (?s @ NUL # rest')) = length ?s"
      by (simp only: cstr_to_NUL cstr_no_NUL [OF n])
    let ?rv = "if rval \<le> 0 then int (length gs) else rval"
    have "0 < ?rv" by (simp add: gs)
    then obtain rest'' where
      "apply_regex_from E m k ?rv temp' (?s @ NUL # rest') (length ?s) =
         Some (?rv, replaced E m k ?s @ NUL # rest'', length (replaced E m k ?s))"
      "length (replaced E m k ?s @ NUL # rest'') = 4096"
      using IH [of ?rv] by (auto simp only: if_True)
    moreover have "apply_regex_from E m (Suc k) rval temp (s @ NUL # rest) (length s) =
        apply_regex_from E m k ?rv temp' (?s @ NUL # rest') (length ?s)"
      using Some r(1) l by simp
    moreover have "replaced E m (Suc k) s = replaced E m k ?s" using Some gs by simp
    ultimately show ?thesis using Some by (intro exI [of _ rest'']) auto
  qed (use Suc.prems in simp)
qed simp

section \<open>Generic paths\<close>

definition send_url_to_kafka ::
  "string \<Rightarrow> string \<Rightarrow> ('d, 'h) world \<Rightarrow> (bool \<times> ('d, 'h) world) ub" where
  "send_url_to_kafka service_name url w =
     (if url = [] then Some (True, w)
      else tm_kafka_produce ''tracemate_urls''
             (''{\"processor\":{\"event\": \"url\"},\"context\":{\"service\":{\"name\": \"'' @ service_name @
              ''\"}},\"url\":\"'' @ url @ ''\"}'')
             service_name w)"

fun try_regexes ::
  "('j, 'd, 'h) env \<Rightarrow> (string \<rightharpoonup> pcre_matcher) \<Rightarrow> string list \<Rightarrow> string \<Rightarrow> (bool \<times> string) ub" where
  "try_regexes E t [] url = Some (False, url)"
| "try_regexes E t (k # ks) url =
     (case t k of
        None \<Rightarrow> None
      | Some m \<Rightarrow>
          (case apply_regex E m url 1 of
             None \<Rightarrow> None
           | Some (r, url') \<Rightarrow> if 0 < r then Some (True, url') else try_regexes E t ks url'))"

definition apply_path_squasher ::
  "('j, 'd, 'h) env \<Rightarrow> string \<Rightarrow> ('d, 'h) team_data \<Rightarrow> string \<Rightarrow> (bool \<times> string) ub" where
  "apply_path_squasher E service_name td url =
     (case squash_regexes td service_name of
        None \<Rightarrow> Some (False, url)
      | Some t \<Rightarrow> try_regexes E t (hash_order E (dom t)) url)"

fun apply_matchers ::
  "('j, 'd, 'h) env \<Rightarrow> pcre_matcher list \<Rightarrow> bool \<Rightarrow> string \<Rightarrow> (bool \<times> string) ub" where
  "apply_matchers E [] squash copy = Some (squash, copy)"
| "apply_matchers E (m # ms) squash copy =
     (case apply_regex E m copy 3 of
        None \<Rightarrow> None
      | Some (r, copy') \<Rightarrow> apply_matchers E ms (squash \<and> \<not> 0 < r) copy')"

text \<open>\<open>init_path_regex\<close> compiles this pattern; \<open>chopper w\<close> says that it succeeded.\<close>

definition chopper_matcher :: pcre_matcher where
  "chopper_matcher =
     \<lparr>match = concat (map (\<lambda>c. if c = CHR ''/'' then [CHR 0x5C, CHR ''/''] else [c])
                ''^/[^/]+/[^/]+/[^/]+(/.*)$''),
      replacement = ''/{...}''\<rparr>"

definition init_path_regex :: "('j, 'd, 'h) env \<Rightarrow> ('d, 'h) world \<Rightarrow> ('d, 'h) world" where
  "init_path_regex E w =
     (if pcre_compile E (match chopper_matcher) then w\<lparr>chopper := True\<rparr> else w)"

definition chop :: "('j, 'd, 'h) env \<Rightarrow> string \<Rightarrow> string ub" where
  "chop E copy =
     (case apply_regex E chopper_matcher copy 1 of
        None \<Rightarrow> None
      | Some (r, copy') \<Rightarrow>
          Some (if r \<le> 0 \<and> 35 < length copy' then take 32 copy' @ ''...'' else copy'))"

text \<open>
  The end of \<open>genericize_path\<close>: cut at the first \<open>?\<close>, then drop a slash at position \<open>len - 1\<close>.
  With \<open>len = 0\<close> that position is before the buffer.
\<close>

definition finish_path :: "string \<Rightarrow> string ub" where
  "finish_path copy =
     (let copy = (case strchr (cstr copy) (CHR ''?'') of Some p \<Rightarrow> take p copy | None \<Rightarrow> copy)
      in if copy = [] then None
         else Some (cstr (if last copy = CHR ''/'' then butlast copy else copy)))"

definition genericize_path ::
  "('j, 'd, 'h) env \<Rightarrow> string \<Rightarrow> string option \<Rightarrow> string \<Rightarrow> ('d, 'h) world \<Rightarrow> (string \<times> ('d, 'h) world) ub" where
  "genericize_path E service_name str team w =
     (case str of
        None \<Rightarrow> Some (''/'', w)
      | Some s \<Rightarrow> do {
          td \<leftarrow> the_team w team;
          decoded \<leftarrow> url_unescape E s;
          let len = length decoded;
          copy \<leftarrow> if len < 4096 then Some (cstr decoded @ replicate (len - length (cstr decoded)) NUL) else None;
          (squash, copy) \<leftarrow> apply_matchers E (matcher td) True copy;
          (squash, copy, w) \<leftarrow>
            if squash then do {
              (hit, copy) \<leftarrow> apply_path_squasher E service_name td copy;
              if hit then Some (False, copy, w)
              else do { (ok, w) \<leftarrow> send_url_to_kafka service_name s w; Some (True, copy, w) } }
            else Some (False, copy, w);
          copy \<leftarrow> if squash \<and> chopper w then chop E copy else Some copy;
          result \<leftarrow> finish_path copy;
          Some (result, w) })"

section \<open>What publishing leaves alone\<close>

lemma produce_same:
  assumes "tm_kafka_produce topic payload key w = Some (ok, w')"
  shows "teams w' = teams w \<and> same_process w w'"
proof -
  have "(\<lambda>topic payload key w r. teams (snd r) = teams w \<and> same_process w (snd r)) topic payload key w (ok, w')"
    by (rule tm_kafka_produce.raw_induct [OF _ assms])
       (fastforce split: produce_result.splits simp: same_process_def)
  then show ?thesis by simp
qed

lemma produce_form:
  assumes "tm_kafka_produce topic payload key w = Some (ok, w')"
  shows "\<exists>n. w' = w\<lparr>produce_pos := n, produced := (if ok then (topic, payload, key) # produced w else produced w)\<rparr>"
proof -
  have "(\<lambda>topic payload key w r. \<exists>n. snd r = w\<lparr>produce_pos := n,
      produced := (if fst r then (topic, payload, key) # produced w else produced w)\<rparr>) topic payload key w (ok, w')"
    by (rule tm_kafka_produce.raw_induct [OF _ assms])
       (fastforce split: produce_result.splits)
  then show ?thesis by simp
qed

lemma genericize_path_same:
  assumes "genericize_path E service str team w = Some (p, w')"
  shows "teams w' = teams w \<and> same_process w w'"
proof -
  have s: "send_url_to_kafka service s w = Some (ok, w1) \<Longrightarrow> teams w1 = teams w \<and> same_process w w1" for s ok w1
    by (auto simp: send_url_to_kafka_def split: if_splits dest: produce_same)
  show ?thesis using assms
    by (cases str) (auto simp: genericize_path_def bind_eq_Some_conv Let_def split: if_splits dest!: s)
qed

section \<open>Expressions that travel through Kafka\<close>

text \<open>
  A published expression is put into a JSON document without escaping; the reader turns \<open>\/\<close>
  into a slash, and \<open>escape_regex\<close> puts the backslashes back.
\<close>

definition plain_char :: "char \<Rightarrow> bool" where
  "plain_char c = (c \<noteq> CHR 0x5C \<and> c \<noteq> CHR ''\"'' \<and> \<not> c < CHR '' '')"

lemma escape_slash_simps:
  "escape_slash (CHR ''/'') = [CHR 0x5C, CHR ''/'']" "c \<noteq> CHR ''/'' \<Longrightarrow> escape_slash c = [c]"
  by (simp_all add: escape_slash_def)

lemma plain_literals: "\<forall>c \<in> set ''/[^]+(.*)''. plain_char c"
proof -
  have "list_all plain_char ''/[^]+(.*)''" by code_simp
  then show ?thesis by (simp only: list_all_iff)
qed

lemma json_unescape_slashes:
  "\<forall>c \<in> set t. plain_char c \<Longrightarrow> json_unescape (concat (map escape_slash t)) = Some t"
proof (induction t)
  case (Cons c t)
  then have IH: "json_unescape (concat (map escape_slash t)) = Some t" and c: "plain_char c" by auto
  show ?case
  proof (cases "c = CHR ''/''")
    case True
    then show ?thesis using IH by (simp add: escape_slash_simps json_unescape2_def)
  next
    case False
    then show ?thesis using IH c by (simp add: escape_slash_simps plain_char_def)
  qed
qed simp

text \<open>The text before escaping: the same loop with plain slashes.\<close>

fun plain_segments :: "bool \<Rightarrow> string list \<Rightarrow> string" where
  "plain_segments is_first [] = []"
| "plain_segments is_first (n # ns) =
     (if is_first then [] else ''/'') @ (if n = ''{...}'' then ''[^/]+'' else n) @ plain_segments False ns"

lemma regex_segments_plain:
  "\<forall>n \<in> set ns. CHR ''/'' \<notin> set n \<Longrightarrow>
     fst (regex_segments first ns) = concat (map escape_slash (plain_segments first ns))"
proof (induction ns arbitrary: first)
  case (Cons n ns)
  have "concat (map escape_slash n) = n" if "CHR ''/'' \<notin> set n" for n
    using that by (induction n) (auto simp: escape_slash_simps)
  moreover have "concat (map escape_slash ''[^/]+'') = ''[^'' @ [CHR 0x5C] @ ''/]+''"
    by (simp add: escape_slash_simps)
  ultimately show ?case using Cons by (simp add: Let_def split_beta escape_slash_simps)
qed simp

lemma slashes_plain:
  "\<forall>n \<in> set ns. CHR ''/'' \<notin> set n \<Longrightarrow>
     count_list (plain_segments first ns) (CHR ''/'') \<le> 2 * length ns"
proof (induction ns arbitrary: first)
  case (Cons n ns)
  have "count_list n (CHR ''/'') = 0" using Cons.prems by (simp add: count_list_0_iff)
  then show ?case using Cons.IH [of False] Cons.prems by auto
qed simp

lemma plain_segments_chars:
  "\<forall>n \<in> set ns. \<forall>c \<in> set n. plain_char c \<Longrightarrow> c \<in> set (plain_segments first ns) \<Longrightarrow> plain_char c"
  using plain_literals by (induction ns arbitrary: first) (auto split: if_splits)

lemma build_regex_plain:
  assumes "build_regex tr = Some (regex, replace)" "\<forall>n \<in> set (map fst tr). CHR ''/'' \<notin> set n"
  shows "regex = concat (map escape_slash (''('' @ plain_segments True (map fst tr) @ ''.*)''))"
  using assms regex_segments_plain [of "map fst tr" True]
  by (auto simp: build_regex_def Let_def split_beta escape_slash_simps split: if_splits)

lemma regex_roundtrip:
  assumes "build_regex tr = Some (regex, replace)" "length tr \<le> 9"
    and "\<forall>n \<in> set (map fst tr). CHR ''/'' \<notin> set n \<and> (\<forall>c \<in> set n. plain_char c)"
  shows "\<exists>t. json_unescape regex = Some t \<and> escape_regex t = Some regex"
proof -
  let ?t = "''('' @ plain_segments True (map fst tr) @ ''.*)''"
  have r: "regex = concat (map escape_slash ?t)" using build_regex_plain [OF assms(1)] assms(3) by auto
  have "\<forall>c \<in> set ?t. plain_char c"
    using plain_segments_chars [of "map fst tr" _ True] assms(3) plain_literals by auto
  then have "json_unescape regex = Some ?t" unfolding r by (rule json_unescape_slashes)
  moreover have "count_list ?t (CHR ''/'') < 20"
    using slashes_plain [of "map fst tr" True] assms(2,3) by auto
  then have "escape_regex ?t = Some regex"
    unfolding r escape_regex_def into_buf_def length_escape_slash by simp
  ultimately show ?thesis by blast
qed

section \<open>Properties\<close>

text \<open>C33: After any number of full queues \<open>tm_kafka_produce\<close> returns true exactly when the queue took
  the message, which is then published once, and false when the queue refused it, with nothing
  published; nothing else changes. Only a queue that stays full for ever keeps it from returning.\<close>

theorem tm_kafka_produce_returns:
  assumes "\<forall>i < n. produce_results w (produce_pos w + i) = Produce_queue_full"
  shows "(produce_results w (produce_pos w + n) = Produce_ok \<longrightarrow>
            tm_kafka_produce topic payload key w =
              Some (True, w\<lparr>produce_pos := produce_pos w + n + 1, produced := (topic, payload, key) # produced w\<rparr>)) \<and>
         (produce_results w (produce_pos w + n) = Produce_error \<longrightarrow>
            tm_kafka_produce topic payload key w = Some (False, w\<lparr>produce_pos := produce_pos w + n + 1\<rparr>)) \<and>
         ((\<forall>i. produce_results w (produce_pos w + i) = Produce_queue_full) \<longleftrightarrow>
            tm_kafka_produce topic payload key w = None)"
proof (intro conjI impI)
  show "(\<forall>i. produce_results w (produce_pos w + i) = Produce_queue_full) \<longleftrightarrow>
          tm_kafka_produce topic payload key w = None"
    using produce_full produce_some by (metis option.distinct(1))
qed (use produce_result [OF assms] in simp_all)

theorem tm_kafka_produce_returns_witness:
  "tm_kafka_produce ''topic'' ''x'' ''k''
      (demo_world\<lparr>produce_results := (\<lambda>n. if n < 3 then Produce_queue_full else Produce_error)\<rparr>) =
    Some (False, demo_world\<lparr>produce_results := (\<lambda>n. if n < 3 then Produce_queue_full else Produce_error),
                            produce_pos := 4\<rparr>)"
  using tm_kafka_produce_returns
    [of 3 "demo_world\<lparr>produce_results := (\<lambda>n. if n < 3 then Produce_queue_full else Produce_error)\<rparr>"
        "''topic''" "''x''" "''k''"]
  by (simp add: demo_world_def)

text \<open>A path that \<open>is_path_ok\<close> lets through decodes to a text in which none of the listed parts
  (\<open>..\<close>, \<open>//\<close>, \<open>.git\<close>, \<open>etc\<close>, \<open>php\<close>, \<open><script>\<close> and the others) occurs anywhere; a path that
  does not decode, or contains one of them after decoding, is refused.\<close>

lemma is_path_ok_iff:
  "is_path_ok E (Some s) \<longleftrightarrow>
     (\<exists>d. url_unescape E s = Some d \<and> (\<forall>bad \<in> set bad_parts. \<nexists>a b. cstr d = a @ bad @ b))"
  by (auto simp: is_path_ok_def list_all_iff strstr_None_iff split: option.splits)

lemma is_path_ok_iff_witness:
  "\<not> is_path_ok demo_env (Some ''/admin.php'') \<and> (\<nexists>a b. ''/games'' = a @ ''..'' @ b)"
proof
  show "\<not> is_path_ok demo_env (Some ''/admin.php'')"
    using is_path_ok_iff [of demo_env "''/admin.php''"]
    by (simp add: demo_env_sel bad_parts_def cstr_no_NUL) (metis append_Cons append_Nil append_Nil2)
  have "is_path_ok demo_env (Some ''/games'')" by code_simp
  then show "\<nexists>a b. ''/games'' = a @ ''..'' @ b"
    using is_path_ok_iff [of demo_env "''/games''"]
    by (simp add: demo_env_sel bad_parts_def cstr_no_NUL)
qed



lemma apply_matchers_none:
  "\<forall>m \<in> set ms. pcre_exec E (match m) copy = None \<Longrightarrow> apply_matchers E ms True copy = Some (True, copy)"
  by (induction ms) auto

text \<open>A path no pattern of the team, the squasher or the chopper matches is published once for the
  squasher, under the service's name, and its generic form is its decoded text without a trailing
  slash, cut to 32 characters and three dots when it is longer than 35.\<close>

lemma genericize_path_unmatched:
  assumes "teams w team = Some td" "url_unescape E s = Some d" "s \<noteq> []" "d \<noteq> []" "length d < 4096"
    and "NUL \<notin> set d" "CHR ''?'' \<notin> set d"
    and "\<forall>m \<in> set (matcher td). pcre_exec E (match m) d = None" "squash_regexes td service = None"
    and "pcre_exec E (match chopper_matcher) d = None" "chopper w"
    and "produce_results w (produce_pos w) = Produce_ok"
  shows "\<exists>w' payload. genericize_path E service (Some s) team w =
           Some (let short = (if 35 < length d then take 32 d @ ''...'' else d)
                 in if last short = CHR ''/'' then butlast short else short, w') \<and>
           produced w' = (''tracemate_urls'', payload, service) # produced w \<and> teams w' = teams w"
proof -
  define w1 where "w1 = w\<lparr>produce_pos := produce_pos w + 1,
    produced := (''tracemate_urls'', ''{\"processor\":{\"event\": \"url\"},\"context\":{\"service\":{\"name\": \"'' @ service @
              ''\"}},\"url\":\"'' @ s @ ''\"}'', service) # produced w\<rparr>"
  define short where "short = (if 35 < length d then take 32 d @ ''...'' else d)"
  have send: "send_url_to_kafka service s w = Some (True, w1)"
    using assms(3,12) by (simp add: send_url_to_kafka_def tm_kafka_produce.simps w1_def)
  have short: "NUL \<notin> set short" "CHR ''?'' \<notin> set short" "short \<noteq> []"
    using assms(4,6,7) by (auto simp: short_def dest: in_set_takeD)
  have strchr: "strchr short (CHR ''?'') = None" using short(2) by (simp add: strchr_None_iff)
  have nul: "NUL \<notin> set (butlast short)" using short(1) by (auto dest: in_set_butlastD)
  have fin: "finish_path short = Some (if last short = CHR ''/'' then butlast short else short)"
    using short nul strchr by (simp add: finish_path_def cstr_no_NUL Let_def)
  have chop: "chop E d = Some short" using assms(10) by (simp add: chop_def short_def)
  have "genericize_path E service (Some s) team w =
      Some (if last short = CHR ''/'' then butlast short else short, w1)"
    using assms fin chop
    by (simp add: genericize_path_def the_team_def Let_def cstr_no_NUL apply_matchers_none
        apply_path_squasher_def send w1_def)
  then show ?thesis unfolding short_def Let_def w1_def by simp
qed

lemma genericize_path_unmatched_witness:
  "\<exists>w' payload. genericize_path demo_env ''t-a'' (Some ''/game/7/'') ''t'' demo_world = Some (''/game/7'', w') \<and>
     produced w' = (''tracemate_urls'', payload, ''t-a'') # produced demo_world \<and> teams w' = teams demo_world"
  using genericize_path_unmatched [of demo_world "''t''" new_team demo_env "''/game/7/''" "''/game/7/''" "''t-a''"]
  by (simp add: new_team_def demo_env_def demo_world_def Let_def)

end
