(* ===== verification/TM_Updates.thy ===== *)
theory TM_Updates
  imports TM_Metric
begin

text \<open>
  The metric updates of the document handlers as data. A handler formats a name into
  \<open>metric_name[4096]\<close> and calls one of the update functions of \<open>tm_process.c\<close>, or stores a value
  with \<open>mtev_hash_replace\<close>; here each of these pairs of statements is an \<open>update\<close>, and a handler's
  straight-line sequence of them a list. The union of a metric value carries no tag the updates
  look at: that no update reads the wrong member is the invariant \<open>typed\<close>, which rests on the
  literal text each name starts with.
\<close>

section \<open>Updates\<close>

text \<open>\<open>snprintf (metric_name, sizeof (metric_name) - 1, ...)\<close> on 4096 bytes.\<close>

definition mname :: "string \<Rightarrow> string" where "mname s = snprintf_n 4095 s"

datatype 'd amount =
  Hit_latency u64 | Hit_count u64 | Hit_number 'd | Hit_average 'd
| Set_text string | Set_number 'd | Set_integer u64

text \<open>The literal start of the format, what follows it up to \<open>|ST[\<close>, and the tags.\<close>

record 'd update =
  u_head :: string
  u_rest :: string
  u_tags :: string
  u_agg :: bool
  u_amount :: "'d amount"
  u_ts :: u64

definition u_name :: "'d update \<Rightarrow> string" where
  "u_name u = mname (u_head u @ u_rest u @ ''|ST['' @ u_tags u @ '']'')"

definition put_value ::
  "string \<Rightarrow> metric_key \<Rightarrow> (u64 \<Rightarrow> ('d, 'h) metric_value) \<Rightarrow> ('d, 'h) world \<Rightarrow> ('d, 'h) world ub" where
  "put_value team key mk = on_metrics team (\<lambda>now m. Some (m(key \<mapsto> mk now)))"

definition apply_update ::
  "('j, 'd, 'h) env \<Rightarrow> string \<Rightarrow> ('d, 'h) world \<Rightarrow> 'd update \<Rightarrow> ('d, 'h) world ub" where
  "apply_update E team w u =
     (case u_amount u of
        Hit_latency us \<Rightarrow> update_histogram E team (u_name u) (u_agg u) us (u_ts u) w
      | Hit_count n \<Rightarrow> update_counter E team (u_name u) (u_agg u) n (u_ts u) w
      | Hit_number d \<Rightarrow> update_numeric E team (u_name u) (u_agg u) d (u_ts u) w
      | Hit_average d \<Rightarrow> update_average E team (u_name u) (u_agg u) d (u_ts u) w
      | Set_text s \<Rightarrow> update_text E team (u_name u) s (u_ts u) w
      | Set_number d \<Rightarrow> put_value team (flush_key (u_name u) False (u_ts u)) (make_numeric_value E d) w
      | Set_integer i \<Rightarrow> put_value team (flush_key (u_name u) False (u_ts u)) (make_integer_value E i) w)"

definition run_updates ::
  "('j, 'd, 'h) env \<Rightarrow> string \<Rightarrow> 'd update list \<Rightarrow> ('d, 'h) world \<Rightarrow> ('d, 'h) world ub" where
  "run_updates E team us w = foldM (apply_update E team) w us"

text \<open>What the updates of one document share: its duration and the time of its window.\<close>

record mctx =
  mc_tags :: string
  mc_agg :: string
  mc_rollup :: string
  mc_us :: u64
  mc_ts :: u64

definition latency :: "mctx \<Rightarrow> string \<Rightarrow> string \<Rightarrow> string \<Rightarrow> 'd update" where
  "latency c head rest tags =
     \<lparr>u_head = head, u_rest = rest, u_tags = tags, u_agg = True, u_amount = Hit_latency (mc_us c), u_ts = mc_ts c\<rparr>"

definition count1 :: "mctx \<Rightarrow> string \<Rightarrow> string \<Rightarrow> string \<Rightarrow> 'd update" where
  "count1 c head rest tags =
     \<lparr>u_head = head, u_rest = rest, u_tags = tags, u_agg = True, u_amount = Hit_count 1, u_ts = mc_ts c\<rparr>"

text \<open>\<open>if (b) { ... }\<close> around some of the updates.\<close>

definition when_list :: "bool \<Rightarrow> 'a list \<Rightarrow> 'a list" where
  "when_list b us = (if b then us else [])"

definition rollup_tag :: "('d, 'h) team_data \<Rightarrow> string" where
  "rollup_tag td = (if rollup_high_cardinality td then [] else '',__rollup:false'')"

section \<open>The member of the union\<close>

datatype kind = K_number | K_text | K_hist | K_int

definition kind_of :: "('d, 'h) metric_union \<Rightarrow> kind" where
  "kind_of u = (case u of Number _ \<Rightarrow> K_number | TextValue _ \<Rightarrow> K_text | Histogram _ \<Rightarrow> K_hist | Integer _ \<Rightarrow> K_int)"

definition amount_kind :: "'d amount \<Rightarrow> kind" where
  "amount_kind a =
     (case a of
        Hit_latency _ \<Rightarrow> K_hist | Hit_count _ \<Rightarrow> K_int | Hit_number _ \<Rightarrow> K_number | Hit_average _ \<Rightarrow> K_number
      | Set_text _ \<Rightarrow> K_text | Set_number _ \<Rightarrow> K_number | Set_integer _ \<Rightarrow> K_int)"

text \<open>Whether the key of an update is an aggregate one; text and replaced values never are.\<close>

definition update_agg :: "'d update \<Rightarrow> bool" where
  "update_agg u = (case u_amount u of Set_text _ \<Rightarrow> False | Set_number _ \<Rightarrow> False | Set_integer _ \<Rightarrow> False | _ \<Rightarrow> u_agg u)"

text \<open>
  The literals the handlers start their names with, whether the metric is an aggregate, and the
  member of the union its value has.
\<close>

definition heads :: "(string \<times> bool \<times> kind) list" where
  "heads =
     [(''transaction - latency - '', True, K_hist), (''transaction - status_code - '', False, K_text),
      (''transaction - request_count - '', True, K_int), (''transaction - error_count - '', True, K_int),
      (''transaction - client_error_count - '', True, K_int),
      (''transaction - server_error_count - '', True, K_int), (''transaction - apm_error_count'', True, K_int),
      (''db - latency - '', True, K_hist), (''db - stmt_count - '', True, K_int),
      (''external - latency - '', True, K_hist), (''external - call_count - '', True, K_int),
      (''internal - latency - '', True, K_hist), (''internal - call_count - '', True, K_int),
      (''intternal - call_count - '', True, K_int), (''nodejs - eventloop - latency'', True, K_hist),
      (''jvm - thread - count'', False, K_int), (''jvm - thread - count'', True, K_number),
      (''jvm - memory - gc - count'', False, K_int), (''jvm - memory - gc - count'', True, K_number),
      (''golang - memory - gc - '', True, K_int), (''golang - memory - gc - '', False, K_int),
      (''system - '', True, K_number), (''system - '', False, K_number),
      (''jvm - memory - heap - '', True, K_number), (''jvm - memory - heap - '', False, K_number),
      (''jvm - memory - non_heap - '', True, K_number), (''jvm - memory - non_heap - '', False, K_number),
      (''jvm - memory - gc - total_latency'', True, K_number),
      (''jvm - memory - gc - alloc'', True, K_number), (''jvm - memory - gc - alloc'', False, K_number),
      (''nodejs - memory - '', True, K_number), (''nodejs - memory - '', False, K_number),
      (''golang - memory - heap - '', True, K_number), (''golang - memory - heap - '', False, K_number),
      (''golang - goroutines'', True, K_number), (''golang - goroutines'', False, K_number),
      (''latency'', True, K_hist), (''request_count'', True, K_int), (''error_count'', True, K_int),
      (''execution_count'', True, K_int), (''exception_count'', True, K_int)]"

definition update_ok :: "'d update \<Rightarrow> bool" where
  "update_ok u =
     list_ex (\<lambda>(h, a, k). take (length h) (u_head u) = h \<and> a = update_agg u \<and> k = amount_kind (u_amount u)) heads"

text \<open>
  The names of metrics that come back from Kafka are another instance's; their keys are neither
  aggregate nor flushed at once, and nothing is promised of them.
\<close>

definition own_key :: "metric_key \<Rightarrow> bool" where
  "own_key key = (aggregate key \<or> immediate_flush key)"

definition typed_key :: "metric_key \<Rightarrow> kind \<Rightarrow> bool" where
  "typed_key key kd =
     (\<forall>(h, a, k) \<in> set heads. take (length h) (metric_name key) = h \<and> a = aggregate key \<and> own_key key \<longrightarrow> kd = k)"

definition typed :: "('d, 'h) metrics \<Rightarrow> bool" where
  "typed m = (\<forall>key v. m key = Some v \<longrightarrow> typed_key key (kind_of (metric v)))"

definition typed_world :: "('d, 'h) world \<Rightarrow> bool" where
  "typed_world w = (\<forall>team. typed (team_metrics w team))"

section \<open>Facts\<close>

lemma heads_consistent:
  "list_all (\<lambda>p. list_all (\<lambda>q. take (length (fst p)) (fst q) = fst p \<longrightarrow>
     fst (snd p) = fst (snd q) \<longrightarrow> snd (snd p) = snd (snd q)) heads) heads"
  by code_simp

lemma heads_cons:
  assumes "(x, b, kx) \<in> set heads" "(y, b, ky) \<in> set heads" "take (length x) y = x"
  shows "kx = ky"
  using bspec [OF bspec [OF heads_consistent [unfolded list_all_iff] assms(1)] assms(2)] assms(3)
  by (simp only: fst_conv snd_conv simp_thms)

lemma heads_short: "list_all (\<lambda>(h, a, k). length h < 100 \<and> h \<noteq> []) heads"
  by code_simp

lemma take_mname: "n \<le> 4094 \<Longrightarrow> take n (mname s) = take n s"
  by (simp add: mname_def snprintf_n_def min_def)

lemma take_both: "take (length a) xs = a \<Longrightarrow> take (length b) xs = b \<Longrightarrow> length a \<le> length b \<Longrightarrow> take (length a) b = a"
  using take_take [of "length a" "length b" xs] by (simp add: min_def)

lemma update_typed_key:
  assumes ok: "update_ok u" and name: "metric_name key = u_name u" "aggregate key = update_agg u"
  shows "typed_key key (amount_kind (u_amount u))"
  unfolding typed_key_def
proof (clarify)
  fix h a k assume hk: "(h, aggregate key, k) \<in> set heads" "take (length h) (metric_name key) = h"
  from ok obtain h0 where h0: "(h0, update_agg u, amount_kind (u_amount u)) \<in> set heads"
    and p0: "take (length h0) (u_head u) = h0" by (auto simp: update_ok_def list_ex_iff)
  have short: "length h < 100" "length h0 < 100" using heads_short hk(1) h0 by (auto simp: list_all_iff)
  let ?n = "u_head u @ u_rest u @ ''|ST['' @ u_tags u @ '']''"
  have p: "take (length h) ?n = h"
    using hk(2) short unfolding name u_name_def by (subst (asm) take_mname) simp_all
  have "length h0 \<le> length (u_head u)" using p0 by (metis length_take min.cobounded1)
  then have p1: "take (length h0) ?n = h0" using p0 by simp
  show "amount_kind (u_amount u) = k"
  proof (cases "length h \<le> length h0")
    case True
    then have "take (length h) h0 = h" by (rule take_both [OF p p1])
    then show ?thesis using heads_cons [OF hk(1) [unfolded name] h0] by (simp only:)
  next
    case False
    then have "take (length h0) h = h0" using take_both [OF p1 p] by simp
    then show ?thesis using heads_cons [OF h0 hk(1) [unfolded name]] by (simp only:)
  qed
qed

definition update_key :: "'d update \<Rightarrow> metric_key" where
  "update_key u =
     (case u_amount u of
        Hit_latency _ \<Rightarrow> agg_key (u_name u) (u_agg u) (u_ts u)
      | _ \<Rightarrow> flush_key (u_name u) (update_agg u) (u_ts u))"

lemma update_key_fields [simp]:
  "metric_name (update_key u) = u_name u" "aggregate (update_key u) = update_agg u"
  by (auto simp: update_key_def agg_key_def flush_key_def make_metric_key_def update_agg_def split: amount.splits)

lemma hist_heads: "(h, a, K_hist) \<in> set heads \<Longrightarrow> a"
  by (auto simp: heads_def)

lemma update_key_own: "update_ok u \<Longrightarrow> own_key (update_key u)"
  by (cases "u_amount u")
     (auto simp: update_ok_def list_ex_iff update_key_def own_key_def agg_key_def flush_key_def make_metric_key_def
       amount_kind_def update_agg_def dest: hist_heads)

text \<open>The key of an update pins the member of the union down.\<close>

lemma update_ok_kind:
  assumes "update_ok u" "typed_key (update_key u) k"
  shows "k = amount_kind (u_amount u)"
proof -
  from assms(1) obtain h where h: "(h, update_agg u, amount_kind (u_amount u)) \<in> set heads"
    and p: "take (length h) (u_head u) = h" by (auto simp: update_ok_def list_ex_iff)
  have short: "length h < 100" using heads_short h by (auto simp: list_all_iff)
  have "length h \<le> length (u_head u)" using p by (metis length_take min.cobounded1)
  then have "take (length h) (u_name u) = h"
    using p short unfolding u_name_def by (subst take_mname) simp_all
  then show ?thesis using assms(2) h update_key_own [OF assms(1)] by (fastforce simp: typed_key_def)
qed

definition same_team_but_metrics :: "('d, 'h) team_data \<Rightarrow> ('d, 'h) team_data \<Rightarrow> bool" where
  "same_team_but_metrics td td' = (td' = td\<lparr>hash := hash td'\<rparr>)"

lemma upsert_typed:
  assumes "typed m" "typed_key key kd"
    and "\<And>v now. kind_of (metric v) = kd \<Longrightarrow> \<exists>v'. hit now v = Some v' \<and> kind_of (metric v') = kd"
    and "\<And>now. kind_of (metric (mk now)) = kd"
    and "\<And>k. typed_key key k \<Longrightarrow> k = kd"
  shows "\<exists>m'. upsert key hit mk now m = Some m' \<and> typed m' \<and> dom m' = insert key (dom m)"
proof (cases "m key")
  case None
  then show ?thesis using assms(1,2,4) by (auto simp: upsert_eq typed_def)
next
  case (Some v)
  then have "kind_of (metric v) = kd" using assms(1,5) by (simp add: typed_def)
  with assms(3) obtain v' where "hit now v = Some v'" "kind_of (metric v') = kd" by blast
  then show ?thesis using assms(1,2) Some by (auto simp: upsert_eq typed_def)
qed

lemma on_metrics_typed:
  assumes "teams w team = Some td" "\<And>now. \<exists>m'. f now (hash td) = Some m' \<and> typed m' \<and> dom m' = d"
  shows "\<exists>td'. on_metrics team f w = Some (put_team team td' (w\<lparr>ticks := ticks w + 1\<rparr>)) \<and>
           typed (hash td') \<and> same_team_but_metrics td td' \<and> dom (hash td') = d"
proof -
  from assms(2) [of "clock w (ticks w)"] obtain m' where "f (clock w (ticks w)) (hash td) = Some m'"
    "typed m'" "dom m' = d" by auto
  then show ?thesis
    by (intro exI [of _ "td\<lparr>hash := m'\<rparr>"])
       (simp add: on_metrics_def mtev_now_ms_def the_team_def assms(1) same_team_but_metrics_def)
qed

lemmas make_value_defs = make_numeric_value_def make_integer_value_def make_histogram_latency_value_def
  make_text_value_def new_value_def

lemma update_key_simps:
  "u_amount u = Hit_latency us \<Longrightarrow> update_key u = agg_key (u_name u) (u_agg u) (u_ts u)"
  "u_amount u = Hit_count n \<Longrightarrow> update_key u = flush_key (u_name u) (u_agg u) (u_ts u)"
  "u_amount u = Hit_number d \<Longrightarrow> update_key u = flush_key (u_name u) (u_agg u) (u_ts u)"
  "u_amount u = Hit_average d \<Longrightarrow> update_key u = flush_key (u_name u) (u_agg u) (u_ts u)"
  "u_amount u = Set_text s \<Longrightarrow> update_key u = flush_key (u_name u) False (u_ts u)"
  "u_amount u = Set_number d \<Longrightarrow> update_key u = flush_key (u_name u) False (u_ts u)"
  "u_amount u = Set_integer i \<Longrightarrow> update_key u = flush_key (u_name u) False (u_ts u)"
  by (simp_all add: update_key_def update_agg_def)

lemma hit_kinds:
  "kind_of (metric v) = K_hist \<Longrightarrow> \<exists>v'. hit_histogram E us now v = Some v' \<and> kind_of (metric v') = K_hist"
  "kind_of (metric v) = K_int \<Longrightarrow> \<exists>v'. hit_counter n now v = Some v' \<and> kind_of (metric v') = K_int"
  "kind_of (metric v) = K_number \<Longrightarrow> \<exists>v'. hit_numeric E d n' now v = Some v' \<and> kind_of (metric v') = K_number"
  by (auto simp: hit_histogram_def hit_counter_def hit_numeric_def kind_of_def split: metric_union.splits)

lemma made_kinds:
  "kind_of (metric (make_histogram_latency_value E us now)) = K_hist"
  "kind_of (metric (make_integer_value E i now)) = K_int"
  "kind_of (metric (make_numeric_value E d now)) = K_number"
  "kind_of (metric (make_text_value E s now)) = K_text"
  by (simp_all add: make_value_defs kind_of_def)

lemma apply_update_typed:
  assumes td: "teams w team = Some td" "typed (hash td)" and ok: "update_ok u"
  shows "\<exists>td'. apply_update E team w u = Some (put_team team td' (w\<lparr>ticks := ticks w + 1\<rparr>)) \<and>
           typed (hash td') \<and> same_team_but_metrics td td' \<and>
           dom (hash td') = insert (update_key u) (dom (hash td))"
proof -
  let ?kd = "amount_kind (u_amount u)"
  have key: "typed_key (update_key u) ?kd" by (rule update_typed_key [OF ok]) simp_all
  have uniq: "\<And>k. typed_key (update_key u) k \<Longrightarrow> k = ?kd" by (rule update_ok_kind [OF ok])
  have up: "(\<And>v now. kind_of (metric v) = kd \<Longrightarrow> \<exists>v'. hit now v = Some v' \<and> kind_of (metric v') = kd) \<Longrightarrow>
      (\<And>now. kind_of (metric (mk now)) = kd) \<Longrightarrow> kd = ?kd \<Longrightarrow>
      \<exists>td'. on_metrics team (upsert (update_key u) hit mk) w = Some (put_team team td' (w\<lparr>ticks := ticks w + 1\<rparr>)) \<and>
         typed (hash td') \<and> same_team_but_metrics td td' \<and> dom (hash td') = insert (update_key u) (dom (hash td))"
    for hit mk kd
    by (rule on_metrics_typed [OF td(1)], rule upsert_typed [OF td(2) key _ _ uniq]) simp_all
  have put: "(\<And>now. kind_of (metric (mk now)) = kd) \<Longrightarrow> kd = ?kd \<Longrightarrow>
      \<exists>td'. put_value team (update_key u) mk w = Some (put_team team td' (w\<lparr>ticks := ticks w + 1\<rparr>)) \<and>
         typed (hash td') \<and> same_team_but_metrics td td' \<and> dom (hash td') = insert (update_key u) (dom (hash td))"
    for mk kd
    unfolding put_value_def
    by (rule on_metrics_typed [OF td(1)]) (use td(2) key in \<open>auto simp: typed_def\<close>)
  show ?thesis
  proof (cases "u_amount u")
    case (Hit_latency us)
    show ?thesis
      using up [OF hit_kinds(1) [where E = E and us = us] made_kinds(1) [where E = E and us = us]] Hit_latency
      by (simp add: apply_update_def update_histogram_def update_key_simps amount_kind_def)
  next
    case (Hit_count n)
    show ?thesis
      using up [OF hit_kinds(2) [where n = n] made_kinds(2) [where E = E and i = n]] Hit_count
      by (simp add: apply_update_def update_counter_def update_key_simps amount_kind_def)
  next
    case (Hit_number d)
    show ?thesis
      using up [OF hit_kinds(3) [where E = E and d = d and n' = 0] made_kinds(3) [where E = E and d = d]] Hit_number
      by (simp add: apply_update_def update_numeric_def update_key_simps amount_kind_def)
  next
    case (Hit_average d)
    show ?thesis
      using up [OF hit_kinds(3) [where E = E and d = d and n' = 1] made_kinds(3) [where E = E and d = d]] Hit_average
      by (simp add: apply_update_def update_average_def update_key_simps amount_kind_def)
  next
    case (Set_text s)
    show ?thesis using put [OF made_kinds(4) [where E = E and s = s]] Set_text
      by (simp add: apply_update_def update_text_def put_value_def update_key_simps amount_kind_def)
  next
    case (Set_number d)
    show ?thesis using put [OF made_kinds(3) [where E = E and d = d]] Set_number
      by (simp add: apply_update_def update_key_simps amount_kind_def)
  next
    case (Set_integer i)
    show ?thesis using put [OF made_kinds(2) [where E = E and i = i]] Set_integer
      by (simp add: apply_update_def update_key_simps amount_kind_def)
  qed
qed

text \<open>A whole sequence of updates: it cannot fail, and adds exactly its keys.\<close>

lemma put_put [simp]: "put_team team td' ((put_team team td w)\<lparr>ticks := n\<rparr>) = put_team team td' (w\<lparr>ticks := n\<rparr>)"
  by (simp add: put_team_def)

lemma put_team_same: "teams w team = Some td \<Longrightarrow> put_team team td w = w"
  by (cases w) (auto simp: put_team_def fun_upd_idem)

lemma run_updates_typed:
  assumes "teams w team = Some td" "typed (hash td)" "list_all update_ok us"
  shows "\<exists>td'. run_updates E team us w = Some (put_team team td' (w\<lparr>ticks := ticks w + length us\<rparr>)) \<and>
           typed (hash td') \<and> same_team_but_metrics td td' \<and>
           dom (hash td') = update_key ` set us \<union> dom (hash td)"
  using assms
proof (induction us arbitrary: w td)
  case Nil
  then show ?case
    by (intro exI [of _ td]) (simp add: run_updates_def same_team_but_metrics_def put_team_same)
next
  case (Cons u us)
  from Cons.prems have ok: "update_ok u" "list_all update_ok us" by auto
  from apply_update_typed [OF Cons.prems(1,2) ok(1), of E] obtain td1 where
    1: "apply_update E team w u = Some (put_team team td1 (w\<lparr>ticks := ticks w + 1\<rparr>))" "typed (hash td1)"
      "same_team_but_metrics td td1" "dom (hash td1) = insert (update_key u) (dom (hash td))" by blast
  have t: "teams (put_team team td1 (w\<lparr>ticks := ticks w + 1\<rparr>)) team = Some td1" by (simp add: put_team_def)
  from Cons.IH [OF t 1(2) ok(2)] obtain td2 where
    2: "run_updates E team us (put_team team td1 (w\<lparr>ticks := ticks w + 1\<rparr>)) =
          Some (put_team team td2 ((put_team team td1 (w\<lparr>ticks := ticks w + 1\<rparr>))\<lparr>ticks := ticks w + 1 + length us\<rparr>))"
      "typed (hash td2)" "same_team_but_metrics td1 td2" "dom (hash td2) = update_key ` set us \<union> dom (hash td1)"
    by (auto simp: put_team_def)
  have "run_updates E team (u # us) w = Some (put_team team td2 (w\<lparr>ticks := ticks w + length (u # us)\<rparr>))"
    using 1(1) 2(1) by (simp add: run_updates_def put_team_def)
  moreover have "same_team_but_metrics td td2"
    using 1(3) 2(3) unfolding same_team_but_metrics_def by (metis (no_types) team_data.surjective team_data.update_convs(1))
  ultimately show ?case using 1(4) 2(2,4) by (intro exI [of _ td2]) auto
qed

lemma latency_ok: "(h, True, K_hist) \<in> set heads \<Longrightarrow> update_ok (latency c h r t)"
  by (force simp: update_ok_def list_ex_iff latency_def update_agg_def amount_kind_def)

lemma count1_ok: "(h, True, K_int) \<in> set heads \<Longrightarrow> update_ok (count1 c h r t)"
  by (force simp: update_ok_def list_ex_iff count1_def update_agg_def amount_kind_def)

lemma when_list_all [simp]: "list_all P (when_list b us) = (b \<longrightarrow> list_all P us)"
  by (simp add: when_list_def)

lemma heads_mem:
  "(''latency'', True, K_hist) \<in> set heads" "(''request_count'', True, K_int) \<in> set heads"
  "(''error_count'', True, K_int) \<in> set heads" "(''execution_count'', True, K_int) \<in> set heads"
  "(''exception_count'', True, K_int) \<in> set heads"
  "(''transaction - latency - '', True, K_hist) \<in> set heads"
  "(''transaction - request_count - '', True, K_int) \<in> set heads"
  "(''transaction - error_count - '', True, K_int) \<in> set heads"
  "(''transaction - client_error_count - '', True, K_int) \<in> set heads"
  "(''transaction - server_error_count - '', True, K_int) \<in> set heads"
  "(''transaction - apm_error_count'', True, K_int) \<in> set heads"
  "(''db - latency - '', True, K_hist) \<in> set heads" "(''db - stmt_count - '', True, K_int) \<in> set heads"
  "(''external - latency - '', True, K_hist) \<in> set heads"
  "(''external - call_count - '', True, K_int) \<in> set heads"
  "(''internal - latency - '', True, K_hist) \<in> set heads"
  "(''internal - call_count - '', True, K_int) \<in> set heads"
  "(''intternal - call_count - '', True, K_int) \<in> set heads"
  by (simp_all add: heads_def)

section \<open>What a document may change\<close>

text \<open>
  A step on behalf of team \<open>t\<close>: no other team changes, no team or metric disappears, the settings
  of every team stay, and the members of the unions stay what their names promise. A reflexive
  and transitive relation, so that it holds of a handler when it holds of its parts.
\<close>

definition same_settings :: "('d, 'h) team_data \<Rightarrow> ('d, 'h) team_data \<Rightarrow> bool" where
  "same_settings a b =
     (matcher a = matcher b \<and> metric_submission_url a = metric_submission_url b \<and>
      jaeger_dest_url a = jaeger_dest_url b \<and> collect_host_level_metrics a = collect_host_level_metrics b \<and>
      collect_host_level_system a = collect_host_level_system b \<and>
      rollup_high_cardinality a = rollup_high_cardinality b \<and>
      path_squash_cardinality_factor a = path_squash_cardinality_factor b)"

definition team_step :: "('d, 'h) team_data \<Rightarrow> ('d, 'h) team_data \<Rightarrow> bool" where
  "team_step a b = (same_settings a b \<and> dom (hash a) \<subseteq> dom (hash b) \<and> (typed (hash a) \<longrightarrow> typed (hash b)))"

definition opt_step :: "('d, 'h) team_data option \<Rightarrow> ('d, 'h) team_data option \<Rightarrow> bool" where
  "opt_step a b =
     (case a of
        Some td \<Rightarrow> (case b of Some td' \<Rightarrow> team_step td td' | None \<Rightarrow> False)
      | None \<Rightarrow> (case b of Some td' \<Rightarrow> typed (hash td') | None \<Rightarrow> True))"

definition doc_step :: "string \<Rightarrow> ('d, 'h) world \<Rightarrow> ('d, 'h) world \<Rightarrow> bool" where
  "doc_step t w w' = ((\<forall>t'. t' \<noteq> t \<longrightarrow> teams w' t' = teams w t') \<and> opt_step (teams w t) (teams w' t))"

lemma team_step_refl [simp]: "team_step a a"
  by (simp add: team_step_def same_settings_def)

lemma team_step_trans: "team_step a b \<Longrightarrow> team_step b c \<Longrightarrow> team_step a c"
  by (auto simp: team_step_def same_settings_def)

named_theorems doc_eqs \<open>operations of a handler that return a new state\<close>
named_theorems doc_acts \<open>operations of a handler that are total\<close>

lemma opt_step_refl [simp]: "opt_step a a"
  by (simp add: opt_step_def split: option.splits)

lemma opt_step_trans: "opt_step a b \<Longrightarrow> opt_step b c \<Longrightarrow> opt_step a c"
  by (cases a; cases b; cases c) (auto simp: opt_step_def intro: team_step_trans, simp add: team_step_def)

lemma doc_step_same_teams: "teams w' = teams w \<Longrightarrow> doc_step t w w'"
  by (simp add: doc_step_def)

lemma doc_step_refl [simp]: "doc_step t w w"
  by (simp add: doc_step_def)

lemma doc_step_trans [trans]: "doc_step t a b \<Longrightarrow> doc_step t b c \<Longrightarrow> doc_step t a c"
  unfolding doc_step_def by (auto intro: opt_step_trans)

lemma doc_step_opt: "doc_step t w w' \<Longrightarrow> opt_step (teams w t') (teams w' t')"
  by (cases "t' = t") (auto simp: doc_step_def)

lemma doc_step_typed:
  assumes "doc_step t w w'" "typed_world w"
  shows "typed_world w'"
  unfolding typed_world_def
proof
  fix t'
  from assms(2) have "typed (team_metrics w t')" by (simp add: typed_world_def)
  with doc_step_opt [OF assms(1), of t'] show "typed (team_metrics w' t')"
    by (cases "teams w t'"; cases "teams w' t'") (auto simp: opt_step_def team_step_def team_metrics_def)
qed

lemma doc_step_keeps:
  assumes "doc_step t w w'"
  shows "dom (team_metrics w t') \<subseteq> dom (team_metrics w' t')"
  using doc_step_opt [OF assms, of t']
  by (cases "teams w t'"; cases "teams w' t'") (auto simp: opt_step_def team_step_def team_metrics_def)

lemma doc_step_put_team:
  "teams w t = Some td \<Longrightarrow> team_step td td' \<Longrightarrow> doc_step t w (put_team t td' w)"
  by (simp add: doc_step_def opt_step_def put_team_def)

lemma doc_step_get_team_data: "doc_step t w (get_team_data t w)"
  by (cases "teams w t")
     (simp_all add: doc_step_def opt_step_def get_team_data_def tm_add_team_def Let_def typed_def)

lemma get_team_data_then [doc_acts]: "doc_step t w0 w \<Longrightarrow> doc_step t w0 (get_team_data t w)"
  by (erule doc_step_trans) (rule doc_step_get_team_data)

lemma same_teams_then: "doc_step t w0 w \<Longrightarrow> teams w' = teams w \<Longrightarrow> doc_step t w0 w'"
  using doc_step_same_teams by (blast intro: doc_step_trans)

text \<open>A sequence of such steps, for any teams.\<close>

definition docs_step :: "('d, 'h) world \<Rightarrow> ('d, 'h) world \<Rightarrow> bool" where
  "docs_step = (\<lambda>w w'. \<exists>t. doc_step t w w')\<^sup>*\<^sup>*"

lemma docs_step_refl [simp]: "docs_step w w"
  by (simp add: docs_step_def)

lemma docs_step_trans [trans]: "docs_step a b \<Longrightarrow> docs_step b c \<Longrightarrow> docs_step a c"
  by (simp add: docs_step_def)

lemma docs_step_one: "doc_step t w w' \<Longrightarrow> docs_step w w'"
  by (auto simp: docs_step_def)

lemma docs_step_same_teams: "teams w' = teams w \<Longrightarrow> docs_step w w'"
  by (rule docs_step_one, rule doc_step_same_teams)

lemma docs_step_induct:
  assumes "docs_step w w'" "P w" "\<And>t a b. P a \<Longrightarrow> doc_step t a b \<Longrightarrow> P b"
  shows "P w'"
  using assms(1) unfolding docs_step_def by (induction rule: rtranclp_induct) (use assms(2,3) in blast)+

lemma docs_step_typed: "docs_step w w' \<Longrightarrow> typed_world w \<Longrightarrow> typed_world w'"
  by (erule docs_step_induct) (auto intro: doc_step_typed)

lemma docs_step_keeps: "docs_step w w' \<Longrightarrow> dom (team_metrics w t) \<subseteq> dom (team_metrics w' t)"
  by (erule docs_step_induct) (simp, meson doc_step_keeps subset_trans)

lemma upsert_grows: "upsert key hit mk now m = Some m' \<Longrightarrow> dom m \<subseteq> dom m'"
  by (auto simp: upsert_eq split: option.splits)

lemma apply_update_form:
  "\<exists>f. apply_update E t w u = on_metrics t f w \<and> (\<forall>now m m'. f now m = Some m' \<longrightarrow> dom m \<subseteq> dom m')"
proof (cases "u_amount u")
  case (Set_text s)
  then show ?thesis by (simp only: apply_update_def amount.simps update_text_def) fastforce
next
  case (Set_number d)
  then show ?thesis by (simp only: apply_update_def amount.simps put_value_def) fastforce
next
  case (Set_integer i)
  then show ?thesis by (simp only: apply_update_def amount.simps put_value_def) fastforce
qed (simp only: apply_update_def amount.simps update_histogram_def update_counter_def update_numeric_def
       update_average_def; blast dest: upsert_grows)+

lemma apply_update_step:
  assumes "apply_update E t w u = Some w'" "update_ok u"
  shows "doc_step t w w'"
proof -
  obtain f where f: "on_metrics t f w = Some w'" "\<forall>now m m'. f now m = Some m' \<longrightarrow> dom m \<subseteq> dom m'"
    using apply_update_form [of E t w u] assms(1) by auto
  then obtain td m where td: "teams w t = Some td" "f (clock w (ticks w)) (hash td) = Some m"
    and w': "w' = put_team t (td\<lparr>hash := m\<rparr>) (w\<lparr>ticks := ticks w + 1\<rparr>)" by (auto simp: on_metrics_Some)
  have "typed m" if "typed (hash td)"
  proof -
    from apply_update_typed [OF td(1) that assms(2), of E] assms(1) obtain td'
      where "w' = put_team t td' (w\<lparr>ticks := ticks w + 1\<rparr>)" "typed (hash td')" by auto
    moreover from this(1) have "teams w' t = Some td'" by (simp add: put_team_def)
    moreover have "teams w' t = Some (td\<lparr>hash := m\<rparr>)" by (simp add: w' put_team_def)
    ultimately show ?thesis by simp
  qed
  then have "team_step td (td\<lparr>hash := m\<rparr>)"
    using f(2) td(2) by (auto simp: team_step_def same_settings_def)
  then show ?thesis using td(1) by (simp add: w' doc_step_def opt_step_def put_team_def)
qed

lemma run_updates_step:
  assumes "run_updates E t us w = Some w'" "list_all update_ok us"
  shows "doc_step t w w'"
  using assms
proof (induction us arbitrary: w)
  case (Cons u us)
  then obtain w1 where "apply_update E t w u = Some w1" "run_updates E t us w1 = Some w'"
    by (auto simp: run_updates_def split: option.splits)
  with Cons apply_update_step [of E t w u w1] show ?case by (auto intro: doc_step_trans)
qed (simp add: run_updates_def)

lemma on_metrics_same: "on_metrics t f w = Some w' \<Longrightarrow> same_process w w'"
  by (auto simp: on_metrics_Some same_process_def put_team_def)

lemma run_updates_same: "run_updates E t us w = Some w' \<Longrightarrow> same_process w w'"
proof (induction us arbitrary: w)
  case (Cons u us)
  then obtain w1 where w1: "apply_update E t w u = Some w1" "run_updates E t us w1 = Some w'"
    by (auto simp: run_updates_def split: option.splits)
  from apply_update_form [of E t w u] w1(1) have "same_process w w1" by (metis on_metrics_same)
  then show ?case using Cons.IH [OF w1(2)] by (rule same_process_trans)
qed (simp add: run_updates_def)

lemma run_updates_then:
  "run_updates E t us w = Some w' \<Longrightarrow> list_all update_ok us \<Longrightarrow> doc_step t w0 w \<Longrightarrow> doc_step t w0 w'"
  using run_updates_step by (blast intro: doc_step_trans)

section \<open>Counters\<close>

text \<open>What a counter holds, and what a list of updates adds to it.\<close>

definition count_at :: "('d, 'h) world \<Rightarrow> string \<Rightarrow> metric_key \<Rightarrow> u64" where
  "count_at w team key =
     (case team_metrics w team key of
        Some v \<Rightarrow> (case metric v of Integer i \<Rightarrow> i | _ \<Rightarrow> 0)
      | None \<Rightarrow> 0)"

definition hits :: "metric_key \<Rightarrow> 'd update list \<Rightarrow> u64" where
  "hits key us = sum_list (map (\<lambda>u. case u_amount u of Hit_count n \<Rightarrow> if update_key u = key then n else 0 | _ \<Rightarrow> 0) us)"

lemma hits_simps [simp]:
  "hits key [] = 0" "hits key (us @ vs) = hits key us + hits key vs"
  "hits key (u # us) = (case u_amount u of Hit_count n \<Rightarrow> if update_key u = key then n else 0 | _ \<Rightarrow> 0) + hits key us"
  by (simp_all add: hits_def)

definition counter_key :: "metric_key \<Rightarrow> 'd update list \<Rightarrow> bool" where
  "counter_key key us = list_all (\<lambda>u. update_key u = key \<longrightarrow> (\<exists>n. u_amount u = Hit_count n)) us"

lemma on_metrics_at:
  assumes "on_metrics t f w = Some w'"
  shows "f (clock w (ticks w)) (team_metrics w t) = Some (team_metrics w' t)"
  using assms
  by (auto simp: on_metrics_def mtev_now_ms_def the_team_def put_team_def team_metrics_def bind_eq_Some_conv)

lemma upsert_other: "upsert k hit mk now m = Some m' \<Longrightarrow> key \<noteq> k \<Longrightarrow> m' key = m key"
  by (auto simp: upsert_eq split: option.splits)

lemma apply_update_other:
  assumes "apply_update E t w u = Some w'" "update_key u \<noteq> key"
  shows "team_metrics w' t key = team_metrics w t key"
proof -
  have up: "on_metrics t (upsert (update_key u) hit mk) w = Some w' \<Longrightarrow> ?thesis" for hit mk
    by (drule on_metrics_at, drule upsert_other) (use assms(2) in auto)
  have pv: "on_metrics t (\<lambda>now m. Some (m(update_key u \<mapsto> mk now))) w = Some w' \<Longrightarrow> ?thesis" for mk
    by (drule on_metrics_at) (metis assms(2) fun_upd_other option.inject)
  show ?thesis
    by (cases "u_amount u")
       (use assms(1) up pv in \<open>simp_all add: apply_update_def update_histogram_def update_counter_def update_numeric_def
          update_average_def update_text_def put_value_def update_key_simps\<close>)
qed

lemma apply_update_count:
  assumes "apply_update E t w u = Some w'" "counter_key key [u]"
  shows "count_at w' t key = count_at w t key + hits key [u]"
proof (cases "update_key u = key")
  case False
  then show ?thesis using apply_update_other [OF assms(1)] by (simp add: count_at_def split: amount.split)
next
  case True
  with assms(2) obtain n where n: "u_amount u = Hit_count n" by (auto simp: counter_key_def)
  then have "on_metrics t (upsert key (hit_counter n) (make_integer_value E n)) w = Some w'"
    using assms(1) True by (simp add: apply_update_def update_counter_def update_key_simps)
  note m = on_metrics_at [OF this]
  have h: "hits key [u] = n" using True n by simp
  show ?thesis
  proof (cases "team_metrics w t key")
    case None
    then have "team_metrics w' t key = Some (make_integer_value E n (clock w (ticks w)))"
      using m by (simp add: upsert_eq) (metis fun_upd_same)
    then show ?thesis using None by (simp add: count_at_def make_value_defs h del: hits_simps)
  next
    case (Some v)
    then obtain v' where v': "hit_counter n (clock w (ticks w)) v = Some v'" "team_metrics w' t = (team_metrics w t)(key \<mapsto> v')"
      using m by (auto simp: upsert_eq)
    then have "metric v' = (case metric v of Integer i \<Rightarrow> Integer (i + n) | x \<Rightarrow> x) \<and> (\<exists>i. metric v = Integer i)"
      by (auto simp: hit_counter_def split: metric_union.splits)
    then show ?thesis using v' Some by (auto simp: count_at_def h simp del: hits_simps)
  qed
qed

text \<open>Every update of a document reaches its counter exactly once.\<close>

lemma run_updates_count:
  "run_updates E t us w = Some w' \<Longrightarrow> counter_key key us \<Longrightarrow> count_at w' t key = count_at w t key + hits key us"
proof (induction us arbitrary: w)
  case (Cons u us)
  then obtain w1 where w1: "apply_update E t w u = Some w1" "run_updates E t us w1 = Some w'"
    by (auto simp: run_updates_def split: option.splits)
  have "count_at w1 t key = count_at w t key + hits key [u]"
    using Cons.prems(2) by (intro apply_update_count [OF w1(1)]) (simp add: counter_key_def)
  then show ?case using Cons.IH [OF w1(2)] Cons.prems(2) by (simp add: counter_key_def)
qed (simp add: run_updates_def)

end
