(* ===== verification/TM_Handlers.thy ===== *)
theory TM_Handlers
  imports TM_Store TM_Path TM_Updates
begin

text \<open>
  The handlers of the smaller documents: \<open>process_error_message\<close>, \<open>process_url_message\<close>,
  \<open>process_regex_message\<close> and \<open>process_aggregate_message\<close>, and what all handlers share. A handler
  returns whether the document is kept (never) and the new state; \<open>None\<close> is undefined behaviour.
\<close>

section \<open>Shared steps\<close>

type_synonym ('d, 'h) step = "(bool \<times> ('d, 'h) world) ub"

text \<open>The store's operations on the process state; each takes its readings of the clock.\<close>

definition store_add_child ::
  "('j, 'd, 'h) env \<Rightarrow> string \<Rightarrow> 'j \<Rightarrow> int \<Rightarrow> ('d, 'h) world \<Rightarrow> (bool \<times> ('d, 'h) world) ub" where
  "store_add_child E trace_id child ttl w = do {
     (ok, st) \<leftarrow> tm_transaction_store_add_child E trace_id child ttl
                   (clock w (ticks w)) (clock w (ticks w + 1)) (store w);
     Some (ok, w\<lparr>store := st, ticks := ticks w + 2\<rparr>) }"

definition store_mark :: "string \<Rightarrow> ('d, 'h) world \<Rightarrow> ('d, 'h) world" where
  "store_mark trace_id w = w\<lparr>store := tm_transaction_store_mark_traceable trace_id (store w)\<rparr>"

definition store_put ::
  "('j, 'd, 'h) env \<Rightarrow> string \<Rightarrow> u64 \<Rightarrow> 'j \<Rightarrow> int \<Rightarrow> ('d, 'h) world \<Rightarrow> bool \<times> ('d, 'h) world" where
  "store_put E trace_id first d ttl w =
     (let (ok, st) = tm_transaction_store_put E trace_id first d ttl (clock w (ticks w)) (store w)
      in (ok, w\<lparr>store := st, ticks := ticks w + 1\<rparr>))"

section \<open>Errors\<close>

definition error_updates :: "mctx \<Rightarrow> bool \<Rightarrow> 'd update list" where
  "error_updates c host =
     when_list host [count1 c ''transaction - apm_error_count'' [] (mc_tags c @ mc_rollup c)] @
     [count1 c ''transaction - apm_error_count'' [] (mc_agg c)]"

definition process_error_message :: "('j, 'd, 'h) env \<Rightarrow> 'j \<Rightarrow> int \<Rightarrow> ('d, 'h) world \<Rightarrow> ('d, 'h) step" where
  "process_error_message E message ttl w = do {
     (pr, w) \<leftarrow> pre_process E message w;
     let team = pre_team_buf pr;
     let w = get_team_data team w;
     (case pr of
        Pre_fail _ \<Rightarrow> Some (False, w)
      | Pre_ok p \<Rightarrow> do {
          (agg_tags, w) \<leftarrow> build_agg_tag_string E message team w;
          service_string \<leftarrow> tm_service_name E (Some message);
          if service_string = None then Some (False, add_errored w)
          else do {
            let freq = get_metric_flush_frequency_ms service_string w;
            (if jo_get E (Some message) ''error'' = None then Some (False, add_errored w)
             else (case jo_get E (Some message) ''trace'' of
                None \<Rightarrow> Some (False, add_errored w)
              | Some trace_json \<Rightarrow> do {
                  trace_id \<leftarrow> jo_string E (jo_get E (Some trace_json) ''id'');
                  (ok, w) \<leftarrow> store_add_child E trace_id message ttl w;
                  let w = store_mark trace_id w;
                  agg_ts \<leftarrow> center_timestamp (pre_timestamp p) freq;
                  td \<leftarrow> the_team w team;
                  let c = \<lparr>mc_tags = pre_tags p, mc_agg = agg_tags, mc_rollup = rollup_tag td,
                           mc_us = 0, mc_ts = agg_ts\<rparr>;
                  w \<leftarrow> run_updates E team (error_updates c (collect_host_level_metrics td)) w;
                  Some (False, w) })) } }) }"

section \<open>URLs and regular expressions\<close>

text \<open>
  \<open>context.service.name\<close>: \<open>None\<close> when an object is missing, else what the name's string is
  (\<open>None\<close> again when it has none).
\<close>

definition context_name :: "('j, 'd, 'h) env \<Rightarrow> 'j \<Rightarrow> string option option" where
  "context_name E message =
     (case jo_get E (Some message) ''context'' of
        None \<Rightarrow> None
      | Some context \<Rightarrow>
          (case jo_get E (Some context) ''service'' of
             None \<Rightarrow> None
           | Some service \<Rightarrow>
               (case jo_get E (Some service) ''name'' of
                  None \<Rightarrow> None
                | Some name \<Rightarrow> Some (jo_string E (Some name)))))"

definition new_service_info :: service_info where
  "new_service_info = \<lparr>service_agent = None, si_type = SERVICE_TYPE_UNKNOWN, created = False\<rparr>"

definition note_service :: "string \<Rightarrow> ('d, 'h) team_data \<Rightarrow> ('d, 'h) team_data" where
  "note_service service td =
     (if service_data td service = None
      then td\<lparr>service_data := (service_data td)(service \<mapsto> new_service_info)\<rparr> else td)"

definition squash_url :: "string \<Rightarrow> string \<Rightarrow> ('d, 'h) team_data \<Rightarrow> ('d, 'h) team_data ub" where
  "squash_url service url td = do {
     let ps = (case path_squashers td service of
                 Some ps \<Rightarrow> ps
               | None \<Rightarrow> tm_path_squasher_alloc (path_squash_cardinality_factor td));
     ps \<leftarrow> tm_path_squasher_add_path ps url;
     Some (td\<lparr>path_squashers := (path_squashers td)(service \<mapsto> ps)\<rparr>) }"

definition process_url_message :: "('j, 'd, 'h) env \<Rightarrow> 'j \<Rightarrow> ('d, 'h) world \<Rightarrow> ('d, 'h) step" where
  "process_url_message E message w =
     (case context_name E message of
        None \<Rightarrow> Some (False, w)
      | Some name \<Rightarrow>
          (case tm_get_team 128 name of
             None \<Rightarrow> None
           | Some None \<Rightarrow> Some (False, w)
           | Some (Some team) \<Rightarrow> do {
               service \<leftarrow> name;
               let w = get_team_data team w;
               td \<leftarrow> the_team w team;
               let td = note_service service td;
               (case jo_get E (Some message) ''url'' of
                  None \<Rightarrow> Some (False, put_team team td w)
                | Some u \<Rightarrow> do {
                    url \<leftarrow> jo_string E (Some u);
                    td \<leftarrow> squash_url service url td;
                    Some (False, put_team team td w) }) }))"

text \<open>
  The table of a service is created before the pattern is compiled, and stays when that fails.
\<close>

definition add_regex ::
  "('j, 'd, 'h) env \<Rightarrow> string \<Rightarrow> string \<Rightarrow> string option \<Rightarrow> ('d, 'h) team_data \<Rightarrow> ('d, 'h) team_data ub" where
  "add_regex E service regex replace td = do {
     let t = (case squash_regexes td service of Some t \<Rightarrow> t | None \<Rightarrow> Map.empty);
     escaped \<leftarrow> escape_regex regex;
     t \<leftarrow> (if t escaped \<noteq> None \<or> \<not> pcre_compile E escaped then Some t
           else do { r \<leftarrow> replace; Some (t(escaped \<mapsto> \<lparr>match = escaped, replacement = r\<rparr>)) });
     Some (td\<lparr>squash_regexes := (squash_regexes td)(service \<mapsto> t)\<rparr>) }"

definition process_regex_message :: "('j, 'd, 'h) env \<Rightarrow> 'j \<Rightarrow> ('d, 'h) world \<Rightarrow> ('d, 'h) step" where
  "process_regex_message E message w =
     (case context_name E message of
        None \<Rightarrow> Some (False, w)
      | Some name \<Rightarrow>
          (case tm_get_team 128 name of
             None \<Rightarrow> None
           | Some None \<Rightarrow> Some (False, w)
           | Some (Some team) \<Rightarrow> do {
               service \<leftarrow> name;
               let w = get_team_data team w;
               td \<leftarrow> the_team w team;
               (case jo_get E (Some message) ''regex'' of
                  None \<Rightarrow> Some (False, w)
                | Some r \<Rightarrow> do {
                    regex \<leftarrow> jo_string E (Some r);
                    td \<leftarrow> add_regex E service regex (jo_string E (jo_get E (Some message) ''replace'')) td;
                    Some (False, put_team team td w) }) }))"

section \<open>The contract of a document handler\<close>

text \<open>
  A handler never keeps its document, and changes the teams only by the steps a document may take.
  What follows for any sequence of documents is proved once here.
\<close>

locale document_handler =
  fixes handle :: "'m \<Rightarrow> ('d, 'h) world \<Rightarrow> (bool \<times> ('d, 'h) world) ub"
  assumes dropped: "handle m w = Some (r, w') \<Longrightarrow> \<not> r"
    and step: "handle m w = Some (r, w') \<Longrightarrow> docs_step w w'"
begin

lemma typed: "handle m w = Some (r, w') \<Longrightarrow> typed_world w \<Longrightarrow> typed_world w'"
  using step docs_step_typed by blast

lemma keeps: "handle m w = Some (r, w') \<Longrightarrow> dom (team_metrics w t) \<subseteq> dom (team_metrics w' t)"
  using step docs_step_keeps by blast

lemma runs:
  assumes "foldM (\<lambda>w m. map_option snd (handle m w)) w ms = Some w'" "typed_world w"
  shows "typed_world w' \<and> dom (team_metrics w t) \<subseteq> dom (team_metrics w' t)"
  using assms
proof (induction ms arbitrary: w)
  case (Cons m ms)
  then obtain r w1 where "handle m w = Some (r, w1)" "foldM (\<lambda>w m. map_option snd (handle m w)) w1 ms = Some w'"
    by (auto split: option.splits)
  with Cons typed keeps [of m w r w1 t] show ?case by (meson subset_trans)
qed simp

end

section \<open>Facts\<close>

text \<open>The parts of a handler, each continuing a step of the same team.\<close>

lemma pre_process_step:
  "pre_process E m w = Some (pr, w1) \<Longrightarrow> doc_step (pre_team_buf pr) w w1"
  by (drule pre_process_world) (auto simp: pre_team_buf_def doc_step_get_team_data split: pre_result.splits)

lemma pre_ok_step [doc_eqs]:
  "pre_process E m w = Some (Pre_ok p, w1) \<Longrightarrow> doc_step (pre_team p) w w1"
  by (drule pre_process_step) (simp add: pre_team_buf_def)

lemma pre_fail_step [doc_eqs]:
  "pre_process E m w = Some (Pre_fail t, w1) \<Longrightarrow> doc_step t w w1"
  by (drule pre_process_step) (simp add: pre_team_buf_def)

lemma build_agg_then [doc_eqs]:
  "build_agg_tag_string E m t w = Some (tags, w1) \<Longrightarrow> doc_step t w0 w \<Longrightarrow> doc_step t w0 w1"
  by (drule build_agg_world) (simp add: get_team_data_then)

lemma store_add_child_then [doc_eqs]:
  "store_add_child E trace_id child ttl w = Some (ok, w1) \<Longrightarrow> doc_step t w0 w \<Longrightarrow> doc_step t w0 w1"
  by (auto simp: store_add_child_def bind_eq_Some_conv intro: same_teams_then)

lemma store_mark_then [doc_acts]: "doc_step t w0 w \<Longrightarrow> doc_step t w0 (store_mark trace_id w)"
  by (erule same_teams_then) (simp add: store_mark_def)

lemma store_put_then [doc_acts]: "doc_step t w0 w \<Longrightarrow> doc_step t w0 (snd (store_put E trace_id first d ttl w))"
  by (erule same_teams_then) (simp add: store_put_def Let_def split_beta)

lemma add_errored_then [doc_acts]:
  "doc_step t w0 w \<Longrightarrow> doc_step t w0 (add_errored w)" "doc_step t w0 w \<Longrightarrow> doc_step t w0 (add_filtered w)"
  by (auto simp: add_errored_def add_filtered_def elim!: same_teams_then)

lemma ticks_then [doc_acts]: "doc_step t w0 w \<Longrightarrow> doc_step t w0 (w\<lparr>ticks := n\<rparr>)"
  by (erule same_teams_then) simp

lemma error_updates_ok: "list_all update_ok (error_updates c host)"
  by (simp add: error_updates_def count1_ok heads_mem)

lemmas error_updates_then [doc_eqs] = run_updates_then [OF _ error_updates_ok]

lemma put_team_then:
  "doc_step t w0 w \<Longrightarrow> the_team w t = Some td \<Longrightarrow> team_step td td' \<Longrightarrow> doc_step t w0 (put_team t td' w)"
  by (erule doc_step_trans) (auto simp: the_team_def intro: doc_step_put_team)

text \<open>The contract of one run, and of a part of a handler, which returns something else.\<close>

abbreviation handled :: "('d, 'h) world \<Rightarrow> ('d, 'h) step \<Rightarrow> bool" where
  "handled w m \<equiv> post m (\<lambda>res. \<not> fst res \<and> (\<exists>t. doc_step t w (snd res)))"

abbreviation stepped :: "string \<Rightarrow> ('d, 'h) world \<Rightarrow> ('x \<times> ('d, 'h) world) ub \<Rightarrow> bool" where
  "stepped t w m \<equiv> post m (\<lambda>r. doc_step t w (snd r))"

lemma handled_Some: "doc_step t w w' \<Longrightarrow> handled w (Some (False, w'))"
  by (auto simp: post_def)

lemma stepped_Some: "doc_step t w w' \<Longrightarrow> stepped t w (Some (x, w'))"
  by (simp add: post_def)

lemma steppedD: "m = Some (x, w1) \<Longrightarrow> stepped t w m \<Longrightarrow> doc_step t w0 w \<Longrightarrow> doc_step t w0 w1"
  by (auto simp: post_def intro: doc_step_trans)

lemma post_pre [post_intros]:
  "(\<And>t. x = Pre_fail t \<Longrightarrow> post (f t) P) \<Longrightarrow> (\<And>p. x = Pre_ok p \<Longrightarrow> post (g p) P) \<Longrightarrow>
     post (case x of Pre_fail t \<Rightarrow> f t | Pre_ok p \<Rightarrow> g p) P"
  by (cases x) simp_all

text \<open>Publishing a message and making a path generic touch neither teams nor store.\<close>

lemma genericize_path_then [doc_eqs]:
  "genericize_path E service str team w = Some (p, w1) \<Longrightarrow> doc_step t w0 w \<Longrightarrow> doc_step t w0 w1"
  using genericize_path_same [of E service str team w p w1] by (blast intro: same_teams_then)

lemma document_handlersI:
  "(\<And>m w. post (handle m w) (\<lambda>r. \<not> fst r \<and> docs_step w (snd r))) \<Longrightarrow> document_handler handle"
  by unfold_locales (fastforce simp: post_def)+

lemma document_handlerI: "(\<And>m w. handled w (handle m w)) \<Longrightarrow> document_handler handle"
  by (rule document_handlersI) (fastforce simp: post_def intro: docs_step_one)

lemma pre_team_buf_simps [simp]: "pre_team_buf (Pre_fail t) = t" "pre_team_buf (Pre_ok p) = pre_team p"
  by (simp_all add: pre_team_buf_def)

lemma error_handled: "handled w (process_error_message E message ttl w)"
  unfolding process_error_message_def Let_def
  by (intro post_intros; (clarsimp)?; (rule handled_Some, (erule doc_eqs | rule doc_acts)+))

interpretation error: document_handler "\<lambda>(message, ttl). process_error_message E message ttl"
  for E :: "('j, 'd, 'h) env"
  by (rule document_handlerI) (auto intro: error_handled)

lemma note_service_step: "team_step td (note_service service td)"
  by (simp add: note_service_def team_step_def same_settings_def)

lemma squash_url_step: "squash_url service url td = Some td' \<Longrightarrow> team_step td td'"
  by (auto simp: squash_url_def bind_eq_Some_conv Let_def team_step_def same_settings_def)

lemma add_regex_step: "add_regex E service regex rep td = Some td' \<Longrightarrow> team_step td td'"
  by (auto simp: add_regex_def bind_eq_Some_conv Let_def team_step_def same_settings_def)

lemma url_handled: "handled w (process_url_message E message w)"
  unfolding process_url_message_def Let_def
  by (intro post_intros; (clarsimp)?; rule handled_Some)
     (auto intro!: doc_acts doc_step_refl
       intro: put_team_then note_service_step team_step_trans squash_url_step)

lemma regex_handled: "handled w (process_regex_message E message w)"
  unfolding process_regex_message_def Let_def
  by (intro post_intros; (clarsimp)?; rule handled_Some)
     (auto intro!: doc_acts doc_step_refl intro: put_team_then add_regex_step)

interpretation url: document_handler "process_url_message E" for E :: "('j, 'd, 'h) env"
  by (rule document_handlerI) (rule url_handled)

interpretation regex: document_handler "process_regex_message E" for E :: "('j, 'd, 'h) env"
  by (rule document_handlerI) (rule regex_handled)

end
