(* ===== verification/TM_Aggregate.thy ===== *)
theory TM_Aggregate
  imports TM_Handlers
begin

text \<open>
  \<open>tm_process_aggregate.c\<close>: an aggregate document carries metrics that another instance has
  flushed; each is merged into the table of the team its name belongs to.
\<close>

section \<open>The team of a metric name\<close>

text \<open>
  The buffers \<open>service_name\<close> and \<open>team\<close> (256 bytes each) live across the metrics of a document;
  \<open>None\<close> is a buffer nothing has been written to.
\<close>

type_synonym name_bufs = "string option \<times> string option"

fun parse_tags :: "string list \<Rightarrow> name_bufs \<Rightarrow> bool \<Rightarrow> (name_bufs \<times> bool) ub" where
  "parse_tags [] bufs team_tag = Some (bufs, team_tag)"
| "parse_tags (tag # tags) (service, team) team_tag = do {
     service \<leftarrow> (case strstr tag ''service:'' of
                    None \<Rightarrow> Some service
                  | Some p \<Rightarrow> map_option Some (into_buf 256 (drop (p + 8) tag)));
     (team, team_tag) \<leftarrow> (case strstr tag ''team:'' of
                    None \<Rightarrow> Some (team, team_tag)
                  | Some p \<Rightarrow> map_option (\<lambda>t. (Some t, True)) (into_buf 256 (drop (p + 5) tag)));
     parse_tags tags (service, team) team_tag }"

text \<open>\<open>strstr\<close> of a missing bracket gives NULL, and the difference of the pointers is undefined.\<close>

definition parse_key :: "string \<Rightarrow> name_bufs \<Rightarrow> (bool \<times> name_bufs) ub" where
  "parse_key key bufs =
     (case strstr key ''|ST['' of
        None \<Rightarrow> Some (False, bufs)
      | Some p \<Rightarrow> do {
          let rest = drop (p + 4) key;
          q \<leftarrow> strstr rest '']'';
          tags \<leftarrow> into_buf 3172 (take q rest);
          ((service, team), team_tag) \<leftarrow> parse_tags (strtok (CHR '','') tags) bufs False;
          if team_tag then Some (True, service, team)
          else do {
            s \<leftarrow> service;
            got \<leftarrow> tm_get_team 256 (Some s);
            Some (True, service, if got = None then team else got) } })"

section \<open>Numeric rollups of a histogram\<close>

definition build_rollup_key :: "string \<Rightarrow> string \<Rightarrow> string \<Rightarrow> nat \<Rightarrow> string option ub" where
  "build_rollup_key key search rep mlen =
     (case strstr key search of
        None \<Rightarrow> Some None
      | Some p \<Rightarrow>
          if mlen \<le> p then None
          else Some (Some (take (mlen - 1) (take (mlen - 1) (take p key @ rep) @ drop (p + 9) key))))"

definition hit_rollup ::
  "'d \<Rightarrow> u64 \<Rightarrow> ('d, 'h) metric_value \<Rightarrow> ('d, 'h) metric_value ub" where
  "hit_rollup d now v =
     (case metric v of Number x \<Rightarrow> Some (v\<lparr>last_seen := now, metric := Number d\<rparr>) | _ \<Rightarrow> None)"

definition store_numeric_rollup ::
  "('j, 'd, 'h) env \<Rightarrow> string \<Rightarrow> string \<Rightarrow> string \<Rightarrow> 'd \<Rightarrow> u64 \<Rightarrow> ('d, 'h) world \<Rightarrow> ('d, 'h) world ub" where
  "store_numeric_rollup E team key rep value ts w =
     (if \<not> d_isnormal E value then Some w
      else do {
        name \<leftarrow> build_rollup_key key ''- latency'' rep 4096;
        (case name of
           None \<Rightarrow> Some w
         | Some n \<Rightarrow> on_metrics team (upsert (make_metric_key n ts) (hit_rollup value) (make_numeric_value E value)) w) })"

section \<open>Merging a metric\<close>

definition hit_merge ::
  "('j, 'd, 'h) env \<Rightarrow> 'h \<Rightarrow> u64 \<Rightarrow> ('d, 'h) metric_value \<Rightarrow> ('d, 'h) metric_value ub" where
  "hit_merge E h now v =
     (case metric v of
        Histogram h0 \<Rightarrow> Some (v\<lparr>last_seen := now, metric := Histogram (h_accumulate E h0 h)\<rparr>)
      | _ \<Rightarrow> None)"

text \<open>The histogram stored under a key, from which the rollups are computed.\<close>

definition stored_hist :: "('d, 'h) world \<Rightarrow> string \<Rightarrow> metric_key \<Rightarrow> 'h ub" where
  "stored_hist w team key = do {
     v \<leftarrow> team_metrics w team key;
     (case metric v of Histogram h \<Rightarrow> Some h | _ \<Rightarrow> None) }"

definition aggregate_histogram ::
  "('j, 'd, 'h) env \<Rightarrow> string \<Rightarrow> string \<Rightarrow> 'j option \<Rightarrow> ('d, 'h) world \<Rightarrow> ('d, 'h) world ub" where
  "aggregate_histogram E team key val w = do {
     b64 \<leftarrow> jo_string E (jo_get E val ''_value'');
     let ts = jo_uint64 E (jo_get E val ''_ts'');
     let h = h_from_b64 E b64;
     let mkey = make_metric_key key ts;
     w \<leftarrow> on_metrics team (upsert mkey (hit_merge E h) (new_value (env_owner E) (Histogram h))) w;
     m \<leftarrow> stored_hist w team mkey;
     w \<leftarrow> store_numeric_rollup E team key ''- average_latency'' (h_mean E m) ts w;
     w \<leftarrow> store_numeric_rollup E team key ''- min_latency'' (h_quantile E m 0) ts w;
     w \<leftarrow> store_numeric_rollup E team key ''- p95_latency'' (h_quantile E m 95) ts w;
     w \<leftarrow> store_numeric_rollup E team key ''- p99_latency'' (h_quantile E m 99) ts w;
     w \<leftarrow> store_numeric_rollup E team key ''- max_latency'' (h_quantile E m 100) ts w;
     store_numeric_rollup E team key ''- stddev_latency'' (h_stddev E m) ts w }"

definition aggregate_integer ::
  "('j, 'd, 'h) env \<Rightarrow> string \<Rightarrow> string \<Rightarrow> 'j option \<Rightarrow> ('d, 'h) world \<Rightarrow> ('d, 'h) world ub" where
  "aggregate_integer E team key val =
     (let c = jo_uint64 E (jo_get E val ''_value''); ts = jo_uint64 E (jo_get E val ''_ts'')
      in on_metrics team (upsert (make_metric_key key ts) (hit_counter c) (make_integer_value E c)))"

definition aggregate_number ::
  "('j, 'd, 'h) env \<Rightarrow> string \<Rightarrow> string \<Rightarrow> 'j option \<Rightarrow> ('d, 'h) world \<Rightarrow> ('d, 'h) world ub" where
  "aggregate_number E team key val =
     (let num = jo_double E (jo_get E val ''_value''); c = jo_int E (jo_get E val ''_count'');
          n = word_of_int (if c = 0 then 1 else c); ts = jo_uint64 E (jo_get E val ''_ts'')
      in on_metrics team (upsert (make_metric_key key ts) (hit_numeric E num n)
           (\<lambda>now. (make_numeric_value E num now)\<lparr>mcount := n\<rparr>)))"

definition aggregate_metric ::
  "('j, 'd, 'h) env \<Rightarrow> string \<Rightarrow> string \<Rightarrow> 'j option \<Rightarrow> ('d, 'h) world \<Rightarrow> ('d, 'h) world ub" where
  "aggregate_metric E team key val w = do {
     s \<leftarrow> jo_string E (jo_get E val ''_type'');
     (case s of
        c # _ \<Rightarrow>
          (if c = CHR ''h'' then aggregate_histogram E team key val w
           else if c = CHR ''L'' then aggregate_integer E team key val w
           else if c = CHR ''n'' then aggregate_number E team key val w
           else Some w)
      | [] \<Rightarrow> Some w) }"

fun aggregate_items ::
  "('j, 'd, 'h) env \<Rightarrow> (string \<times> 'j option) list \<Rightarrow> name_bufs \<Rightarrow> ('d, 'h) world \<Rightarrow> ('d, 'h) world ub" where
  "aggregate_items E [] bufs w = Some w"
| "aggregate_items E ((key, val) # items) bufs w =
     (if key = ''processor'' \<or> key = ''context'' then aggregate_items E items bufs w
      else (case parse_key key bufs of
          None \<Rightarrow> None
        | Some (False, bufs) \<Rightarrow> aggregate_items E items bufs w
        | Some (True, service, None) \<Rightarrow> None
        | Some (True, service, Some team) \<Rightarrow>
            (case aggregate_metric E team key val (get_team_data team w) of
               None \<Rightarrow> None
             | Some w \<Rightarrow> aggregate_items E items (service, Some team) w)))"

definition process_aggregate_message ::
  "('j, 'd, 'h) env \<Rightarrow> 'j \<Rightarrow> ('d, 'h) world \<Rightarrow> ('d, 'h) step" where
  "process_aggregate_message E message w =
     map_option (\<lambda>w. (False, w)) (aggregate_items E (jo_items E message) (None, None) w)"

section \<open>Facts\<close>

interpretation aggregated: update_contract
  "\<lambda>(team, key, c, ts). on_metrics team (upsert (make_metric_key key ts) (hit_counter c) (make_integer_value E c))"
  "\<lambda>(team, key, c, ts). team" "\<lambda>(team, key, c, ts). make_metric_key key ts"
  "\<lambda>(team, key, c, ts). add_count c" "\<lambda>(team, key, c, ts). Integer c"
  for E :: "('j, 'd, 'h) env"
  by (rule metric_update_upsert
        [where hit = "\<lambda>(team, key, c, ts). hit_counter c"
           and mk = "\<lambda>(team, key, c, ts). make_integer_value E c"])
     (auto simp: update_op_defs split: metric_union.splits)

text \<open>
  A document may merge metrics of several teams; their keys are not the handlers' own.
\<close>

lemma foreign_step:
  assumes "on_metrics team (upsert (make_metric_key n ts) hit mk) w = Some w'"
  shows "doc_step team w w'"
proof -
  from assms obtain td m where td: "teams w team = Some td"
    and m: "upsert (make_metric_key n ts) hit mk (clock w (ticks w)) (hash td) = Some m"
    and w': "w' = put_team team (td\<lparr>hash := m\<rparr>) (w\<lparr>ticks := ticks w + 1\<rparr>)" by (auto simp: on_metrics_Some)
  have "typed_key (make_metric_key n ts) k" for k by (simp add: typed_key_def own_key_def make_metric_key_def)
  then have "typed (hash td) \<Longrightarrow> typed m" using m by (auto simp: upsert_eq typed_def split: option.splits if_splits)
  then have "team_step td (td\<lparr>hash := m\<rparr>)"
    using upsert_grows [OF m] by (auto simp: team_step_def same_settings_def)
  then show ?thesis using td by (simp add: w' doc_step_def opt_step_def put_team_def)
qed

lemma foreign_then [doc_eqs]:
  "on_metrics team (upsert (make_metric_key n ts) hit mk) w = Some w' \<Longrightarrow> doc_step team w0 w \<Longrightarrow> doc_step team w0 w'"
  using foreign_step by (blast intro: doc_step_trans)

lemma rollup_then [doc_eqs]:
  "store_numeric_rollup E team key rep d ts w = Some w' \<Longrightarrow> doc_step team w0 w \<Longrightarrow> doc_step team w0 w'"
  by (auto simp: store_numeric_rollup_def bind_eq_Some_conv split: if_splits option.splits intro: foreign_then)

lemma merge_posts:
  "doc_step team w0 w \<Longrightarrow> post (on_metrics team (upsert (make_metric_key n ts) hit mk) w) (doc_step team w0)"
  "doc_step team w0 w \<Longrightarrow> post (store_numeric_rollup E team key rep d ts w) (doc_step team w0)"
  by (auto simp: post_def intro: foreign_then rollup_then)

lemma post_list [post_intros]:
  "post a P \<Longrightarrow> (\<And>c cs. post (f c cs) P) \<Longrightarrow> post (case xs of [] \<Rightarrow> a | c # cs \<Rightarrow> f c cs) P"
  by (cases xs) simp_all

lemma aggregate_histogram_step: "post (aggregate_histogram E team key val w) (doc_step team w)"
  unfolding aggregate_histogram_def Let_def
  by (intro post_intros; rule merge_posts; (erule doc_eqs)+; rule doc_step_refl)

lemma aggregate_metric_step: "post (aggregate_metric E team key val w) (doc_step team w)"
  unfolding aggregate_metric_def aggregate_integer_def aggregate_number_def Let_def
  by (intro post_intros) (rule aggregate_histogram_step | (rule merge_posts, rule doc_step_refl) | (rule post_Some, rule doc_step_refl))+

lemma aggregate_items_step: "aggregate_items E items bufs w = Some w' \<Longrightarrow> docs_step w w'"
proof (induction items arbitrary: bufs w)
  case (Cons item items)
  obtain key val where item: "item = (key, val)" by (cases item)
  show ?case
  proof (cases "key = ''processor'' \<or> key = ''context''")
    case True
    with Cons item show ?thesis by auto
  next
    case False
    with Cons.prems item obtain ok service team_buf where pk: "parse_key key bufs = Some (ok, service, team_buf)"
      by (cases "parse_key key bufs") auto
    show ?thesis
    proof (cases ok)
      case True
      with False pk item Cons.prems obtain team w1 where t: "team_buf = Some team"
          "aggregate_metric E team key val (get_team_data team w) = Some w1"
          "aggregate_items E items (service, Some team) w1 = Some w'"
        by (auto split: option.splits)
      have "doc_step team (get_team_data team w) w1" using postD [OF t(2) aggregate_metric_step] .
      then have "docs_step w w1"
        by (meson docs_step_one docs_step_trans doc_step_get_team_data)
      then show ?thesis using Cons.IH [OF t(3)] by (rule docs_step_trans)
    next
      case no: False
      then show ?thesis using Cons False pk item by auto
    qed
  qed
qed simp

lemma aggregate_handled:
  "post (process_aggregate_message E message w) (\<lambda>r. \<not> fst r \<and> docs_step w (snd r))"
  by (auto simp: process_aggregate_message_def post_def dest: aggregate_items_step)

interpretation aggregate_doc: document_handler "process_aggregate_message E" for E :: "('j, 'd, 'h) env"
  by (rule document_handlersI) (rule aggregate_handled)

text \<open>A tag list is split at its commas.\<close>

lemma split_on_append:
  "d \<notin> set a \<Longrightarrow> split_on d (a @ d # b) = a # split_on d b"
  by (induction a) auto

lemma strtok_cons: "d \<notin> set a \<Longrightarrow> a \<noteq> [] \<Longrightarrow> strtok d (a @ d # b) = a # strtok d b"
  by (simp add: strtok_def split_on_append)

lemma strstr_first: "strstr (n @ r) n = Some 0"
  by (cases n; cases r) simp_all

lemma strstr_char: "c \<notin> set a \<Longrightarrow> strstr (a @ c # r) [c] = Some (length a)"
  by (induction a) auto

end
