(* ===== verification/TM_Span.thy ===== *)
theory TM_Span
  imports TM_Handlers
begin

text \<open>
  \<open>process_span_message\<close> (tm_process_elastic_span.c): a span is a child of its trace, and its type
  decides the metrics: database, external call or internal.
\<close>

section \<open>The metrics of a span\<close>

definition db_updates :: "mctx \<Rightarrow> bool \<Rightarrow> string option \<Rightarrow> string \<Rightarrow> 'd update list" where
  "db_updates c host subtype operation =
     [latency c ''db - latency - '' operation (mc_agg c @ mc_rollup c)] @
     when_list host
       [latency c ''db - latency - '' operation (mc_tags c @ mc_rollup c),
        count1 c ''db - stmt_count - '' operation (mc_tags c @ mc_rollup c)] @
     (case subtype of
        None \<Rightarrow> []
      | Some st \<Rightarrow>
          [latency c ''db - latency - '' (st @ '' - '' @ operation) (mc_agg c @ mc_rollup c),
           count1 c ''db - stmt_count - '' (st @ '' - '' @ operation) (mc_tags c @ mc_rollup c),
           latency c ''db - latency - '' st (mc_agg c @ mc_rollup c),
           count1 c ''db - stmt_count - '' st (mc_agg c)]) @
     [latency c ''db - latency - '' ''all'' (mc_agg c),
      count1 c ''db - stmt_count - '' ''all'' (mc_agg c)]"

definition external_updates :: "mctx \<Rightarrow> bool \<Rightarrow> string \<Rightarrow> 'd update list" where
  "external_updates c host external_name =
     [latency c ''external - latency - '' external_name (mc_agg c @ mc_rollup c),
      latency c ''external - latency - '' ''all'' (mc_agg c)] @
     when_list host
       [latency c ''external - latency - '' external_name (mc_tags c @ mc_rollup c),
        count1 c ''external - call_count - '' external_name (mc_tags c @ mc_rollup c)] @
     [count1 c ''external - call_count - '' ''all'' (mc_agg c)]"

definition internal_updates :: "mctx \<Rightarrow> bool \<Rightarrow> string \<Rightarrow> 'd update list" where
  "internal_updates c host span_name =
     [latency c ''internal - latency - '' span_name (mc_agg c @ mc_rollup c),
      latency c ''internal - latency - '' ''all'' (mc_agg c),
      count1 c ''internal - call_count - '' span_name (mc_agg c @ mc_rollup c),
      count1 c ''internal - call_count - '' ''all'' (mc_agg c)] @
     when_list host
       [latency c ''internal - latency - '' span_name (mc_tags c @ mc_rollup c),
        count1 c ''intternal - call_count - '' span_name (mc_tags c @ mc_rollup c)]"

text \<open>The subtype is a field of the span in version 7, and inside its type in version 6.\<close>

definition span_subtype :: "('j, 'd, 'h) env \<Rightarrow> int \<Rightarrow> 'j option \<Rightarrow> string \<Rightarrow> string option ub" where
  "span_subtype E mv span t =
     (if 6 < mv then Some (jo_string E (jo_get E span ''subtype'')) else map_option Some (parse_v6_type t))"

text \<open>
  The branches on the type. A NULL name is only undefined where it is formatted; \<open>genericize_path\<close>
  accepts one.
\<close>

definition span_metrics ::
  "('j, 'd, 'h) env \<Rightarrow> string \<Rightarrow> string \<Rightarrow> int \<Rightarrow> 'j option \<Rightarrow> string \<Rightarrow> mctx \<Rightarrow> u64 \<Rightarrow> u64 \<Rightarrow>
     ('d, 'h) world \<Rightarrow> ('d, 'h) world ub" where
  "span_metrics E team service mv span t c ts0 freq w = do {
     td \<leftarrow> the_team w team;
     let host = collect_host_level_metrics td;
     let name = jo_string E (jo_get E span ''name'');
     (if strncmp_eq t ''db'' 2 then do {
        ts \<leftarrow> center_timestamp ts0 freq;
        subtype \<leftarrow> span_subtype E mv span t;
        operation \<leftarrow> name;
        run_updates E team (db_updates (c\<lparr>mc_ts := ts\<rparr>) host subtype operation) w }
      else if t = ''external.http'' \<or> t = ''ext.http.http'' \<or> t = ''external'' then do {
        (external_name, w) \<leftarrow> genericize_path E service name team w;
        ts \<leftarrow> center_timestamp ts0 freq;
        run_updates E team (external_updates (c\<lparr>mc_ts := ts\<rparr>) host external_name) w }
      else if t = ''custom'' \<or> t = ''app'' then do {
        ts \<leftarrow> center_timestamp ts0 freq;
        span_name \<leftarrow> name;
        run_updates E team (internal_updates (c\<lparr>mc_ts := ts\<rparr>) host span_name) w }
      else Some w) }"

section \<open>The handler\<close>

text \<open>After the span, its duration and the trace id are found.\<close>

definition span_accepted ::
  "('j, 'd, 'h) env \<Rightarrow> 'j \<Rightarrow> pre \<Rightarrow> string \<Rightarrow> 'j \<Rightarrow> 'j \<Rightarrow> string \<Rightarrow> int \<Rightarrow> ('d, 'h) world \<Rightarrow> ('d, 'h) step" where
  "span_accepted E message p agg_tags span dur trace_id ttl w = do {
     let duration_us = jo_uint64 E (jo_get E (Some dur) ''us'');
     let ts0 = pre_timestamp p + duration_us div 1000;
     (ok, w) \<leftarrow> store_add_child E trace_id message ttl w;
     service_string \<leftarrow> tm_service_name E (Some message);
     (case service_string of
        None \<Rightarrow> Some (False, add_errored w)
      | Some service \<Rightarrow> do {
          let freq = get_metric_flush_frequency_ms (Some service) w;
          td \<leftarrow> the_team w (pre_team p);
          mv \<leftarrow> tm_apm_server_major_version E (Some message);
          t \<leftarrow> jo_string E (jo_get E (Some span) ''type'');
          let c = \<lparr>mc_tags = pre_tags p, mc_agg = agg_tags, mc_rollup = rollup_tag td,
                   mc_us = duration_us, mc_ts = ts0\<rparr>;
          w \<leftarrow> span_metrics E (pre_team p) service mv (Some span) t c ts0 freq w;
          Some (False, w) }) }"

definition process_span_message :: "('j, 'd, 'h) env \<Rightarrow> 'j \<Rightarrow> int \<Rightarrow> ('d, 'h) world \<Rightarrow> ('d, 'h) step" where
  "process_span_message E message ttl w = do {
     (pr, w) \<leftarrow> pre_process E message w;
     let w = get_team_data (pre_team_buf pr) w;
     (case pr of
        Pre_fail _ \<Rightarrow> Some (False, w)
      | Pre_ok p \<Rightarrow>
          (case jo_get E (Some message) ''span'' of
             None \<Rightarrow> Some (False, w)
           | Some span \<Rightarrow> do {
               (agg_tags, w) \<leftarrow> build_agg_tag_string E message (pre_team p) w;
               (case jo_get E (Some span) ''duration'' of
                  None \<Rightarrow> Some (False, w)
                | Some dur \<Rightarrow>
                    (case jo_get E (Some message) ''trace'' of
                       None \<Rightarrow> Some (False, w)
                     | Some trace_json \<Rightarrow>
                         (case jo_string E (jo_get E (Some trace_json) ''id'') of
                            None \<Rightarrow> Some (False, w)
                          | Some trace_id \<Rightarrow> span_accepted E message p agg_tags span dur trace_id ttl w))) })) }"

section \<open>Facts\<close>

lemma span_updates_ok:
  "list_all update_ok (db_updates c host subtype operation)"
  "list_all update_ok (external_updates c host name)"
  "list_all update_ok (internal_updates c host name)"
  by (simp_all add: db_updates_def external_updates_def internal_updates_def latency_ok count1_ok heads_mem split: option.split)

lemma run_updates_post: "list_all update_ok us \<Longrightarrow> doc_step t w0 w \<Longrightarrow> post (run_updates E t us w) (doc_step t w0)"
  by (auto simp: post_def intro: run_updates_then)

lemmas span_updates_post = span_updates_ok [THEN run_updates_post]

lemma span_metrics_step: "post (span_metrics E team service mv span t c ts0 freq w) (doc_step team w)"
  unfolding span_metrics_def Let_def
  by (intro post_intros; (hypsubst+)?;
      ((rule span_updates_post, (erule genericize_path_then)?, rule doc_step_refl) | (rule post_Some, rule doc_step_refl)))

lemma span_metrics_then [doc_eqs]:
  "span_metrics E team service mv span t c ts0 freq w = Some w1 \<Longrightarrow> doc_step team w0 w \<Longrightarrow> doc_step team w0 w1"
  using postD [OF _ span_metrics_step] by (blast intro: doc_step_trans)

lemma span_accepted_handled:
  "doc_step (pre_team p) w0 w \<Longrightarrow> handled w0 (span_accepted E message p agg_tags span dur trace_id ttl w)"
  unfolding span_accepted_def Let_def
  by (intro post_intros; (hypsubst+)?; (rule handled_Some, (erule doc_eqs | rule doc_acts | assumption)+))

lemma span_handled: "handled w (process_span_message E message ttl w)"
  unfolding process_span_message_def Let_def
  by (intro post_intros; (clarsimp)?; ((rule handled_Some | rule span_accepted_handled), (erule doc_eqs | rule doc_acts)+))

interpretation span: document_handler "\<lambda>(message, ttl). process_span_message E message ttl"
  for E :: "('j, 'd, 'h) env"
  by (rule document_handlerI) (auto intro: span_handled)

end
