(* ===== verification/TM_ProcessMetric.thy ===== *)
theory TM_ProcessMetric
  imports TM_Handlers
begin

text \<open>
  \<open>process_metric_message\<close> (tm_process_metric.c): the telemetry of a service's runtime. Version
  7.15 documents name their fields with dots, the others nest objects; both make the same
  metrics when no object lacks a field.
\<close>

section \<open>One gauge\<close>

text \<open>
  A gauge makes a host level metric, stored with \<open>mtev_hash_replace\<close> under the document's own
  time when the team collects those, and an aggregate at the centre of its window.
\<close>

record gctx =
  gc_c :: mctx
  gc_host :: bool
  gc_ts :: u64

definition upd :: "gctx \<Rightarrow> string \<Rightarrow> bool \<Rightarrow> bool \<Rightarrow> u64 \<Rightarrow> 'd amount \<Rightarrow> 'd update" where
  "upd g head agg_tags agg ts a =
     \<lparr>u_head = head, u_rest = [], u_tags = (if agg_tags then mc_agg (gc_c g) else mc_tags (gc_c g)),
      u_agg = agg, u_amount = a, u_ts = ts\<rparr>"

definition host_only :: "gctx \<Rightarrow> string \<Rightarrow> bool \<Rightarrow> u64 \<Rightarrow> 'd amount \<Rightarrow> 'd update list" where
  "host_only g head agg ts a = when_list (gc_host g) [upd g head False agg ts a]"

definition agg_only :: "gctx \<Rightarrow> string \<Rightarrow> 'd amount \<Rightarrow> 'd update list" where
  "agg_only g head a = [upd g head True True (mc_ts (gc_c g)) a]"

definition sum_gauge :: "('j, 'd, 'h) env \<Rightarrow> gctx \<Rightarrow> string \<Rightarrow> 'j option \<Rightarrow> 'd update list" where
  "sum_gauge E g head v =
     host_only g head False (gc_ts g) (Set_number (jo_double E v)) @ agg_only g head (Hit_number (jo_double E v))"

definition average_gauge :: "('j, 'd, 'h) env \<Rightarrow> gctx \<Rightarrow> string \<Rightarrow> 'j option \<Rightarrow> 'd update list" where
  "average_gauge E g head v =
     host_only g head False (gc_ts g) (Set_number (jo_double E v)) @ agg_only g head (Hit_average (jo_double E v))"

text \<open>An unsigned integer of the document as a \<open>double\<close>.\<close>

definition jo_u64_double :: "('j, 'd, 'h) env \<Rightarrow> 'j option \<Rightarrow> 'd" where
  "jo_u64_double E v = d_int E (uint (jo_uint64 E v))"

definition thread_count :: "('j, 'd, 'h) env \<Rightarrow> gctx \<Rightarrow> 'j option \<Rightarrow> 'd update list" where
  "thread_count E g v =
     (case v of
        None \<Rightarrow> []
      | Some _ \<Rightarrow>
          host_only g ''jvm - thread - count'' False (gc_ts g) (Set_integer (jo_uint64 E v)) @
          agg_only g ''jvm - thread - count'' (Hit_number (jo_u64_double E v)))"

text \<open>
  The collector's times are counted at the centre of the window, which the code computes again
  from the same arguments.
\<close>

definition gc_updates ::
  "('j, 'd, 'h) env \<Rightarrow> gctx \<Rightarrow> 'j option \<Rightarrow> 'j option \<Rightarrow> 'j option \<Rightarrow> 'd update list" where
  "gc_updates E g time count alloc =
     (if time \<noteq> None \<and> count \<noteq> None then
        host_only g ''jvm - memory - gc - total_latency'' True (mc_ts (gc_c g))
          (Hit_number (d_div E (jo_u64_double E time) (d_int E 1000))) @
        agg_only g ''jvm - memory - gc - total_latency''
          (Hit_number (d_div E (jo_double E time) (d_int E 1000))) @
        host_only g ''jvm - memory - gc - count'' False (gc_ts g) (Hit_count (jo_uint64 E count)) @
        agg_only g ''jvm - memory - gc - count'' (Hit_average (jo_u64_double E count))
      else []) @
     (if alloc \<noteq> None then
        host_only g ''jvm - memory - gc - alloc'' False (gc_ts g) (Hit_number (jo_double E alloc)) @
        agg_only g ''jvm - memory - gc - alloc'' (Hit_average (jo_double E alloc))
      else [])"

definition eventloop_updates :: "('j, 'd, 'h) env \<Rightarrow> gctx \<Rightarrow> 'j option \<Rightarrow> 'd update list ub" where
  "eventloop_updates E g ms =
     (case ms of
        None \<Rightarrow> Some []
      | Some _ \<Rightarrow> do {
          mics \<leftarrow> d_u64 E (d_mul E (jo_double E ms) (d_int E 1000));
          Some (host_only g ''nodejs - eventloop - latency'' True (mc_ts (gc_c g)) (Hit_latency mics) @
                agg_only g ''nodejs - eventloop - latency'' (Hit_latency mics)) })"

section \<open>Fields with dots\<close>

definition flat :: "('j, 'd, 'h) env \<Rightarrow> 'j \<Rightarrow> string \<Rightarrow> ('j option \<Rightarrow> 'd update list) \<Rightarrow> 'd update list" where
  "flat E m field f = (case jo_get E (Some m) field of None \<Rightarrow> [] | Some o1 \<Rightarrow> f (Some o1))"

definition flat_system :: "('j, 'd, 'h) env \<Rightarrow> gctx \<Rightarrow> 'j \<Rightarrow> 'd update list" where
  "flat_system E g m =
     flat E m ''system.memory.total'' (sum_gauge E g ''system - memory - total'') @
     flat E m ''system.memory.actual.free'' (sum_gauge E g ''system - memory - free'') @
     flat E m ''system.process.cpu.total.norm.pct'' (sum_gauge E g ''system - process - cpu - total - pct'') @
     flat E m ''system.process.memory.size'' (sum_gauge E g ''system - process - memory - size'') @
     flat E m ''system.cpu.total.norm.pct'' (sum_gauge E g ''system - cpu - total - pct'')"

definition flat_jvm :: "('j, 'd, 'h) env \<Rightarrow> gctx \<Rightarrow> 'j \<Rightarrow> 'd update list" where
  "flat_jvm E g m =
     flat E m ''jvm.thread.count'' (thread_count E g) @
     flat E m ''jvm.memory.heap.committed'' (average_gauge E g ''jvm - memory - heap - committed'') @
     flat E m ''jvm.memory.heap.used'' (average_gauge E g ''jvm - memory - heap - used'') @
     flat E m ''jvm.memory.heap.max'' (average_gauge E g ''jvm - memory - heap - max'') @
     flat E m ''jvm.memory.non_heap.committed'' (average_gauge E g ''jvm - memory - non_heap - committed'') @
     flat E m ''jvm.memory.non_heap.used'' (average_gauge E g ''jvm - memory - non_heap - used'') @
     flat E m ''jvm.memory.non_heap.max'' (average_gauge E g ''jvm - memory - non_heap - max'')"

definition flat_gc :: "('j, 'd, 'h) env \<Rightarrow> gctx \<Rightarrow> 'j \<Rightarrow> 'd update list" where
  "flat_gc E g m =
     gc_updates E g (jo_get E (Some m) ''jvm.gc.time'') (jo_get E (Some m) ''jvm.gc.count'')
       (jo_get E (Some m) ''jvm.gc.alloc'')"

definition flat_nodejs :: "('j, 'd, 'h) env \<Rightarrow> gctx \<Rightarrow> 'j \<Rightarrow> 'd update list ub" where
  "flat_nodejs E g m = do {
     loop \<leftarrow> eventloop_updates E g (jo_get E (Some m) ''nodejs.eventloop.delay.avg.ms'');
     Some (flat E m ''nodejs.memory.heap.used.bytes'' (average_gauge E g ''nodejs - memory - heap - used'') @
           flat E m ''nodejs.memory.heap.allocated.bytes'' (average_gauge E g ''nodejs - memory - heap - allocated'') @
           loop) }"

section \<open>Nested objects\<close>

definition sub :: "('j, 'd, 'h) env \<Rightarrow> 'j \<Rightarrow> string \<Rightarrow> ('j \<Rightarrow> 'd update list) \<Rightarrow> 'd update list" where
  "sub E j field f = (case jo_get E (Some j) field of None \<Rightarrow> [] | Some x \<Rightarrow> f x)"

definition at :: "('j, 'd, 'h) env \<Rightarrow> 'j \<Rightarrow> string \<Rightarrow> 'j option" where
  "at E j field = jo_get E (Some j) field"

definition nested_system :: "('j, 'd, 'h) env \<Rightarrow> gctx \<Rightarrow> 'j \<Rightarrow> 'd update list" where
  "nested_system E g system =
     sub E system ''memory'' (\<lambda>mem.
       sum_gauge E g ''system - memory - total'' (at E mem ''total'') @
       sub E mem ''actual'' (\<lambda>actual. sum_gauge E g ''system - memory - free'' (at E actual ''free''))) @
     sub E system ''process'' (\<lambda>process.
       sub E process ''cpu'' (\<lambda>cpu. sub E cpu ''total'' (\<lambda>total. sub E total ''norm'' (\<lambda>norm.
         sum_gauge E g ''system - process - cpu - total - pct'' (at E norm ''pct'')))) @
       sub E process ''memory'' (\<lambda>mems. sum_gauge E g ''system - process - memory - size'' (at E mems ''size''))) @
     sub E system ''cpu'' (\<lambda>cpu. sub E cpu ''total'' (\<lambda>total. sub E total ''norm'' (\<lambda>norm.
       sum_gauge E g ''system - cpu - total - pct'' (at E norm ''pct''))))"

definition nested_heap :: "('j, 'd, 'h) env \<Rightarrow> gctx \<Rightarrow> 'j \<Rightarrow> 'd update list" where
  "nested_heap E g heap =
     average_gauge E g ''jvm - memory - heap - committed'' (at E heap ''committed'') @
     average_gauge E g ''jvm - memory - heap - used'' (at E heap ''used'') @
     average_gauge E g ''jvm - memory - heap - max'' (at E heap ''max'')"

definition nested_non_heap :: "('j, 'd, 'h) env \<Rightarrow> gctx \<Rightarrow> 'j \<Rightarrow> 'd update list" where
  "nested_non_heap E g heap =
     average_gauge E g ''jvm - memory - non_heap - committed'' (at E heap ''committed'') @
     average_gauge E g ''jvm - memory - non_heap - used'' (at E heap ''used'') @
     average_gauge E g ''jvm - memory - non_heap - max'' (at E heap ''max'')"

definition nested_jvm :: "('j, 'd, 'h) env \<Rightarrow> gctx \<Rightarrow> 'j \<Rightarrow> 'd update list" where
  "nested_jvm E g jvm =
     sub E jvm ''thread'' (\<lambda>thread. thread_count E g (at E thread ''count'')) @
     sub E jvm ''memory'' (\<lambda>mem.
       sub E mem ''heap'' (nested_heap E g) @ sub E mem ''non_heap'' (nested_non_heap E g)) @
     sub E jvm ''gc'' (\<lambda>gc. gc_updates E g (at E gc ''time'') (at E gc ''count'') (at E gc ''alloc''))"

text \<open>The value at the end of a chain of objects, each of which must be there.\<close>

fun chain :: "('j, 'd, 'h) env \<Rightarrow> 'j option \<Rightarrow> string list \<Rightarrow> 'j option" where
  "chain E v [] = v"
| "chain E v (f # fs) = (case v of None \<Rightarrow> None | Some j \<Rightarrow> chain E (jo_get E (Some j) f) fs)"

definition on_value :: "'j option \<Rightarrow> ('j option \<Rightarrow> 'd update list) \<Rightarrow> 'd update list" where
  "on_value v f = (case v of None \<Rightarrow> [] | Some _ \<Rightarrow> f v)"

definition nested_nodejs :: "('j, 'd, 'h) env \<Rightarrow> gctx \<Rightarrow> 'j \<Rightarrow> 'd update list ub" where
  "nested_nodejs E g nodejs = do {
     loop \<leftarrow> eventloop_updates E g (chain E (Some nodejs) [''eventloop'', ''delay'', ''avg'', ''ms'']);
     Some (on_value (chain E (Some nodejs) [''memory'', ''heap'', ''used'', ''bytes''])
             (average_gauge E g ''nodejs - memory - heap - used'') @
           on_value (chain E (Some nodejs) [''memory'', ''heap'', ''allocated'', ''bytes''])
             (average_gauge E g ''nodejs - memory - heap - allocated'') @
           loop) }"

text \<open>
  A missing \<open>heap\<close> or \<open>total_pause\<close> is passed on as NULL, which the JSON library answers with
  NULL. The pause is a \<open>double\<close> converted to the counter's type.
\<close>

definition golang_gc :: "('j, 'd, 'h) env \<Rightarrow> gctx \<Rightarrow> 'j \<Rightarrow> 'd update list ub" where
  "golang_gc E g gc =
     (let ns = jo_get E (at E gc ''total_pause'') ''ns''; count = at E gc ''total_count'' in
      if ns \<noteq> None \<and> count \<noteq> None then do {
        pause \<leftarrow> d_u64 E (jo_double E ns);
        Some (host_only g ''golang - memory - gc - total_pause_ns'' False (mc_ts (gc_c g)) (Hit_count pause) @
              agg_only g ''golang - memory - gc - total_pause_ns'' (Hit_count pause) @
              host_only g ''golang - memory - gc - total_count'' False (gc_ts g) (Hit_count (jo_uint64 E count)) @
              agg_only g ''golang - memory - gc - total_count'' (Hit_count (jo_uint64 E count))) }
      else Some [])"

definition nested_golang :: "('j, 'd, 'h) env \<Rightarrow> gctx \<Rightarrow> 'j \<Rightarrow> 'd update list ub" where
  "nested_golang E g golang = do {
     let heap = at E golang ''heap'';
     gc \<leftarrow> (case jo_get E heap ''gc'' of None \<Rightarrow> Some [] | Some gc \<Rightarrow> golang_gc E g gc);
     Some (on_value (chain E heap [''allocations'', ''allocated''])
             (average_gauge E g ''golang - memory - heap - used'') @
           gc @
           sub E golang ''goroutines'' (\<lambda>n.
             host_only g ''golang - goroutines'' False (mc_ts (gc_c g)) (Hit_average (jo_u64_double E (Some n))) @
             agg_only g ''golang - goroutines'' (Hit_average (jo_u64_double E (Some n))))) }"

section \<open>The handler\<close>

definition is_flat :: "string option \<Rightarrow> bool" where
  "is_flat version =
     (case version of
        None \<Rightarrow> False
      | Some v \<Rightarrow> strncmp_eq v ''7.15'' (if length v > 4 then 4 else length v))"

definition flat_updates :: "('j, 'd, 'h) env \<Rightarrow> gctx \<Rightarrow> 'j \<Rightarrow> 'd update list ub" where
  "flat_updates E g m = do {
     nodejs \<leftarrow> flat_nodejs E g m;
     Some (flat_system E g m @ flat_jvm E g m @ flat_gc E g m @ nodejs) }"

definition nested_updates :: "('j, 'd, 'h) env \<Rightarrow> gctx \<Rightarrow> 'j \<Rightarrow> 'd update list ub" where
  "nested_updates E g m = do {
     nodejs \<leftarrow> (case at E m ''nodejs'' of None \<Rightarrow> Some [] | Some j \<Rightarrow> nested_nodejs E g j);
     golang \<leftarrow> (case at E m ''golang'' of None \<Rightarrow> Some [] | Some j \<Rightarrow> nested_golang E g j);
     Some (sub E m ''system'' (nested_system E g) @ sub E m ''jvm'' (nested_jvm E g) @ nodejs @ golang) }"

definition agent_name :: "('j, 'd, 'h) env \<Rightarrow> int \<Rightarrow> 'j \<Rightarrow> string option" where
  "agent_name E mv m =
     (case (if 6 < mv then at E m ''agent'' else chain E (Some m) [''context'', ''service'', ''agent'']) of
        None \<Rightarrow> None
      | Some agent \<Rightarrow> jo_string E (at E agent ''name''))"

definition note_agent :: "string \<Rightarrow> string option \<Rightarrow> ('d, 'h) team_data \<Rightarrow> ('d, 'h) team_data" where
  "note_agent service an td =
     (case service_data td service of
        Some sit \<Rightarrow>
          if service_agent sit = None \<and> an \<noteq> None
          then td\<lparr>service_data := (service_data td)(service \<mapsto> sit\<lparr>service_agent := an\<rparr>)\<rparr> else td
      | None \<Rightarrow> td)"

definition metric_body ::
  "('j, 'd, 'h) env \<Rightarrow> 'j \<Rightarrow> pre \<Rightarrow> string \<Rightarrow> string \<Rightarrow> ('d, 'h) world \<Rightarrow> ('d, 'h) step" where
  "metric_body E message p agg_tags service w = do {
     td \<leftarrow> the_team w (pre_team p);
     mv \<leftarrow> tm_apm_server_major_version E (Some message);
     version \<leftarrow> tm_apm_server_version E (Some message);
     agg_ts \<leftarrow> center_timestamp (pre_timestamp p) (get_metric_flush_frequency_ms (Some service) w);
     let c = \<lparr>mc_tags = pre_tags p, mc_agg = agg_tags, mc_rollup = [], mc_us = 0, mc_ts = agg_ts\<rparr>;
     let g = \<lparr>gc_c = c, gc_host = collect_host_level_system td, gc_ts = pre_timestamp p\<rparr>;
     (if is_flat version then do {
        us \<leftarrow> flat_updates E g message;
        w \<leftarrow> run_updates E (pre_team p) us w;
        Some (False, w) }
      else do {
        let w = put_team (pre_team p) (note_agent service (agent_name E mv message) td) w;
        us \<leftarrow> nested_updates E g message;
        w \<leftarrow> run_updates E (pre_team p) us w;
        Some (False, w) }) }"

definition process_metric_message :: "('j, 'd, 'h) env \<Rightarrow> 'j \<Rightarrow> ('d, 'h) world \<Rightarrow> ('d, 'h) step" where
  "process_metric_message E message w = do {
     (pr, w) \<leftarrow> pre_process E message w;
     (case pr of
        Pre_fail _ \<Rightarrow> Some (False, w)
      | Pre_ok p \<Rightarrow> do {
          (agg_tags, w) \<leftarrow> build_agg_tag_string E message (pre_team p) w;
          let w = get_team_data (pre_team p) w;
          service_string \<leftarrow> tm_service_name E (Some message);
          (case service_string of
             None \<Rightarrow> Some (False, add_errored w)
           | Some service \<Rightarrow> metric_body E message p agg_tags service w) }) }"

section \<open>Facts\<close>

definition head_ok :: "string \<Rightarrow> bool \<Rightarrow> kind \<Rightarrow> bool" where
  "head_ok h a k = list_ex (\<lambda>(h', a', k'). take (length h') h = h' \<and> a' = a \<and> k' = k) heads"

lemma upd_ok:
  "head_ok head (case a of Set_text _ \<Rightarrow> False | Set_number _ \<Rightarrow> False | Set_integer _ \<Rightarrow> False | _ \<Rightarrow> agg) (amount_kind a) \<Longrightarrow>
     update_ok (upd g head b agg ts a)"
  by (cases a) (simp_all add: update_ok_def head_ok_def upd_def update_agg_def)

lemma list_all_host_only: "list_all P (host_only g head agg ts a) = (gc_host g \<longrightarrow> P (upd g head False agg ts a))"
  by (simp add: host_only_def)

lemma list_all_agg_only: "list_all P (agg_only g head a) = P (upd g head True True (mc_ts (gc_c g)) a)"
  by (simp add: agg_only_def)

lemma list_all_options:
  "(\<And>x. list_all P (h x)) \<Longrightarrow> list_all P (flat E m f h)"
  "(\<And>x. list_all P (h' x)) \<Longrightarrow> list_all P (sub E j f h')"
  "(\<And>x. list_all P (h x)) \<Longrightarrow> list_all P (on_value v h)"
  by (simp_all add: flat_def sub_def on_value_def split: option.split)

lemma gauge_heads:
  "head_ok ''system - memory - total'' True K_number"
  "head_ok ''system - memory - total'' False K_number"
  "head_ok ''system - memory - free'' True K_number"
  "head_ok ''system - memory - free'' False K_number"
  "head_ok ''system - process - cpu - total - pct'' True K_number"
  "head_ok ''system - process - cpu - total - pct'' False K_number"
  "head_ok ''system - process - memory - size'' True K_number"
  "head_ok ''system - process - memory - size'' False K_number"
  "head_ok ''system - cpu - total - pct'' True K_number"
  "head_ok ''system - cpu - total - pct'' False K_number"
  "head_ok ''jvm - memory - heap - committed'' True K_number"
  "head_ok ''jvm - memory - heap - committed'' False K_number"
  "head_ok ''jvm - memory - heap - used'' True K_number"
  "head_ok ''jvm - memory - heap - used'' False K_number"
  "head_ok ''jvm - memory - heap - max'' True K_number"
  "head_ok ''jvm - memory - heap - max'' False K_number"
  "head_ok ''jvm - memory - non_heap - committed'' True K_number"
  "head_ok ''jvm - memory - non_heap - committed'' False K_number"
  "head_ok ''jvm - memory - non_heap - used'' True K_number"
  "head_ok ''jvm - memory - non_heap - used'' False K_number"
  "head_ok ''jvm - memory - non_heap - max'' True K_number"
  "head_ok ''jvm - memory - non_heap - max'' False K_number"
  "head_ok ''nodejs - memory - heap - used'' True K_number"
  "head_ok ''nodejs - memory - heap - used'' False K_number"
  "head_ok ''nodejs - memory - heap - allocated'' True K_number"
  "head_ok ''nodejs - memory - heap - allocated'' False K_number"
  "head_ok ''golang - memory - heap - used'' True K_number"
  "head_ok ''golang - memory - heap - used'' False K_number"
  "head_ok ''jvm - thread - count'' False K_int"
  "head_ok ''jvm - thread - count'' True K_number"
  "head_ok ''jvm - memory - gc - total_latency'' True K_number"
  "head_ok ''jvm - memory - gc - count'' False K_int"
  "head_ok ''jvm - memory - gc - count'' True K_number"
  "head_ok ''jvm - memory - gc - alloc'' False K_number"
  "head_ok ''jvm - memory - gc - alloc'' True K_number"
  "head_ok ''nodejs - eventloop - latency'' True K_hist"
  "head_ok ''golang - memory - gc - total_pause_ns'' True K_int"
  "head_ok ''golang - memory - gc - total_pause_ns'' False K_int"
  "head_ok ''golang - memory - gc - total_count'' True K_int"
  "head_ok ''golang - memory - gc - total_count'' False K_int"
  "head_ok ''golang - goroutines'' True K_number"
  "head_ok ''golang - goroutines'' False K_number"
  by code_simp+

lemmas updates_ok_simps = list_all_host_only list_all_agg_only list_all_options upd_ok gauge_heads amount_kind_def

lemma gauges_ok:
  "head_ok h True K_number \<Longrightarrow> head_ok h False K_number \<Longrightarrow> list_all update_ok (sum_gauge E g h v)"
  "head_ok h True K_number \<Longrightarrow> head_ok h False K_number \<Longrightarrow> list_all update_ok (average_gauge E g h v)"
  "list_all update_ok (thread_count E g v)"
  "list_all update_ok (gc_updates E g time count alloc)"
  by (simp_all add: sum_gauge_def average_gauge_def thread_count_def gc_updates_def updates_ok_simps split: option.split)

lemma eventloop_ok: "eventloop_updates E g ms = Some us \<Longrightarrow> list_all update_ok us"
  by (auto simp: eventloop_updates_def bind_eq_Some_conv updates_ok_simps split: option.splits)

lemma flat_ok: "flat_updates E g m = Some us \<Longrightarrow> list_all update_ok us"
  by (auto simp: flat_updates_def flat_system_def flat_jvm_def flat_gc_def flat_nodejs_def bind_eq_Some_conv
      gauges_ok list_all_options gauge_heads eventloop_ok split: option.split)

lemma golang_gc_ok: "golang_gc E g gc = Some us \<Longrightarrow> list_all update_ok us"
  by (auto simp: golang_gc_def Let_def bind_eq_Some_conv updates_ok_simps split: if_splits)

lemma nested_golang_ok: "nested_golang E g j = Some us \<Longrightarrow> list_all update_ok us"
  by (auto simp: nested_golang_def Let_def bind_eq_Some_conv updates_ok_simps gauges_ok golang_gc_ok split: option.splits)

lemma nested_nodejs_ok: "nested_nodejs E g j = Some us \<Longrightarrow> list_all update_ok us"
  by (auto simp: nested_nodejs_def bind_eq_Some_conv list_all_options gauge_heads gauges_ok eventloop_ok split: option.splits)

lemma nested_objects_ok:
  "list_all update_ok (nested_system E g j)" "list_all update_ok (nested_jvm E g j)"
  by (auto simp: nested_system_def nested_jvm_def nested_heap_def nested_non_heap_def list_all_options
      gauge_heads gauges_ok split: option.split)

lemma nested_ok: "nested_updates E g m = Some us \<Longrightarrow> list_all update_ok us"
  by (auto simp: nested_updates_def bind_eq_Some_conv list_all_options nested_objects_ok nested_nodejs_ok
      nested_golang_ok split: option.splits)

lemma note_agent_step: "team_step td (note_agent service an td)"
  by (simp add: note_agent_def team_step_def same_settings_def split: option.split)

lemma metric_body_handled:
  "doc_step (pre_team p) w0 w \<Longrightarrow> handled w0 (metric_body E message p agg_tags service w)"
  unfolding metric_body_def Let_def
  by (intro post_intros; rule handled_Some)
     (erule run_updates_then; (erule flat_ok nested_ok | assumption | (erule put_team_then, assumption, rule note_agent_step)))+

lemma metric_handled: "handled w (process_metric_message E message w)"
  unfolding process_metric_message_def Let_def
  by (intro post_intros; (clarsimp)?; ((rule handled_Some | rule metric_body_handled), (erule doc_eqs | rule doc_acts)+))

interpretation metric: document_handler "process_metric_message E" for E :: "('j, 'd, 'h) env"
  by (rule document_handlerI) (rule metric_handled)

section \<open>The two forms of a document\<close>

definition dotted :: "string list \<Rightarrow> string" where
  "dotted fs = concat (map (\<lambda>(i, f). if i = 0 then f else CHR ''.'' # f) (enumerate 0 fs))"

lemma dotted_simps:
  "dotted [] = []" "dotted [f] = f" "dotted (f # f' # fs) = f @ CHR ''.'' # dotted (f' # fs)"
proof -
  have t: "map (\<lambda>(i, f). if i = 0 then f else CHR ''.'' # f) (enumerate (Suc k) fs) = map ((#) CHR ''.'') fs" for k fs
    by (induction fs arbitrary: k) simp_all
  show "dotted [] = []" "dotted [f] = f" "dotted (f # f' # fs) = f @ CHR ''.'' # dotted (f' # fs)"
    by (simp_all add: dotted_def t numeral_nat)
qed

text \<open>
  The gauges of the system and of the jvm's memory, each with its field. The flat layout makes one for
  each field that is there; the nested one for each field whose object is there.
\<close>

definition system_gauges :: "('j, 'd, 'h) env \<Rightarrow> gctx \<Rightarrow> (string list \<times> ('j option \<Rightarrow> 'd update list)) list" where
  "system_gauges E g =
     [([''system'', ''memory'', ''total''], sum_gauge E g ''system - memory - total''),
      ([''system'', ''memory'', ''actual'', ''free''], sum_gauge E g ''system - memory - free''),
      ([''system'', ''process'', ''cpu'', ''total'', ''norm'', ''pct''], sum_gauge E g ''system - process - cpu - total - pct''),
      ([''system'', ''process'', ''memory'', ''size''], sum_gauge E g ''system - process - memory - size''),
      ([''system'', ''cpu'', ''total'', ''norm'', ''pct''], sum_gauge E g ''system - cpu - total - pct'')]"

definition memory_gauges :: "('j, 'd, 'h) env \<Rightarrow> gctx \<Rightarrow> (string list \<times> ('j option \<Rightarrow> 'd update list)) list" where
  "memory_gauges E g =
     [([''jvm'', ''memory'', ''heap'', ''committed''], average_gauge E g ''jvm - memory - heap - committed''),
      ([''jvm'', ''memory'', ''heap'', ''used''], average_gauge E g ''jvm - memory - heap - used''),
      ([''jvm'', ''memory'', ''heap'', ''max''], average_gauge E g ''jvm - memory - heap - max''),
      ([''jvm'', ''memory'', ''non_heap'', ''committed''], average_gauge E g ''jvm - memory - non_heap - committed''),
      ([''jvm'', ''memory'', ''non_heap'', ''used''], average_gauge E g ''jvm - memory - non_heap - used''),
      ([''jvm'', ''memory'', ''non_heap'', ''max''], average_gauge E g ''jvm - memory - non_heap - max'')]"

definition gauge_fields :: "string list list" where
  "gauge_fields =
     [[''system'', ''memory'', ''total''], [''system'', ''memory'', ''actual'', ''free''],
      [''system'', ''process'', ''cpu'', ''total'', ''norm'', ''pct''], [''system'', ''process'', ''memory'', ''size''],
      [''system'', ''cpu'', ''total'', ''norm'', ''pct''],
      [''jvm'', ''memory'', ''heap'', ''committed''], [''jvm'', ''memory'', ''heap'', ''used''],
      [''jvm'', ''memory'', ''heap'', ''max''], [''jvm'', ''memory'', ''non_heap'', ''committed''],
      [''jvm'', ''memory'', ''non_heap'', ''used''], [''jvm'', ''memory'', ''non_heap'', ''max'']]"

definition other_fields :: "string list list" where
  "other_fields =
     [[''jvm'', ''thread'', ''count''], [''jvm'', ''gc'', ''time''], [''jvm'', ''gc'', ''count''], [''jvm'', ''gc'', ''alloc''],
      [''nodejs'', ''memory'', ''heap'', ''used'', ''bytes''], [''nodejs'', ''memory'', ''heap'', ''allocated'', ''bytes''],
      [''nodejs'', ''eventloop'', ''delay'', ''avg'', ''ms'']]"

text \<open>Both documents hold the same value for a field, or neither holds one.\<close>

definition agree :: "('j, 'd, 'h) env \<Rightarrow> 'j \<Rightarrow> 'j \<Rightarrow> string list \<Rightarrow> bool" where
  "agree E m n f = (jo_get E (Some m) (dotted f) = chain E (Some n) f)"

text \<open>The object that should hold the field is there, but not the field.\<close>

definition lacks :: "('j, 'd, 'h) env \<Rightarrow> 'j \<Rightarrow> string list \<Rightarrow> bool" where
  "lacks E n f = (chain E (Some n) (butlast f) \<noteq> None \<and> chain E (Some n) f = None)"

definition in_object ::
  "('j, 'd, 'h) env \<Rightarrow> 'j \<Rightarrow> string list \<times> ('j option \<Rightarrow> 'd update list) \<Rightarrow> 'd update list" where
  "in_object E n = (\<lambda>(f, h). if chain E (Some n) (butlast f) = None then [] else h (chain E (Some n) f))"

definition if_there ::
  "('j, 'd, 'h) env \<Rightarrow> 'j \<Rightarrow> string list \<times> ('j option \<Rightarrow> 'd update list) \<Rightarrow> 'd update list" where
  "if_there E n = (\<lambda>(f, h). on_value (chain E (Some n) f) h)"

lemma flat_field: "agree E m n f \<Longrightarrow> flat E m (dotted f) h = if_there E n (f, h)"
  by (simp add: agree_def flat_def if_there_def on_value_def split: option.split)

lemma flat_gauges_dotted:
  "flat_system E g m = concat (map (\<lambda>(f, h). flat E m (dotted f) h) (system_gauges E g))"
  "flat_jvm E g m = flat E m ''jvm.thread.count'' (thread_count E g) @
     concat (map (\<lambda>(f, h). flat E m (dotted f) h) (memory_gauges E g))"
  by (simp_all add: flat_system_def flat_jvm_def system_gauges_def memory_gauges_def dotted_simps)

lemma gauge_fields_eq: "set gauge_fields = fst ` (set (system_gauges E g) \<union> set (memory_gauges E g))"
  unfolding gauge_fields_def system_gauges_def memory_gauges_def
  by (simp only: list.set image_Un image_insert image_empty fst_conv Un_insert_left Un_empty_left)

lemma flat_gauges:
  assumes "list_all (agree E m n) gauge_fields"
  shows "flat_system E g m = concat (map (if_there E n) (system_gauges E g))"
    and "flat_jvm E g m = flat E m ''jvm.thread.count'' (thread_count E g) @ concat (map (if_there E n) (memory_gauges E g))"
proof -
  have a: "agree E m n f" if "(f, h) \<in> set (system_gauges E g) \<union> set (memory_gauges E g)" for f h
  proof -
    have "f \<in> set gauge_fields" unfolding gauge_fields_eq [of E g] using that by (rule image_eqI [rotated]) simp
    then show ?thesis using assms by (simp add: list_all_iff)
  qed
  show "flat_system E g m = concat (map (if_there E n) (system_gauges E g))"
    unfolding flat_gauges_dotted using a by (intro arg_cong [where f = concat] map_cong) (auto intro!: flat_field)
  show "flat_jvm E g m = flat E m ''jvm.thread.count'' (thread_count E g) @ concat (map (if_there E n) (memory_gauges E g))"
    unfolding flat_gauges_dotted using a
    by (intro arg_cong2 [where f = "(@)"] arg_cong [where f = concat] map_cong) (auto intro!: flat_field)
qed

text \<open>The nested form, as objects at the end of chains.\<close>

definition at_chain :: "('j, 'd, 'h) env \<Rightarrow> 'j option \<Rightarrow> string list \<Rightarrow> ('j \<Rightarrow> 'd update list) \<Rightarrow> 'd update list" where
  "at_chain E v p h = (case chain E v p of None \<Rightarrow> [] | Some x \<Rightarrow> h x)"

lemma chain_snoc: "chain E v (p @ [l]) = (case chain E v p of None \<Rightarrow> None | Some x \<Rightarrow> at E x l)"
  by (induction p arbitrary: v) (auto simp: at_def split: option.splits)

lemma sub_at_chain: "sub E n f h = at_chain E (Some n) [f] h"
  by (simp add: sub_def at_chain_def)

lemma at_chain_append: "at_chain E v p (\<lambda>x. h x @ h' x) = at_chain E v p h @ at_chain E v p h'"
  by (simp add: at_chain_def split: option.split)

lemma at_chain_sub: "at_chain E v p (\<lambda>x. sub E x f h) = at_chain E v (p @ [f]) h"
  by (simp add: at_chain_def sub_def chain_snoc at_def split: option.split)

lemma at_chain_at: "at_chain E (Some n) p (\<lambda>x. h (at E x l)) = in_object E n (p @ [l], h)"
  by (simp add: at_chain_def in_object_def chain_snoc split: option.split)

lemma at_chain_thread: "at_chain E v p (\<lambda>x. thread_count E g (at E x l)) = thread_count E g (chain E v (p @ [l]))"
  by (simp add: at_chain_def chain_snoc thread_count_def split: option.split)

lemma at_chain_gc:
  "at_chain E v p (\<lambda>x. gc_updates E g (at E x k) (at E x l) (at E x m)) =
     gc_updates E g (chain E v (p @ [k])) (chain E v (p @ [l])) (chain E v (p @ [m]))"
  by (simp add: at_chain_def chain_snoc gc_updates_def split: option.split)

lemmas at_chain_simps = at_chain_append at_chain_sub at_chain_thread at_chain_gc
  at_chain_at [where h = "sum_gauge E g s" for E g s] at_chain_at [where h = "average_gauge E g s" for E g s]

lemma nested_system_gauges:
  "sub E n ''system'' (nested_system E g) = concat (map (in_object E n) (system_gauges E g))"
  unfolding sub_at_chain [of E n] nested_system_def [abs_def] system_gauges_def
  by (simp only: at_chain_simps append.simps append_assoc list.map concat.simps append_Nil2)

lemma nested_jvm_gauges:
  "sub E n ''jvm'' (nested_jvm E g) =
     thread_count E g (chain E (Some n) [''jvm'', ''thread'', ''count'']) @
     concat (map (in_object E n) (memory_gauges E g)) @
     gc_updates E g (chain E (Some n) [''jvm'', ''gc'', ''time'']) (chain E (Some n) [''jvm'', ''gc'', ''count''])
       (chain E (Some n) [''jvm'', ''gc'', ''alloc''])"
  unfolding sub_at_chain [of E n] nested_jvm_def [abs_def] nested_heap_def [abs_def] nested_non_heap_def [abs_def]
    memory_gauges_def
  by (simp only: at_chain_simps append.simps append_assoc list.map concat.simps append_Nil2)

lemma nested_nodejs_chain:
  "(case at E n ''nodejs'' of None \<Rightarrow> Some [] | Some j \<Rightarrow> nested_nodejs E g j) = do {
     loop \<leftarrow> eventloop_updates E g (chain E (Some n) [''nodejs'', ''eventloop'', ''delay'', ''avg'', ''ms'']);
     Some (if_there E n ([''nodejs'', ''memory'', ''heap'', ''used'', ''bytes''],
             average_gauge E g ''nodejs - memory - heap - used'') @
           if_there E n ([''nodejs'', ''memory'', ''heap'', ''allocated'', ''bytes''],
             average_gauge E g ''nodejs - memory - heap - allocated'') @ loop) }"
proof (cases "at E n ''nodejs''")
  case None
  then show ?thesis by (simp add: if_there_def on_value_def eventloop_updates_def at_def)
next
  case (Some j)
  then have "chain E (Some n) (''nodejs'' # f # fs) = chain E (Some j) (f # fs)" for f fs by (simp add: at_def)
  then show ?thesis unfolding if_there_def nested_nodejs_def Some by (simp only: prod.case option.case)
qed

lemma other_agree:
  assumes "list_all (agree E m n) other_fields"
  shows "flat_nodejs E g m = (case at E n ''nodejs'' of None \<Rightarrow> Some [] | Some j \<Rightarrow> nested_nodejs E g j)"
    and "flat E m ''jvm.thread.count'' (thread_count E g) = thread_count E g (chain E (Some n) [''jvm'', ''thread'', ''count''])"
    and "flat_gc E g m = gc_updates E g (chain E (Some n) [''jvm'', ''gc'', ''time''])
           (chain E (Some n) [''jvm'', ''gc'', ''count'']) (chain E (Some n) [''jvm'', ''gc'', ''alloc''])"
  unfolding nested_nodejs_chain flat_nodejs_def
  using assms
  by (simp_all add: other_fields_def agree_def dotted_simps flat_def if_there_def on_value_def thread_count_def flat_gc_def
      del: chain.simps split: option.split)

lemma gauge_cases:
  assumes "x \<in> set (system_gauges E g) \<union> set (memory_gauges E g)"
  shows "if lacks E n (fst x) then length (if_there E n x) < length (in_object E n x) else if_there E n x = in_object E n x"
proof -
  have "snd x v \<noteq> []" for v
    using assms by (auto simp: system_gauges_def memory_gauges_def sum_gauge_def average_gauge_def agg_only_def)
  moreover have "chain E (Some n) f = None" if "chain E (Some n) (butlast f) = None" for f
    using that by (cases f rule: rev_cases) (simp_all add: chain_snoc)
  ultimately show ?thesis
    by (cases x) (auto simp: lacks_def if_there_def in_object_def on_value_def split: option.split)
qed

text \<open>Lists put together from parts of which some are shorter.\<close>

lemma concat_shorter:
  assumes "\<forall>(a, b) \<in> set ps. a = b \<or> length a < length b"
  shows "length (concat (map fst ps)) \<le> length (concat (map snd ps)) \<and>
           (concat (map fst ps) = concat (map snd ps) \<longleftrightarrow> (\<forall>(a, b) \<in> set ps. a = b))"
  using assms
proof (induction ps)
  case (Cons p ps)
  obtain a b where p: "p = (a, b)" by (cases p)
  have IH: "length (concat (map fst ps)) \<le> length (concat (map snd ps))"
    "concat (map fst ps) = concat (map snd ps) \<longleftrightarrow> (\<forall>(a, b) \<in> set ps. a = b)" using Cons by auto
  show ?case
  proof (cases "a = b")
    case True
    then show ?thesis using IH p by simp
  next
    case False
    then have "length a < length b" using Cons.prems p by auto
    with IH(1) have l: "length (a @ concat (map fst ps)) < length (b @ concat (map snd ps))" by simp
    then have "a @ concat (map fst ps) \<noteq> b @ concat (map snd ps)" by (metis less_irrefl)
    then show ?thesis using l False p by simp
  qed
qed simp

section \<open>Properties\<close>


text \<open>What a Java agent sends, and a document whose memory object has no \<open>total\<close>.\<close>

definition flat_doc :: jdoc where
  "flat_doc = JObj (map (\<lambda>f. (dotted f, JNum 1))
     [[''system'', ''memory'', ''total''], [''system'', ''memory'', ''actual'', ''free''],
      [''system'', ''process'', ''memory'', ''size''], [''jvm'', ''thread'', ''count''],
      [''jvm'', ''memory'', ''heap'', ''committed''], [''jvm'', ''memory'', ''heap'', ''used''],
      [''jvm'', ''memory'', ''heap'', ''max'']])"

definition nested_doc :: jdoc where
  "nested_doc = JObj
     [(''system'', JObj [(''memory'', JObj [(''total'', JNum 1), (''actual'', JObj [(''free'', JNum 1)])]),
        (''process'', JObj [(''memory'', JObj [(''size'', JNum 1)])])]),
      (''jvm'', JObj [(''thread'', JObj [(''count'', JNum 1)]),
        (''memory'', JObj [(''heap'', JObj [(''committed'', JNum 1), (''used'', JNum 1), (''max'', JNum 1)])])])]"

definition demo_gctx :: gctx where
  "demo_gctx =
     \<lparr>gc_c = \<lparr>mc_tags = ''service:t-web,host:h'', mc_agg = ''service:t-web,host:all,ip:all'', mc_rollup = [],
        mc_us = 0, mc_ts = 60030000\<rparr>, gc_host = True, gc_ts = 60012345\<rparr>"

lemma demo_docs_agree:
  "list_all (agree demo_env flat_doc nested_doc) gauge_fields"
  "list_all (agree demo_env flat_doc nested_doc) other_fields"
  "at demo_env nested_doc ''golang'' = None"
  "flat_nodejs demo_env demo_gctx flat_doc \<noteq> None"
  "list_all (\<lambda>f. \<not> lacks demo_env nested_doc f) gauge_fields"
  by code_simp+


end
