(* ===== verification/TM_Transaction.thy ===== *)
theory TM_Transaction
  imports TM_Handlers
begin

text \<open>
  \<open>process_transaction_message\<close> (tm_process_transaction.c): the metrics of a transaction by its
  type, and its place in the transaction store. A root transaction over the service's threshold
  is marked, so that it and its children are traced.
\<close>

section \<open>Messages and scheduled jobs\<close>

definition set_service_type :: "string \<Rightarrow> service_type \<Rightarrow> ('d, 'h) team_data \<Rightarrow> ('d, 'h) team_data" where
  "set_service_type service ty td =
     (case service_data td service of
        Some sit \<Rightarrow> td\<lparr>service_data := (service_data td)(service \<mapsto> sit\<lparr>si_type := ty\<rparr>)\<rparr>
      | None \<Rightarrow> td)"

definition named_updates :: "mctx \<Rightarrow> bool \<Rightarrow> string \<Rightarrow> 'd update list" where
  "named_updates c host name =
     [latency c ''transaction - latency - '' name (mc_agg c),
      latency c ''transaction - latency - '' ''all'' (mc_agg c),
      count1 c ''transaction - request_count - '' name (mc_agg c),
      count1 c ''transaction - request_count - '' ''all'' (mc_agg c)] @
     when_list host [latency c ''transaction - latency - '' name (mc_tags c)]"

section \<open>Requests\<close>

definition toupper :: "char \<Rightarrow> char" where
  "toupper ch =
     (if (97::nat) \<le> of_char ch \<and> (of_char ch :: nat) \<le> 122 then char_of ((of_char ch :: nat) - 32) else ch)"

text \<open>
  \<open>METHOD[16]\<close> is zeroed and filled without a check; \<open>strlen\<close> of a missing method is undefined.
\<close>

definition upper_method :: "string option \<Rightarrow> string ub" where
  "upper_method meth = (case meth of None \<Rightarrow> None | Some m \<Rightarrow> into_buf 16 (map toupper m))"

text \<open>
  \<open>strtok_r\<close> with a blank skips leading blanks and ends the token with a NUL, which it writes
  into the document's own string: the token and the position of that NUL.
\<close>

definition first_token :: "string \<Rightarrow> string option \<times> nat option" where
  "first_token s =
     (let blanks = length (takeWhile (\<lambda>c. c = CHR '' '') s);
          tok = takeWhile (\<lambda>c. c \<noteq> CHR '' '') (drop blanks s); n = blanks + length tok
      in (if tok = [] then (None, None) else (Some tok, if n < length s then Some n else None)))"

definition user_agent :: "('j, 'd, 'h) env \<Rightarrow> 'j option \<Rightarrow> 'j \<Rightarrow> string option \<times> 'j" where
  "user_agent E headers message =
     (case headers of
        None \<Rightarrow> (None, message)
      | Some h \<Rightarrow>
          (case jo_get E (Some h) ''User-Agent'' of
             None \<Rightarrow> (None, message)
           | Some obj \<Rightarrow>
               (case jo_idx E (Some obj) 0 of
                  None \<Rightarrow> (None, message)
                | Some ua \<Rightarrow>
                    (case jo_string E (Some ua) of
                       None \<Rightarrow> (None, message)
                     | Some s \<Rightarrow>
                         (let (tok, cut) = first_token s in
                          (Some (b64_encode E (case tok of None \<Rightarrow> ''Other'' | Some t \<Rightarrow> t)),
                           (case cut of None \<Rightarrow> message | Some n \<Rightarrow> jo_cut E message (Some ua) n)))))))"

text \<open>The tags of a request: with its method, and with its method and user agent.\<close>

definition method_tags :: "string \<Rightarrow> string \<Rightarrow> string" where
  "method_tags tags m = tags @ '',method:'' @ m"

definition agent_tags :: "string \<Rightarrow> string \<Rightarrow> string \<Rightarrow> string" where
  "agent_tags tags m ua = method_tags tags m @ '',user_agent:b\"'' @ ua @ ''\",__rollup:false''"

definition error_class_updates ::
  "mctx \<Rightarrow> string \<Rightarrow> string \<Rightarrow> string \<Rightarrow> string option \<Rightarrow> 'd update list" where
  "error_class_updates c cls m path ua =
     [count1 c cls path (method_tags (mc_agg c) m @ mc_rollup c),
      count1 c ''transaction - error_count - '' path (method_tags (mc_agg c) m @ mc_rollup c),
      count1 c cls ''all'' (method_tags (mc_agg c) m),
      count1 c ''transaction - error_count - '' ''all'' (method_tags (mc_agg c) m)] @
     (case ua of
        None \<Rightarrow> []
      | Some a \<Rightarrow>
          [count1 c cls path (agent_tags (mc_agg c) m a),
           count1 c ''transaction - error_count - '' path (agent_tags (mc_agg c) m a),
           count1 c cls ''all'' (agent_tags (mc_agg c) m a),
           count1 c ''transaction - error_count - '' ''all'' (agent_tags (mc_agg c) m a)])"

definition count_updates :: "mctx \<Rightarrow> string \<Rightarrow> string \<Rightarrow> string option \<Rightarrow> 'd update list" where
  "count_updates c m path ua =
     [count1 c ''transaction - request_count - '' path (method_tags (mc_agg c) m @ mc_rollup c),
      count1 c ''transaction - request_count - '' ''all'' (method_tags (mc_agg c) m)] @
     (case ua of
        None \<Rightarrow> []
      | Some a \<Rightarrow> [count1 c ''transaction - request_count - '' ''all'' (agent_tags (mc_agg c) m a)])"

definition host_updates :: "mctx \<Rightarrow> bool \<Rightarrow> string \<Rightarrow> string \<Rightarrow> int \<Rightarrow> u64 \<Rightarrow> 'd update list" where
  "host_updates c host m path status metric_ts =
     when_list host
       [\<lparr>u_head = ''transaction - status_code - '', u_rest = path,
         u_tags = method_tags (mc_tags c) m @ mc_rollup c, u_agg = False,
         u_amount = Set_text (int_dec status), u_ts = metric_ts\<rparr>,
        latency c ''transaction - latency - '' path (method_tags (mc_tags c) m @ mc_rollup c)]"

definition request_updates ::
  "mctx \<Rightarrow> bool \<Rightarrow> string \<Rightarrow> string \<Rightarrow> string option \<Rightarrow> int \<Rightarrow> u64 \<Rightarrow> 'd update list" where
  "request_updates c host m path ua status metric_ts =
     [latency c ''transaction - latency - '' path (method_tags (mc_agg c) m @ mc_rollup c),
      latency c ''transaction - latency - '' ''all'' (method_tags (mc_agg c) m)] @
     when_list (400 \<le> status \<and> status < 500)
       (error_class_updates c ''transaction - client_error_count - '' m path ua) @
     when_list (500 \<le> status) (error_class_updates c ''transaction - server_error_count - '' m path ua) @
     count_updates c m path ua @
     host_updates c host m path status metric_ts"

text \<open>
  What a branch on the type leaves: \<open>Return\<close> is an early return from the handler; \<open>Go_on\<close> has the
  generic path of a request and the document as \<open>strtok_r\<close> left it.
\<close>

datatype 'j typed_part = Return | Go_on "string option" 'j

definition request_objects :: "('j, 'd, 'h) env \<Rightarrow> int \<Rightarrow> 'j \<Rightarrow> ('j \<times> 'j) option" where
  "request_objects E mv message =
     (case (if mv = 6 then jo_get E (Some message) ''context''
            else if 6 < mv then jo_get E (Some message) ''http'' else None) of
        None \<Rightarrow> None
      | Some context \<Rightarrow>
          (case (jo_get E (Some context) ''request'', jo_get E (Some context) ''response'') of
             (Some req, Some resp) \<Rightarrow> Some (req, resp)
           | _ \<Rightarrow> None))"

definition request_path :: "('j, 'd, 'h) env \<Rightarrow> int \<Rightarrow> 'j \<Rightarrow> 'j \<Rightarrow> string option" where
  "request_path E mv message req =
     jo_string E (if mv = 6 then jo_get E (jo_get E (Some req) ''url'') ''pathname''
                  else if 6 < mv then jo_get E (jo_get E (Some message) ''url'') ''path''
                  else None)"

definition request_part ::
  "('j, 'd, 'h) env \<Rightarrow> string \<Rightarrow> string \<Rightarrow> 'j \<Rightarrow> 'j \<Rightarrow> mctx \<Rightarrow> u64 \<Rightarrow> ('d, 'h) world \<Rightarrow>
     ('j typed_part \<times> ('d, 'h) world) ub" where
  "request_part E team service message txn c freq w =
     (if \<not> jo_boolean E (jo_get E (Some txn) ''sampled'') then Some (Return, add_errored w)
      else do {
        mv \<leftarrow> tm_apm_server_major_version E (Some message);
        (case request_objects E mv message of
           None \<Rightarrow> Some (Return, add_errored w)
         | Some (req, resp) \<Rightarrow> do {
             let path = request_path E mv message req;
             let status = jo_int E (jo_get E (Some resp) ''status_code'');
             let (ua, message) = user_agent E (jo_get E (Some req) ''headers'') message;
             m \<leftarrow> upper_method (jo_string E (jo_get E (Some req) ''method''));
             (if m = ''OPTIONS'' then Some (Return, add_filtered w)
              else if \<not> is_path_ok E path then Some (Return, add_filtered w)
              else do {
                (clean_path, w) \<leftarrow> genericize_path E service path team w;
                agg_ts \<leftarrow> center_timestamp (mc_ts c) freq;
                td \<leftarrow> the_team w team;
                w \<leftarrow> run_updates E team
                       (request_updates (c\<lparr>mc_ts := agg_ts\<rparr>) (collect_host_level_metrics td) m clean_path
                          ua status (mc_ts c)) w;
                Some (Go_on (Some clean_path) message, w) }) }) })"

section \<open>The branch on the type\<close>

definition named_part ::
  "('j, 'd, 'h) env \<Rightarrow> string \<Rightarrow> 'j \<Rightarrow> 'j \<Rightarrow> mctx \<Rightarrow> u64 \<Rightarrow> ('d, 'h) world \<Rightarrow>
     ('j typed_part \<times> ('d, 'h) world) ub" where
  "named_part E team message txn c freq w = do {
     agg_ts \<leftarrow> center_timestamp (mc_ts c) freq;
     name \<leftarrow> jo_string E (jo_get E (Some txn) ''name'');
     td \<leftarrow> the_team w team;
     w \<leftarrow> run_updates E team (named_updates (c\<lparr>mc_ts := agg_ts\<rparr>) (collect_host_level_metrics td) name) w;
     Some (Go_on None message, w) }"

definition type_part ::
  "('j, 'd, 'h) env \<Rightarrow> string \<Rightarrow> string \<Rightarrow> 'j \<Rightarrow> 'j \<Rightarrow> string \<Rightarrow> mctx \<Rightarrow> u64 \<Rightarrow> ('d, 'h) world \<Rightarrow>
     ('j typed_part \<times> ('d, 'h) world) ub" where
  "type_part E team service message txn t c freq w = do {
     td \<leftarrow> the_team w team;
     (if t = ''message_read'' \<or> t = ''messaging'' then
        named_part E team message txn c freq (put_team team (set_service_type service SERVICE_TYPE_MESSAGE td) w)
      else if t = ''scheduled'' then
        named_part E team message txn c freq (put_team team (set_service_type service SERVICE_TYPE_SCHEDULED td) w)
      else if t = ''request'' then
        request_part E team service message txn c freq
          (put_team team (set_service_type service SERVICE_TYPE_TRANSACTIONAL td) w)
      else if t = ''page-load'' then
        Some (Go_on None message, put_team team (set_service_type service SERVICE_TYPE_TRANSACTIONAL td) w)
      else Some (Go_on None message, w)) }"

section \<open>The transaction store\<close>

definition apm_object :: "('j, 'd, 'h) env \<Rightarrow> 'j \<Rightarrow> string option \<Rightarrow> 'j" where
  "apm_object E message clean_path =
     jo_object E [(''transaction'', message),
       (''url'', jo_new_string E (case clean_path of Some p \<Rightarrow> p | None \<Rightarrow> ''none''))]"

text \<open>The entry takes two readings of the clock, of which only the first is stored.\<close>

definition root_part ::
  "('j, 'd, 'h) env \<Rightarrow> 'j \<Rightarrow> string option \<Rightarrow> u64 \<Rightarrow> string \<Rightarrow> string option \<Rightarrow> int \<Rightarrow> ('d, 'h) world \<Rightarrow> ('d, 'h) step" where
  "root_part E message trace_id duration_us service clean_path ttl w = do {
     let over = (get_jaeger_threshold_us (Some service) w \<le> duration_us);
     w \<leftarrow> (if over then do { tid \<leftarrow> trace_id; Some (store_mark tid w) } else Some w);
     let first = clock w (ticks w);
     let w = w\<lparr>ticks := ticks w + 2\<rparr>;
     (if kafka_lag (stats w) < 50000 \<or> over then do {
        tid \<leftarrow> trace_id;
        Some (False, snd (store_put E tid first (apm_object E message clean_path) ttl w)) }
      else Some (False, w)) }"

definition trace_part ::
  "('j, 'd, 'h) env \<Rightarrow> 'j \<Rightarrow> string option \<Rightarrow> u64 \<Rightarrow> string \<Rightarrow> string option \<Rightarrow> int \<Rightarrow> ('d, 'h) world \<Rightarrow> ('d, 'h) step" where
  "trace_part E message trace_id duration_us service clean_path ttl w =
     (let near = (kafka_lag (stats w) < 50000) in
      if near \<and> trace_hook E message = MTEV_HOOK_ABORT then Some (False, w)
      else (case jo_get E (Some message) ''parent'' of
              Some _ \<Rightarrow>
                if near then do {
                  tid \<leftarrow> trace_id;
                  (ok, w) \<leftarrow> store_add_child E tid message ttl w;
                  Some (False, w) }
                else Some (False, w)
            | None \<Rightarrow> root_part E message trace_id duration_us service clean_path ttl w))"

section \<open>The handler\<close>

definition transaction_body ::
  "('j, 'd, 'h) env \<Rightarrow> 'j \<Rightarrow> pre \<Rightarrow> string \<Rightarrow> 'j \<Rightarrow> u64 \<Rightarrow> string option \<Rightarrow> string \<Rightarrow> int \<Rightarrow>
     ('d, 'h) world \<Rightarrow> ('d, 'h) step" where
  "transaction_body E message p agg_tags txn duration_us trace_id service ttl w = do {
     let freq = get_metric_flush_frequency_ms (Some service) w;
     td \<leftarrow> the_team w (pre_team p);
     t \<leftarrow> jo_string E (jo_get E (Some txn) ''type'');
     let c = \<lparr>mc_tags = pre_tags p, mc_agg = agg_tags, mc_rollup = rollup_tag td, mc_us = duration_us,
              mc_ts = pre_timestamp p + duration_us div 1000\<rparr>;
     (part, w) \<leftarrow> type_part E (pre_team p) service message txn t c freq w;
     (case part of
        Return \<Rightarrow> Some (False, w)
      | Go_on clean_path message \<Rightarrow> trace_part E message trace_id duration_us service clean_path ttl w) }"

definition transaction_fields ::
  "('j, 'd, 'h) env \<Rightarrow> 'j \<Rightarrow> ('j \<times> u64 \<times> string option) option" where
  "transaction_fields E message =
     (case jo_get E (Some message) ''transaction'' of
        None \<Rightarrow> None
      | Some txn \<Rightarrow>
          (case jo_get E (Some txn) ''duration'' of
             None \<Rightarrow> None
           | Some duration \<Rightarrow>
               (case jo_get E (Some message) ''trace'' of
                  None \<Rightarrow> None
                | Some trace_json \<Rightarrow>
                    (case jo_get E (Some trace_json) ''id'' of
                       None \<Rightarrow> None
                     | Some id_json \<Rightarrow>
                         Some (txn, jo_uint64 E (jo_get E (Some duration) ''us''), jo_string E (Some id_json))))))"

text \<open>
  The aggregate tags are built before the result of \<open>pre_process\<close> is looked at; without a service
  name that formats a NULL pointer.
\<close>

definition process_transaction_message :: "('j, 'd, 'h) env \<Rightarrow> 'j \<Rightarrow> int \<Rightarrow> ('d, 'h) world \<Rightarrow> ('d, 'h) step" where
  "process_transaction_message E message ttl w = do {
     (pr, w) \<leftarrow> pre_process E message w;
     let w = get_team_data (pre_team_buf pr) w;
     (agg_tags, w) \<leftarrow> build_agg_tag_string E message (pre_team_buf pr) w;
     (case pr of
        Pre_fail _ \<Rightarrow> Some (False, w)
      | Pre_ok p \<Rightarrow>
          (case transaction_fields E message of
             None \<Rightarrow> Some (False, add_errored w)
           | Some (txn, duration_us, trace_id) \<Rightarrow> do {
               service_string \<leftarrow> tm_service_name E (Some message);
               (case service_string of
                  None \<Rightarrow> Some (False, add_errored w)
                | Some service \<Rightarrow>
                    transaction_body E message p agg_tags txn duration_us trace_id service ttl w) })) }"

section \<open>Facts\<close>

lemma named_updates_ok: "list_all update_ok (named_updates c host name)"
  by (simp add: named_updates_def latency_ok count1_ok heads_mem)

lemma status_code_ok:
  "update_ok \<lparr>u_head = ''transaction - status_code - '', u_rest = p, u_tags = tg, u_agg = False,
     u_amount = Set_text s, u_ts = ts\<rparr>"
  by (simp add: update_ok_def update_agg_def amount_kind_def heads_def)

lemma request_updates_ok: "list_all update_ok (request_updates c host m path ua status ts)"
  by (simp add: request_updates_def error_class_updates_def count_updates_def host_updates_def
      latency_ok count1_ok heads_mem status_code_ok split: option.split)

lemmas named_updates_then = run_updates_then [OF _ named_updates_ok]
lemmas request_updates_then = run_updates_then [OF _ request_updates_ok]

lemma set_service_type_step: "team_step td (set_service_type service ty td)"
  by (simp add: set_service_type_def team_step_def same_settings_def split: option.split)

lemma named_part_step: "stepped team w (named_part E team message txn c freq w)"
  unfolding named_part_def
  by (intro post_intros; (rule stepped_Some, (erule named_updates_then, rule doc_step_refl)))

lemma request_part_step: "stepped team w (request_part E team service message txn c freq w)"
  unfolding request_part_def Let_def
  by (intro post_intros; (hypsubst+)?;
      (rule stepped_Some, (erule request_updates_then | erule doc_eqs | rule doc_acts | rule doc_step_refl)+))

lemma stepped_put_team:
  "the_team w team = Some td \<Longrightarrow> team_step td td' \<Longrightarrow> stepped team (put_team team td' w) m \<Longrightarrow> stepped team w m"
  unfolding post_def by (blast intro: doc_step_trans put_team_then doc_step_refl)

lemma type_part_step: "stepped team w (type_part E team service message txn t c freq w)"
  unfolding type_part_def
  by (intro post_intros)
     (rule stepped_Some, rule doc_step_refl |
      (erule stepped_put_team [OF _ set_service_type_step], rule named_part_step request_part_step) |
      (erule stepped_put_team [OF _ set_service_type_step], rule stepped_Some, rule doc_step_refl))+

lemma type_part_then [doc_eqs]:
  "type_part E t service message txn ty c freq w = Some (x, w1) \<Longrightarrow> doc_step t w0 w \<Longrightarrow> doc_step t w0 w1"
  by (erule steppedD [OF _ type_part_step])

lemma root_part_handled:
  "doc_step t w0 w \<Longrightarrow> handled w0 (root_part E message trace_id d service p ttl w)"
  unfolding root_part_def Let_def
  by (intro post_intros; (rule handled_Some, rule doc_acts)) (auto intro!: doc_acts split: if_splits option.splits simp: bind_eq_Some_conv)

lemma trace_part_handled:
  "doc_step t w0 w \<Longrightarrow> handled w0 (trace_part E message trace_id d service p ttl w)"
  unfolding trace_part_def Let_def
  by (intro post_intros)
     (auto intro: handled_Some root_part_handled dest: store_add_child_then)

lemma post_typed_part [post_intros]:
  "(x = Return \<Longrightarrow> post a P) \<Longrightarrow> (\<And>p m. x = Go_on p m \<Longrightarrow> post (f p m) P) \<Longrightarrow>
     post (case x of Return \<Rightarrow> a | Go_on p m \<Rightarrow> f p m) P"
  by (cases x) simp_all

lemma transaction_body_handled:
  "doc_step (pre_team p) w0 w \<Longrightarrow>
     handled w0 (transaction_body E message p agg_tags txn d trace_id service ttl w)"
  unfolding transaction_body_def Let_def
  by (intro post_intros; (hypsubst+)?; (rule handled_Some trace_part_handled, erule doc_eqs, assumption))

lemma transaction_handled: "handled w (process_transaction_message E message ttl w)"
  unfolding process_transaction_message_def Let_def
  by (intro post_intros; (clarsimp)?;
      ((rule handled_Some | rule transaction_body_handled), (erule doc_eqs | rule doc_acts)+))

interpretation transaction: document_handler "\<lambda>(message, ttl). process_transaction_message E message ttl"
  for E :: "('j, 'd, 'h) env"
  by (rule document_handlerI) (auto intro: transaction_handled)

section \<open>Properties\<close>

lemma part_same:
  "named_part E team message txn c freq w = Some (x, w') \<Longrightarrow> same_process w w' \<and> x = Go_on None message"
  by (auto simp: named_part_def bind_eq_Some_conv dest: run_updates_same)

definition parts_of :: "('j, 'd, 'h) env \<Rightarrow> 'j \<Rightarrow> 'j \<Rightarrow> bool" where
  "parts_of E message m = (m = message \<or> (\<exists>j n. m = jo_cut E message j n))"

lemma user_agent_doc: "user_agent E h message = (ua, m) \<Longrightarrow> parts_of E message m"
  by (auto simp: user_agent_def parts_of_def split: option.splits prod.splits)

text \<open>A refusal is counted once; otherwise the part leaves the process as it was.\<close>

definition refused :: "('d, 'h) world \<Rightarrow> ('d, 'h) world \<Rightarrow> bool" where
  "refused w w' =
     (teams w' = teams w \<and> store w' = store w \<and> produced w' = produced w \<and>
      messages_errored (stats w') + messages_filtered (stats w') =
        messages_errored (stats w) + messages_filtered (stats w) + 1)"

lemma refused_counts: "refused w (add_errored w)" "refused w (add_filtered w)"
  by (simp_all add: refused_def add_errored_def add_filtered_def)

definition part_result :: "('j, 'd, 'h) env \<Rightarrow> 'j \<Rightarrow> ('d, 'h) world \<Rightarrow> 'j typed_part \<times> ('d, 'h) world \<Rightarrow> bool" where
  "part_result E message w r =
     (case fst r of
        Return \<Rightarrow> refused w (snd r)
      | Go_on p m \<Rightarrow> same_process w (snd r) \<and> parts_of E message m)"

lemma generic_then_updates:
  "genericize_path E service s team w = Some (p, w1) \<Longrightarrow> run_updates E team us w1 = Some w2 \<Longrightarrow> same_process w w2"
  by (auto dest!: genericize_path_same run_updates_same intro: same_process_trans)

lemma request_part_result: "post (request_part E team service message txn c freq w) (part_result E message w)"
  unfolding request_part_def Let_def
  by (intro post_intros; (hypsubst+)?; rule post_Some)
     (auto simp: part_result_def refused_counts dest: generic_then_updates user_agent_doc)

text \<open>A request that is refused (not sampled, without its request or response object, an \<open>OPTIONS\<close>
  request, or one with a forbidden path) is counted once as an error or as filtered; it changes no
  metric, publishes nothing and leaves the transaction store alone.\<close>

lemma refused_request:
  assumes "request_part E team service message txn c freq w = Some (Return, w')"
  shows "teams w' = teams w \<and> store w' = store w \<and> produced w' = produced w \<and>
    messages_errored (stats w') + messages_filtered (stats w') =
      messages_errored (stats w) + messages_filtered (stats w) + 1"
  using postD [OF assms request_part_result] by (simp add: part_result_def refused_def)

definition demo_request :: jdoc where
  "demo_request = JObj [(''@metadata'', JObj [(''version'', JStr ''7.4.0'')]),
     (''http'', JObj [(''request'', JObj [(''method'', JStr ''options'')]), (''response'', JObj [])])]"

lemma refused_request_witness:
  "\<exists>w'. request_part demo_env ''t'' ''t-web'' demo_request (JObj [(''sampled'', JNum 1)])
      \<lparr>mc_tags = [], mc_agg = [], mc_rollup = [], mc_us = 0, mc_ts = 0\<rparr> 60 demo_world = Some (Return, w') \<and>
     teams w' = teams demo_world \<and> store w' = store demo_world"
proof -
  have v: "tm_apm_server_major_version demo_env (Some demo_request) = Some 7" by code_simp
  have o: "request_objects demo_env 7 demo_request = Some (JObj [(''method'', JStr ''options'')], JObj [])"
    by code_simp
  have m: "upper_method (Some ''options'') = Some ''OPTIONS''" by code_simp
  have "request_part demo_env ''t'' ''t-web'' demo_request (JObj [(''sampled'', JNum 1)])
      \<lparr>mc_tags = [], mc_agg = [], mc_rollup = [], mc_us = 0, mc_ts = 0\<rparr> 60 demo_world =
      Some (Return, add_filtered demo_world)"
    by (simp add: request_part_def v o demo_env_sel user_agent_def m Let_def)
  with refused_request [OF this] show ?thesis by blast
qed

text \<open>A run that counts no refusal goes on to the store with the document it was given.\<close>

definition type_result :: "('j, 'd, 'h) env \<Rightarrow> 'j \<Rightarrow> ('d, 'h) world \<Rightarrow> 'j typed_part \<times> ('d, 'h) world \<Rightarrow> bool" where
  "type_result E message w r =
     (case fst r of
        Return \<Rightarrow> stats (snd r) \<noteq> stats w
      | Go_on p m \<Rightarrow> same_process w (snd r) \<and> parts_of E message m)"

lemma refused_stats: "refused w w' \<Longrightarrow> stats w' \<noteq> stats w"
  by (auto simp: refused_def)

lemma part_type_result:
  assumes "same_process w w1" "m = Some (x, w')" "part_result E message w1 (x, w')"
  shows "type_result E message w (x, w')"
  using assms refused_stats [of w1 w']
  by (auto simp: part_result_def type_result_def same_process_def split: typed_part.splits)

lemma type_part_result: "post (type_part E team service message txn t c freq w) (type_result E message w)"
proof -
  have n: "post (named_part E team message txn c freq (put_team team td w)) (type_result E message w)" for td
    unfolding post_def
    by (auto simp: type_result_def parts_of_def dest!: part_same
        intro: same_process_trans [OF same_process_teams(2)])
  have q: "post (request_part E team service message txn c freq (put_team team td w)) (type_result E message w)" for td
    using request_part_result [of E team service message txn c freq "put_team team td w"]
    by (auto simp: post_def intro: part_type_result [OF same_process_teams(2)])
  show ?thesis
    unfolding type_part_def
    by (intro post_intros n q post_Some) (simp_all add: type_result_def parts_of_def)
qed

lemma root_part_stores:
  assumes "root_part E m (Some tid) d service cp ttl w = Some (r, w')"
    and "store_ok (store w)" "key_size_ok tid" "\<forall>n. mdb_outcomes (store w) n = None"
  shows "let over = (get_jaeger_threshold_us (Some service) w \<le> d) in
      current_env (store w') jaeger_dbi =
        (if over then (current_env (store w) jaeger_dbi)(tid \<mapsto> ''trace'') else current_env (store w) jaeger_dbi) \<and>
      (over \<or> kafka_lag (stats w) < 50000 \<longrightarrow> current_env (store w') ts_dbi tid \<noteq> None)"
proof -
  have dbi: "current_dbi (store w) = ts_dbi" "current_jaeger_dbi (store w) = jaeger_dbi"
    using assms(2) by (simp_all add: store_ok_def)
  show ?thesis using assms(1,3,4)
    by (auto simp: root_part_def Let_def store_mark_def store_put_def tm_transaction_store_mark_traceable_def
        tm_transaction_store_put_def put_outcome_def dbi split_beta split: if_splits)
qed

text \<open>C19: A root transaction that is not refused is marked for tracing exactly when it took at least the
  service's threshold; then, or when the consumer is not far behind, its record is in the store
  afterwards under the trace's id.\<close>

theorem slow_root_is_traced:
  assumes "process_transaction_message E message ttl w = Some (r, w')" "stats w' = stats w"
    and "pre_process E message w = Some (Pre_ok p, w1)"
    and "transaction_fields E message = Some (txn, duration_us, Some tid)"
    and "tm_service_name E (Some message) = Some (Some service)"
    and "\<And>m. parts_of E message m \<Longrightarrow> jo_get E (Some m) ''parent'' = None \<and> trace_hook E m \<noteq> MTEV_HOOK_ABORT"
    and "store_ok (store w)" "key_size_ok tid" "\<forall>n. mdb_outcomes (store w) n = None"
  shows "let over = (get_jaeger_threshold_us (Some service) w \<le> duration_us) in
      current_env (store w') jaeger_dbi =
        (if over then (current_env (store w) jaeger_dbi)(tid \<mapsto> ''trace'') else current_env (store w) jaeger_dbi) \<and>
      (over \<or> kafka_lag (stats w) < 50000 \<longrightarrow> current_env (store w') ts_dbi tid \<noteq> None)"
proof -
  let ?w1 = "get_team_data (pre_team p) w1"
  obtain tags w2 where b: "build_agg_tag_string E message (pre_team p) ?w1 = Some (tags, w2)"
    and body: "transaction_body E message p tags txn duration_us (Some tid) service ttl w2 = Some (r, w')"
    using assms(1,3-5) by (auto simp: process_transaction_message_def bind_eq_Some_conv)
  have "same_process w w1" using pre_process_world [OF assms(3)] by simp
  then have w2: "same_process w w2"
    using build_agg_world [OF b] by (auto intro: same_process_trans same_process_teams(1))
  from body obtain t td c part w3 where
    ty: "type_part E (pre_team p) service message txn t c (get_metric_flush_frequency_ms (Some service) w2) w2 = Some (part, w3)"
    and tr: "(case part of Return \<Rightarrow> Some (False, w3) | Go_on cp m \<Rightarrow>
        trace_part E m (Some tid) duration_us service cp ttl w3) = Some (r, w')"
    by (auto simp: transaction_body_def Let_def bind_eq_Some_conv)
  have res: "type_result E message w2 (part, w3)" by (rule postD [OF ty type_part_result])
  show ?thesis
  proof (cases part)
    case Return
    then show ?thesis using res tr assms(2) w2 by (simp add: type_result_def same_process_def)
  next
    case (Go_on cp m)
    then have w3: "same_process w w3" and m: "parts_of E message m"
      using res w2 by (auto simp: type_result_def intro: same_process_trans)
    have root: "root_part E m (Some tid) duration_us service cp ttl w3 = Some (r, w')"
      using tr assms(6) [OF m] Go_on by (simp add: trace_part_def Let_def split: if_splits)
    have e: "store w3 = store w" "stats w3 = stats w" using w3 by (simp_all add: same_process_def)
    show ?thesis using root_part_stores [OF root] assms(7-9) unfolding Let_def
      by (simp add: e same_process_settings [OF w3])
  qed
qed

definition slow_doc :: jdoc where
  "slow_doc = JObj [(''@metadata'', JObj [(''version'', JStr ''7.4.0'')]),
     (''service'', JObj [(''name'', JStr ''t-web'')]), (''@timestamp'', JStr ''2019-03-20T17:09:03.949Z''),
     (''trace'', JObj [(''id'', JStr ''ab'')]),
     (''transaction'', JObj [(''type'', JStr ''page-load''), (''duration'', JObj [(''us'', JNum 3000000)])])]"

lemma slow_doc_pre:
  "pre_process demo_env slow_doc demo_world =
     Some (Pre_ok \<lparr>pre_team = ''t'', pre_tags = ''service:t-web'', pre_timestamp = 3949\<rparr>, demo_world)"
proof -
  have "map_option fst (pre_process demo_env slow_doc demo_world) =
      Some (Pre_ok \<lparr>pre_team = ''t'', pre_tags = ''service:t-web'', pre_timestamp = 3949\<rparr>)"
    by code_simp
  then obtain w' where "pre_process demo_env slow_doc demo_world =
      Some (Pre_ok \<lparr>pre_team = ''t'', pre_tags = ''service:t-web'', pre_timestamp = 3949\<rparr>, w')" by auto
  with pre_process_world [OF this] show ?thesis by (simp add: get_team_data_def)
qed

lemma slow_doc_runs:
  "\<exists>w'. process_transaction_message demo_env slow_doc 600 demo_world = Some (False, w') \<and> stats w' = stats demo_world"
proof -
  have s: "tm_service_name demo_env (Some slow_doc) = Some (Some ''t-web'')"
    "transaction_fields demo_env slow_doc =
       Some (JObj [(''type'', JStr ''page-load''), (''duration'', JObj [(''us'', JNum 3000000)])], 3000000, Some ''ab'')"
    "jo_get demo_env (Some slow_doc) ''parent'' = None"
    by code_simp+
  have t: "get_team_data ''t'' demo_world = demo_world" by (simp add: get_team_data_def)
  show ?thesis
    by (simp add: process_transaction_message_def slow_doc_pre t build_agg_tag_string_def s transaction_body_def
        the_team_def demo_env_sel type_part_def trace_part_def root_part_def Let_def into_buf_def
        store_put_def store_mark_def put_team_def split_beta)
qed

theorem slow_root_is_traced_witness:
  "\<exists>r w'. process_transaction_message demo_env slow_doc 600 demo_world = Some (r, w') \<and>
     current_env (store w') jaeger_dbi = [''ab'' \<mapsto> ''trace''] \<and> current_env (store w') ts_dbi ''ab'' \<noteq> None"
proof -
  obtain w' where w': "process_transaction_message demo_env slow_doc 600 demo_world = Some (False, w')"
    "stats w' = stats demo_world" using slow_doc_runs by blast
  have s: "tm_service_name demo_env (Some slow_doc) = Some (Some ''t-web'')"
    "transaction_fields demo_env slow_doc =
       Some (JObj [(''type'', JStr ''page-load''), (''duration'', JObj [(''us'', JNum 3000000)])], 3000000, Some ''ab'')"
    by code_simp+
  have p: "parts_of demo_env slow_doc m \<Longrightarrow> jo_get demo_env (Some m) ''parent'' = None \<and>
      trace_hook demo_env m \<noteq> MTEV_HOOK_ABORT" for m
    by (auto simp: parts_of_def demo_env_sel slow_doc_def)
  have over: "get_jaeger_threshold_us (Some ''t-web'') demo_world \<le> 3000000"
    by (simp add: get_jaeger_threshold_us_def lookup_setting_def demo_world_def)
  from slow_root_is_traced [OF w'(1,2) slow_doc_pre s(2,1) p] demo_store_ok over
  show ?thesis using w'(1) by (auto simp: Let_def demo_store_def key_size_ok_def)
qed

end
