(* ===== verification/TM_Otel.thy ===== *)
theory TM_Otel
  imports TM_Handlers "HOL-Library.Signed_Division"
begin

text \<open>
  tm_process_otel_span.cc: spans of the OpenTelemetry collector, as one Jaeger span per message
  (\<open>otel_process_jaeger_span\<close>) or as a batch of OTLP resource spans (\<open>otel_process_otel_span\<close>).
  Parsing the protobuf text is a parameter; a parsed message is a record of the fields the code
  reads. A \<open>std::string\<close> may hold NULs, which \<open>c_str\<close> with \<open>%s\<close> cuts: \<open>cstr\<close>. Following the NULL
  pointer of a missing tag, and formatting one with \<open>%s\<close>, is undefined.

  Both functions are declared \<open>bool\<close> and end without a \<open>return\<close> when a message was processed; what
  the caller sees is \<open>junk_return\<close>.
\<close>

section \<open>Messages\<close>

record otag =
  ot_key :: string
  ot_str :: string
  ot_int64 :: int

text \<open>Times are seconds and nanoseconds.\<close>

record jaeger_in =
  ji_operation :: string
  ji_start :: "int \<times> int"
  ji_duration :: "int \<times> int"
  ji_tags :: "otag list"
  ji_process :: "(string \<times> otag list) option"

definition get_tag :: "jaeger_in \<Rightarrow> string \<Rightarrow> otag option" where
  "get_tag s name = find (\<lambda>kv. ot_key kv = name) (ji_tags s)"

text \<open>The same table as in tm_process.c; every byte counts, NULs too.\<close>

definition make_safe :: "string \<Rightarrow> string" where
  "make_safe s = tm_clean_tag_value s"

text \<open>\<open>tolower\<close> in the C locale.\<close>

definition to_lower :: "char \<Rightarrow> char" where
  "to_lower c = (let n = of_char c :: nat in if 65 \<le> n \<and> n \<le> 90 then char_of (n + 32) else c)"

definition parse_domain :: "string \<Rightarrow> string option" where
  "parse_domain url =
     map_option (\<lambda>i. cstr (map to_lower (takeWhile (\<lambda>c. c \<noteq> CHR ''/'') (drop (i + 3) url)))) (strstr url ''://'')"

definition simplify_status_code :: "int \<Rightarrow> string" where
  "simplify_status_code code = int_dec (sint (word_of_int (code sdiv 100) :: u32)) @ ''XX''"

section \<open>The metrics of a span\<close>

text \<open>Two latencies and two counters, for what the span names and for all.\<close>

definition pair_updates :: "mctx \<Rightarrow> string \<Rightarrow> string \<Rightarrow> string \<Rightarrow> 'd update list" where
  "pair_updates c counter named all =
     [latency c ''latency'' [] named, latency c ''latency'' [] all, count1 c counter [] named, count1 c counter [] all]"

definition server_updates :: "mctx \<Rightarrow> string \<Rightarrow> string \<Rightarrow> string \<Rightarrow> string \<Rightarrow> int \<Rightarrow> 'd update list" where
  "server_updates c op_name verb code flav sc =
     (let tags = (\<lambda>name. ''type:server,name:'' @ name @ '',method:'' @ verb @ '',code:'' @ code @
                    '',flavor:'' @ flav @ '','' @ mc_agg c);
          errs = (\<lambda>name. ''type:server,code:'' @ code @ '',name:'' @ name @ '',method:'' @ verb @
                    '',flavor:'' @ flav @ '','' @ mc_agg c)
      in pair_updates c ''request_count'' (tags op_name) (tags ''all'') @
         when_list (399 < sc)
           [count1 c ''error_count'' [] (errs op_name), count1 c ''error_count'' [] (errs ''all'')])"

definition client_db_updates :: "mctx \<Rightarrow> string \<Rightarrow> string \<Rightarrow> 'd update list" where
  "client_db_updates c system op_name =
     (let tags = (\<lambda>name. ''type:client,subtype:db,system:'' @ system @ '',op_name:'' @ name @ '','' @ mc_agg c)
      in pair_updates c ''request_count'' (tags op_name) (tags ''all''))"

definition client_http_updates :: "mctx \<Rightarrow> string \<Rightarrow> string \<Rightarrow> string \<Rightarrow> 'd update list" where
  "client_http_updates c verb domain code =
     (let tags = (\<lambda>name. ''type:client,subtype:http,method:'' @ verb @ '',domain:'' @ name @
                    '',code:'' @ code @ '','' @ mc_agg c)
      in pair_updates c ''request_count'' (tags domain) (tags ''all''))"

definition client_rpc_updates :: "mctx \<Rightarrow> string \<Rightarrow> string \<Rightarrow> 'd update list" where
  "client_rpc_updates c system op_name =
     (let tags = (\<lambda>name. ''type:client,subtype:rpc,system:'' @ system @ '',method:'' @ name @ '','' @ mc_agg c)
      in pair_updates c ''request_count'' (tags op_name) (tags ''all''))"

definition messaging_updates :: "mctx \<Rightarrow> string \<Rightarrow> string \<Rightarrow> string \<Rightarrow> 'd update list" where
  "messaging_updates c kind system dest =
     (let tags = (\<lambda>name. ''type:'' @ kind @ '',system:'' @ system @ '',destination:'' @ name @ '','' @ mc_agg c)
      in pair_updates c ''request_count'' (tags dest) (tags ''all''))"

definition internal_span_updates :: "mctx \<Rightarrow> string \<Rightarrow> 'd update list" where
  "internal_span_updates c op_name =
     (let tags = (\<lambda>name. ''type:internal,op_name:'' @ name @ '','' @ mc_agg c)
      in pair_updates c ''execution_count'' (tags op_name) (tags ''all''))"

definition client_part :: "jaeger_in \<Rightarrow> mctx \<Rightarrow> 'd update list ub" where
  "client_part s c =
     (case get_tag s ''db.system'' of
        Some attr \<Rightarrow> Some (client_db_updates c (cstr (ot_str attr)) (make_safe (ji_operation s)))
      | None \<Rightarrow>
     (case get_tag s ''http.url'' of
        Some attr \<Rightarrow> do {
          code_kv \<leftarrow> get_tag s ''http.status_code'';
          verb \<leftarrow> get_tag s ''http.method'';
          domain \<leftarrow> parse_domain (cstr (ot_str attr));
          Some (client_http_updates c (cstr (ot_str verb)) domain (simplify_status_code (ot_int64 code_kv))) }
      | None \<Rightarrow>
     (case get_tag s ''rpc.system'' of
        Some attr \<Rightarrow> Some (client_rpc_updates c (cstr (ot_str attr)) (make_safe (ji_operation s)))
      | None \<Rightarrow> Some [])))"

definition messaging_part :: "jaeger_in \<Rightarrow> mctx \<Rightarrow> string \<Rightarrow> 'd update list ub" where
  "messaging_part s c kind = do {
     system \<leftarrow> get_tag s ''messaging.system'';
     dest \<leftarrow> get_tag s ''messaging.destination'';
     Some (messaging_updates c kind (cstr (ot_str system)) (cstr (ot_str dest))) }"

definition server_part :: "jaeger_in \<Rightarrow> mctx \<Rightarrow> 'd update list ub" where
  "server_part s c = do {
     verb \<leftarrow> get_tag s ''http.method'';
     let flav = (case get_tag s ''http.flavor'' of None \<Rightarrow> ''unknown'' | Some kv \<Rightarrow> cstr (ot_str kv));
     status_code \<leftarrow> get_tag s ''http.status_code'';
     let sc_int = ot_int64 status_code;
     Some (server_updates c (make_safe (ji_operation s)) (cstr (ot_str verb)) (simplify_status_code sc_int) flav sc_int) }"

definition kind_part :: "jaeger_in \<Rightarrow> mctx \<Rightarrow> 'd update list ub" where
  "kind_part s c = do {
     kind \<leftarrow> get_tag s ''span.kind'';
     (if ot_str kind = ''server'' then server_part s c
      else if ot_str kind = ''client'' then client_part s c
      else if ot_str kind = ''producer'' then messaging_part s c ''producer''
      else if ot_str kind = ''consumer'' then messaging_part s c ''consumer''
      else if ot_str kind = ''internal'' then Some (internal_span_updates c (make_safe (ji_operation s)))
      else Some []) }"

section \<open>One Jaeger span per message\<close>

text \<open>The last \<open>mlb.team\<close> counts; without one the team is \<open>unknown\<close>.\<close>

definition team_of :: "otag list \<Rightarrow> string" where
  "team_of tags = foldl (\<lambda>t kv. if ot_key kv = ''mlb.team'' then cstr (ot_str kv) else t) ''unknown'' tags"

definition agg_tag_string :: "string \<Rightarrow> string \<Rightarrow> string" where
  "agg_tag_string service team = snprintf_n 2047 (''service:'' @ service @ '',team:'' @ team @ '',__rollup:false'')"

text \<open>Signed overflow of the duration is undefined; the start wraps.\<close>

definition int64_ok :: "int \<Rightarrow> bool" where
  "int64_ok n = (- (2 ^ 63) \<le> n \<and> n < 2 ^ 63)"

definition start_us :: "int \<times> int \<Rightarrow> u64" where
  "start_us t = word_of_int (fst t) * 1000000 + word_of_int (snd t sdiv 1000)"

definition duration_of :: "int \<times> int \<Rightarrow> u64 ub" where
  "duration_of t =
     (let us = fst t * 1000000; d = us + snd t sdiv 1000 in
      if int64_ok us \<and> int64_ok d then Some (word_of_int d) else None)"

definition otel_process_jaeger_span ::
  "('j, 'd, 'h) env \<Rightarrow> (string option \<Rightarrow> jaeger_in option) \<Rightarrow> string option \<Rightarrow> ('d, 'h) world \<Rightarrow> ('d, 'h) step" where
  "otel_process_jaeger_span E parse payload w =
     (case parse payload of
        None \<Rightarrow> Some (False, w)
      | Some s \<Rightarrow>
          (case ji_process s of
             None \<Rightarrow> Some (False, w)
           | Some (service_name, tags) \<Rightarrow> do {
               let service = cstr service_name;
               let team = team_of tags;
               let w = get_team_data team w;
               let freq = get_metric_flush_frequency_ms (Some service) w;
               duration_us \<leftarrow> duration_of (ji_duration s);
               let end_us = start_us (ji_start s) + duration_us;
               ts \<leftarrow> center_timestamp (end_us div 1000) freq;
               let agg = agg_tag_string service team;
               us \<leftarrow> kind_part s \<lparr>mc_tags = agg, mc_agg = agg, mc_rollup = [], mc_us = duration_us, mc_ts = ts\<rparr>;
               w \<leftarrow> run_updates E team us w;
               Some (junk_return E, w) }))"

section \<open>A batch of OTLP spans\<close>

datatype otel_value = O_string string | O_int int | O_other

record oattr =
  oa_key :: string
  oa_value :: otel_value

datatype span_kind = K_unspecified | K_internal | K_server | K_client | K_producer | K_consumer

record otel_span =
  os_name :: string
  os_kind :: span_kind
  os_start_ns :: u64
  os_end_ns :: u64
  os_attributes :: "oattr list"
  os_events :: "string list"

record resource_spans =
  rs_attributes :: "oattr list"
  rs_libraries :: "otel_span list list"

definition string_value :: "otel_value \<Rightarrow> string" where
  "string_value v = (case v of O_string s \<Rightarrow> s | _ \<Rightarrow> [])"

text \<open>\<open>int sc_int = ...int_value ()\<close> keeps 32 bits; \<open>sprintf\<close> writes them into 10 bytes.\<close>

definition int_value32 :: "otel_value \<Rightarrow> int" where
  "int_value32 v = (case v of O_int n \<Rightarrow> sint (word_of_int n :: u32) | _ \<Rightarrow> 0)"

definition get_attribute :: "otel_span \<Rightarrow> string \<Rightarrow> oattr option" where
  "get_attribute s name = find (\<lambda>kv. oa_key kv = name) (os_attributes s)"

definition attr_text :: "oattr \<Rightarrow> string" where
  "attr_text a = cstr (string_value (oa_value a))"

definition otel_server :: "otel_span \<Rightarrow> mctx \<Rightarrow> 'd update list ub" where
  "otel_server s c = do {
     verb \<leftarrow> get_attribute s ''http.method'';
     let flav = (case get_attribute s ''http.flavor'' of None \<Rightarrow> ''unknown'' | Some kv \<Rightarrow> attr_text kv);
     let sc_int = (case get_attribute s ''http.status_code'' of None \<Rightarrow> 0 | Some kv \<Rightarrow> int_value32 (oa_value kv));
     sc \<leftarrow> (if get_attribute s ''http.status_code'' = None then Some ''unknown'' else into_buf 10 (int_dec sc_int));
     let tags = (\<lambda>name. ''type:server,name:'' @ name @ '',method:'' @ attr_text verb @ '',flavor:'' @ flav @ '','' @ mc_agg c);
     let errs = (\<lambda>name. ''type:server,code:'' @ sc @ '',name:'' @ name @ '',method:'' @ attr_text verb @ '',flavor:'' @ flav @ '','' @ mc_agg c);
     let name = cstr (os_name s);
     Some (pair_updates c ''request_count'' (tags name) (tags ''all'') @
       when_list (399 < sc_int) [count1 c ''error_count'' [] (errs name), count1 c ''error_count'' [] (errs ''all'')]) }"

definition span_name_updates :: "mctx \<Rightarrow> string \<Rightarrow> otel_span \<Rightarrow> 'd update list" where
  "span_name_updates c lead s =
     pair_updates c ''request_count'' (lead @ ''name:'' @ cstr (os_name s) @ '','' @ mc_agg c)
       (lead @ ''name:all,'' @ mc_agg c)"

definition otel_client :: "otel_span \<Rightarrow> mctx \<Rightarrow> 'd update list" where
  "otel_client s c =
     (case get_attribute s ''db.system'' of
        Some attr \<Rightarrow> span_name_updates c (''type:client,subtype:db,system:'' @ attr_text attr @ '','') s
      | None \<Rightarrow>
     (case get_attribute s ''http.url'' of
        Some attr \<Rightarrow> span_name_updates c ''type:client,subtype:http,'' s
      | None \<Rightarrow>
     (case get_attribute s ''rpc.system'' of
        Some attr \<Rightarrow> span_name_updates c (''type:client,subtype:rpc,system:'' @ attr_text attr @ '','') s
      | None \<Rightarrow> [])))"

definition otel_messaging :: "otel_span \<Rightarrow> mctx \<Rightarrow> string \<Rightarrow> 'd update list ub" where
  "otel_messaging s c kind = do {
     system \<leftarrow> get_attribute s ''messaging.system'';
     Some (span_name_updates c (''type:'' @ kind @ '',system:'' @ attr_text system @ '','') s) }"

definition otel_kind_part :: "otel_span \<Rightarrow> mctx \<Rightarrow> 'd update list ub" where
  "otel_kind_part s c =
     (case os_kind s of
        K_server \<Rightarrow> otel_server s c
      | K_client \<Rightarrow> Some (otel_client s c)
      | K_producer \<Rightarrow> otel_messaging s c ''producer''
      | K_consumer \<Rightarrow> otel_messaging s c ''consumer''
      | K_internal \<Rightarrow> Some (span_name_updates c ''type:internal,'' s)
      | K_unspecified \<Rightarrow> Some [])"

definition exception_updates :: "otel_span \<Rightarrow> mctx \<Rightarrow> 'd update list" where
  "exception_updates s c =
     concat (map (\<lambda>event. when_list (event = ''exception'')
       [count1 c ''exception_count'' [] (''name:'' @ cstr (os_name s) @ '','' @ mc_agg c),
        count1 c ''exception_count'' [] (''name:all,'' @ mc_agg c)]) (os_events s))"

definition otel_one_span ::
  "('j, 'd, 'h) env \<Rightarrow> string \<Rightarrow> string \<Rightarrow> u64 \<Rightarrow> ('d, 'h) world \<Rightarrow> otel_span \<Rightarrow> ('d, 'h) world ub" where
  "otel_one_span E team agg freq w s = do {
     let duration_us = (if os_end_ns s > os_start_ns s then (os_end_ns s - os_start_ns s) div 1000 else 0);
     ts \<leftarrow> center_timestamp (os_end_ns s div 1000000) freq;
     let c = \<lparr>mc_tags = agg, mc_agg = agg, mc_rollup = [], mc_us = duration_us, mc_ts = ts\<rparr>;
     us \<leftarrow> otel_kind_part s c;
     run_updates E team (us @ exception_updates s c) w }"

definition resource_text :: "string \<Rightarrow> resource_spans \<Rightarrow> string option" where
  "resource_text name r =
     foldl (\<lambda>t kv. if oa_key kv = name then Some (cstr (string_value (oa_value kv))) else t) None (rs_attributes r)"

text \<open>A resource without a service ends the whole batch.\<close>

fun otel_resources ::
  "('j, 'd, 'h) env \<Rightarrow> resource_spans list \<Rightarrow> ('d, 'h) world \<Rightarrow> ('d, 'h) step" where
  "otel_resources E [] w = Some (junk_return E, w)"
| "otel_resources E (r # rs) w =
     (case resource_text ''service.name'' r of
        None \<Rightarrow> Some (False, w)
      | Some service \<Rightarrow>
          (let team = (case resource_text ''mlb.team'' r of None \<Rightarrow> ''unknown'' | Some t \<Rightarrow> t);
               w = get_team_data team w;
               freq = get_metric_flush_frequency_ms (Some service) w
           in (case foldM (otel_one_span E team (agg_tag_string service team) freq) w (concat (rs_libraries r)) of
                 None \<Rightarrow> None
               | Some w \<Rightarrow> otel_resources E rs w)))"

definition otel_process_otel_span ::
  "('j, 'd, 'h) env \<Rightarrow> (string option \<Rightarrow> resource_spans list option) \<Rightarrow> string option \<Rightarrow> ('d, 'h) world \<Rightarrow> ('d, 'h) step" where
  "otel_process_otel_span E parse payload w =
     (case parse payload of None \<Rightarrow> Some (False, w) | Some rs \<Rightarrow> otel_resources E rs w)"

section \<open>Facts\<close>

lemma pair_updates_ok:
  "(counter, True, K_int) \<in> set heads \<Longrightarrow> list_all update_ok (pair_updates c counter named all)"
  by (simp add: pair_updates_def latency_ok count1_ok heads_mem)

lemma otel_updates_ok:
  "list_all update_ok (server_updates c n m code f sc)" "list_all update_ok (client_db_updates c y n)"
  "list_all update_ok (client_http_updates c m d code)" "list_all update_ok (client_rpc_updates c y n)"
  "list_all update_ok (messaging_updates c k y d)" "list_all update_ok (internal_span_updates c n)"
  by (simp_all add: server_updates_def client_db_updates_def client_http_updates_def client_rpc_updates_def
      messaging_updates_def internal_span_updates_def Let_def when_list_def pair_updates_ok count1_ok heads_mem)

lemma otel_batch_ok:
  "list_all update_ok (span_name_updates c lead s)" "list_all update_ok (exception_updates s c)"
  by (simp_all add: span_name_updates_def pair_updates_ok heads_mem)
     (auto simp: exception_updates_def list_all_iff when_list_def count1_ok heads_mem)

lemma kind_part_ok: "post (kind_part s c) (list_all update_ok)"
  unfolding kind_part_def server_part_def client_part_def messaging_part_def Let_def
  by (intro post_intros post_Some) (simp_all add: otel_updates_ok)

lemma otel_kind_part_ok: "post (otel_kind_part s c) (list_all update_ok)"
  unfolding otel_kind_part_def otel_server_def otel_client_def otel_messaging_def Let_def
  by (cases "os_kind s")
     (auto intro!: post_intros post_Some split: option.splits
       simp: otel_batch_ok pair_updates_ok when_list_def count1_ok heads_mem)

lemma run_updates_docs:
  assumes "list_all update_ok us" "docs_step w0 w"
  shows "post (run_updates E t us w) (docs_step w0)"
  unfolding post_def
  using assms run_updates_then [OF _ assms(1) doc_step_refl] docs_step_one docs_step_trans by blast

lemma get_team_docs: "docs_step w (get_team_data t w)"
  by (rule docs_step_one) (rule doc_step_get_team_data)

lemma jaeger_span_step: "post (otel_process_jaeger_span E parse payload w) (\<lambda>(r, w'). docs_step w w')"
  unfolding otel_process_jaeger_span_def Let_def
  by (intro post_intros post_Some)
     (auto dest!: postD [OF _ kind_part_ok] dest: postD [OF _ run_updates_docs [OF _ get_team_docs]])

text \<open>Names that differ. A safe name holds no comma, so only \<open>all\<close> itself reads like \<open>all\<close>.\<close>

lemma make_safe_no_comma: "CHR '','' \<notin> set (make_safe s)"
  using clean_tag_chars tag_separators_rejected(1) by (auto simp: make_safe_def)

lemma comma_free_all:
  assumes "CHR '','' \<notin> set a" "take 4 (a @ CHR '','' # r) = ''all,''"
  shows "a = ''all''"
  using assms by (cases a; cases "tl a"; cases "tl (tl a)"; cases "tl (tl (tl a))") auto

lemma take_drop_eq: "take n (p @ a) = take n (p @ b) \<Longrightarrow> length p + m \<le> n \<Longrightarrow> take m a = take m b"
proof -
  assume e: "take n (p @ a) = take n (p @ b)" and n: "length p + m \<le> n"
  then have "take (n - length p) a = take (n - length p) b" by simp
  then have "take m (take (n - length p) a) = take m (take (n - length p) b)" by simp
  moreover have "m \<le> n - length p" using n by simp
  ultimately show ?thesis by (simp add: min_def)
qed

lemma named_or_all:
  assumes "CHR '','' \<notin> set a" "length p \<le> 1000"
  shows "mname (p @ a @ CHR '','' # r) = mname (p @ ''all,'' @ q) \<longleftrightarrow> a = ''all'' \<and> mname (p @ ''all,'' @ r) = mname (p @ ''all,'' @ q)"
proof
  assume e: "mname (p @ a @ CHR '','' # r) = mname (p @ ''all,'' @ q)"
  then have "take 4 (a @ CHR '','' # r) = take 4 (''all,'' @ q)"
    unfolding mname_def snprintf_n_def by (rule take_drop_eq) (use assms(2) in simp)
  then have "a = ''all''" using comma_free_all [OF assms(1)] by simp
  with e show "a = ''all'' \<and> mname (p @ ''all,'' @ r) = mname (p @ ''all,'' @ q)" by simp
qed simp

lemma u_name_hd: "u_head u \<noteq> [] \<Longrightarrow> hd (u_name u) = hd (u_head u)"
  by (cases "u_head u") (simp_all add: u_name_def mname_def snprintf_n_def)

lemma count_at_get_team [simp]: "count_at (get_team_data t' w) t key = count_at w t key"
  by (auto simp: count_at_def team_metrics_def get_team_data_def tm_add_team_def Let_def)

lemma update_keys:
  "update_key (latency c h r t :: 'd update) = agg_key (u_name (latency c h r t :: 'd update)) True (mc_ts c)"
  "update_key (count1 c h r t :: 'd update) = flush_key (u_name (count1 c h r t :: 'd update)) True (mc_ts c)"
  "u_head (latency c h r t) = h" "u_head (count1 c h r t) = h"
  "u_amount (latency c h r t) = Hit_latency (mc_us c)" "u_amount (count1 c h r t) = Hit_count 1"
  by (simp_all add: update_key_def latency_def count1_def update_agg_def)

lemma flush_key_inj: "flush_key a g ts = flush_key b g ts \<longleftrightarrow> a = b"
  by (auto simp: flush_key_def make_metric_key_def)

text \<open>How often a pair of updates names the total, given that names tell their counters apart.\<close>

lemma pair_hits:
  assumes "counter \<noteq> []" "hd counter \<noteq> CHR ''l''"
    and "key = flush_key (u_name (count1 c counter [] all :: 'd update)) True (mc_ts c)"
  shows "counter_key key (pair_updates c counter named all :: 'd update list)"
    and "hits key (pair_updates c counter named all :: 'd update list) =
      (if u_name (count1 c counter [] named :: 'd update) = u_name (count1 c counter [] all :: 'd update) then 2 else 1)"
proof -
  have "u_name (latency c ''latency'' [] t :: 'd update) \<noteq> u_name (count1 c counter [] all :: 'd update)" for t
    using assms(1,2) u_name_hd [of "latency c ''latency'' [] t :: 'd update"]
      u_name_hd [of "count1 c counter [] all :: 'd update"] by (auto simp: update_keys)
  then show "counter_key key (pair_updates c counter named all :: 'd update list)"
    by (auto simp: counter_key_def pair_updates_def update_keys assms(3) agg_key_def flush_key_def make_metric_key_def)
  show "hits key (pair_updates c counter named all :: 'd update list) =
      (if u_name (count1 c counter [] named :: 'd update) = u_name (count1 c counter [] all :: 'd update) then 2 else 1)"
    by (simp add: pair_updates_def update_keys assms(3) flush_key_inj)
qed

definition server_total :: "string \<Rightarrow> string \<Rightarrow> string \<Rightarrow> string \<Rightarrow> string" where
  "server_total verb code flav agg =
     mname (''request_count|ST[type:server,name:all,method:'' @ verb @ '',code:'' @ code @ '',flavor:'' @ flav @
       '','' @ agg @ '']'')"

lemma server_hits:
  fixes c :: mctx and n m code f :: string and sc :: int
  defines "us \<equiv> server_updates c n m code f sc :: 'd update list"
  assumes "CHR '','' \<notin> set n" "key = flush_key (server_total m code f (mc_agg c)) True (mc_ts c)"
  shows "counter_key key us \<and> hits key us = (if n = ''all'' then 2 else 1)"
proof -
  let ?tags = "\<lambda>n. ''type:server,name:'' @ n @ '',method:'' @ m @ '',code:'' @ code @ '',flavor:'' @ f @ '','' @ mc_agg c"
  let ?u = "\<lambda>t. count1 c ''request_count'' [] t :: 'd update"
  have nm: "u_name (?u t) = mname (''request_count|ST['' @ t @ '']'')" for t
    by (simp add: u_name_def count1_def)
  have key: "key = flush_key (u_name (?u (?tags ''all''))) True (mc_ts c)"
    unfolding assms(3) nm server_total_def by simp
  have eq: "u_name (?u (?tags n)) = u_name (?u (?tags ''all'')) \<longleftrightarrow> n = ''all''"
    using named_or_all [OF assms(2), of "''request_count|ST[type:server,name:''"
        "''method:'' @ m @ '',code:'' @ code @ '',flavor:'' @ f @ '','' @ mc_agg c @ '']''"
        "''method:'' @ m @ '',code:'' @ code @ '',flavor:'' @ f @ '','' @ mc_agg c @ '']''"]
    unfolding nm by simp
  have "u_name (count1 c ''error_count'' [] t :: 'd update) \<noteq> u_name (?u s)" for t s
    using u_name_hd [of "count1 c ''error_count'' [] t :: 'd update"] u_name_hd [of "?u s"] by (auto simp: update_keys)
  then have err: "update_key (count1 c ''error_count'' [] t :: 'd update) \<noteq> key" for t
    unfolding key by (simp add: update_keys flush_key_inj)
  have p: "counter_key key (pair_updates c ''request_count'' (?tags n) (?tags ''all'') :: 'd update list)"
    "hits key (pair_updates c ''request_count'' (?tags n) (?tags ''all'') :: 'd update list) = (if n = ''all'' then 2 else 1)"
    using pair_hits [OF _ _ key, of "?tags n"] eq by simp_all
  show ?thesis
    using p err unfolding us_def server_updates_def Let_def by (simp add: counter_key_def when_list_def update_keys)
qed

section \<open>Properties\<close>

text \<open>C26: A Jaeger span of kind \<open>server\<close> adds exactly one to its window's total of requests, whatever
  else it updates, unless its operation is itself called \<open>all\<close>: then the total counts it twice.\<close>

theorem otel_server_counted:
  assumes "parse payload = Some s" "ji_process s = Some (sn, tags)"
    and "get_tag s ''span.kind'' = Some k" "ot_str k = ''server''"
    and "otel_process_jaeger_span E parse payload w = Some (r, w')"
  shows "\<exists>verb status us ts. get_tag s ''http.method'' = Some verb \<and>
    get_tag s ''http.status_code'' = Some status \<and> duration_of (ji_duration s) = Some us \<and>
    center_timestamp ((start_us (ji_start s) + us) div 1000)
      (get_metric_flush_frequency_ms (Some (cstr sn)) w) = Some ts \<and>
    (let flav = (case get_tag s ''http.flavor'' of None \<Rightarrow> ''unknown'' | Some kv \<Rightarrow> cstr (ot_str kv));
         total = flush_key (server_total (cstr (ot_str verb)) (simplify_status_code (ot_int64 status)) flav (agg_tag_string (cstr sn) (team_of tags))) True ts
     in count_at w' (team_of tags) total = count_at w (team_of tags) total +
          (if make_safe (ji_operation s) = ''all'' then 2 else 1))"
proof -
  let ?t = "team_of tags" and ?agg = "agg_tag_string (cstr sn) (team_of tags)"
  have freq: "get_metric_flush_frequency_ms (Some (cstr sn)) (get_team_data ?t w) = get_metric_flush_frequency_ms (Some (cstr sn)) w"
    by (simp add: same_process_settings(2) [OF same_process_teams(1)])
  from assms obtain us ts ups where d: "duration_of (ji_duration s) = Some us"
      "center_timestamp ((start_us (ji_start s) + us) div 1000) (get_metric_flush_frequency_ms (Some (cstr sn)) w) = Some ts"
    and u: "kind_part s \<lparr>mc_tags = ?agg, mc_agg = ?agg, mc_rollup = [], mc_us = us, mc_ts = ts\<rparr> = Some ups"
    and run: "run_updates E ?t ups (get_team_data ?t w) = Some w'"
    by (auto simp: otel_process_jaeger_span_def Let_def bind_eq_Some_conv freq)
  let ?c = "\<lparr>mc_tags = ?agg, mc_agg = ?agg, mc_rollup = [], mc_us = us, mc_ts = ts\<rparr>"
  let ?flav = "(case get_tag s ''http.flavor'' of None \<Rightarrow> ''unknown'' | Some kv \<Rightarrow> cstr (ot_str kv))"
  from u assms(3,4) obtain verb status where m: "get_tag s ''http.method'' = Some verb"
      "get_tag s ''http.status_code'' = Some status"
    and ups: "ups = server_updates ?c (make_safe (ji_operation s)) (cstr (ot_str verb)) (simplify_status_code (ot_int64 status)) ?flav (ot_int64 status)"
    by (auto simp: kind_part_def server_part_def bind_eq_Some_conv Let_def)
  let ?total = "flush_key (server_total (cstr (ot_str verb)) (simplify_status_code (ot_int64 status)) ?flav ?agg) True ts"
  have h: "counter_key ?total ups \<and> hits ?total ups = (if make_safe (ji_operation s) = ''all'' then 2 else 1)"
    unfolding ups by (rule server_hits) (simp_all add: make_safe_no_comma)
  from run_updates_count [OF run, of ?total] h
  have "count_at w' ?t ?total = count_at w ?t ?total + (if make_safe (ji_operation s) = ''all'' then 2 else 1)" by simp
  with m d show ?thesis unfolding Let_def by blast
qed

definition demo_jaeger_in :: jaeger_in where
  "demo_jaeger_in =
     \<lparr>ji_operation = ''GET /'', ji_start = (1600000000, 0), ji_duration = (0, 1500000),
      ji_tags = [\<lparr>ot_key = ''span.kind'', ot_str = ''server'', ot_int64 = 0\<rparr>,
        \<lparr>ot_key = ''http.method'', ot_str = ''GET'', ot_int64 = 0\<rparr>,
        \<lparr>ot_key = ''http.status_code'', ot_str = [], ot_int64 = 200\<rparr>],
      ji_process = Some (''shop'', [\<lparr>ot_key = ''mlb.team'', ot_str = ''t'', ot_int64 = 0\<rparr>])\<rparr>"

lemma demo_otel_runs: "\<exists>r w'. otel_process_jaeger_span demo_env (\<lambda>p. Some demo_jaeger_in) None demo_world = Some (r, w')"
proof -
  have "teams (get_team_data ''t'' demo_world) ''t'' = Some new_team" by (simp add: get_team_data_def)
  moreover have "typed (hash (new_team :: (int, u64 list) team_data))" by (simp add: typed_def new_team_def)
  ultimately have run: "\<exists>w'. run_updates demo_env ''t'' (us :: int update list) (get_team_data ''t'' demo_world) = Some w'"
    if "list_all update_ok us" for us
    using run_updates_typed [of "get_team_data ''t'' demo_world" "''t''" new_team us demo_env] that by auto
  have t: "team_of [\<lparr>ot_key = ''mlb.team'', ot_str = ''t'', ot_int64 = 0\<rparr>] = ''t''" by (simp add: team_of_def)
  have f: "get_metric_flush_frequency_ms (Some x) (get_team_data ''t'' demo_world) = 60000" for x
    by (simp add: get_metric_flush_frequency_ms_def lookup_setting_def demo_world_def get_team_data_def)
  have d: "duration_of (0, 1500000) = Some 1500" by (simp add: duration_of_def int64_ok_def)
  have c: "\<exists>ts. center_timestamp x 60000 = Some ts" for x
    by (simp add: center_timestamp_def floor_timestamp_def)
  obtain ts where ts: "center_timestamp ((start_us (1600000000, 0) + 1500) div 1000) 60000 = Some ts" using c by auto
  show ?thesis
    using run [OF otel_updates_ok(1)]
    by (simp add: otel_process_jaeger_span_def demo_jaeger_in_def t f d kind_part_def server_part_def get_tag_def Let_def ts
        bind_eq_Some_conv)
qed

theorem otel_server_counted_witness:
  "\<exists>r w' key. otel_process_jaeger_span demo_env (\<lambda>p. Some demo_jaeger_in) None demo_world = Some (r, w') \<and>
     count_at w' ''t'' key = 1"
proof -
  obtain r w' where r: "otel_process_jaeger_span demo_env (\<lambda>p. Some demo_jaeger_in) None demo_world = Some (r, w')"
    using demo_otel_runs by auto
  have k: "get_tag demo_jaeger_in ''span.kind'' = Some \<lparr>ot_key = ''span.kind'', ot_str = ''server'', ot_int64 = 0\<rparr>"
    by (simp add: get_tag_def demo_jaeger_in_def)
  have p: "ji_process demo_jaeger_in = Some (''shop'', [\<lparr>ot_key = ''mlb.team'', ot_str = ''t'', ot_int64 = 0\<rparr>])"
    by (simp add: demo_jaeger_in_def)
  have t: "team_of [\<lparr>ot_key = ''mlb.team'', ot_str = ''t'', ot_int64 = 0\<rparr>] = ''t''" by (simp add: team_of_def)
  have "make_safe (ji_operation demo_jaeger_in) \<noteq> ''all''"
    by (simp add: make_safe_def demo_jaeger_in_def tm_clean_tag_value_def)
  moreover have "count_at demo_world ''t'' key = 0" for key
    by (simp add: count_at_def team_metrics_def new_team_def)
  ultimately show ?thesis
    using otel_server_counted [OF _ p k _ r] r unfolding t by (auto simp: Let_def)
qed

end
