(* ===== verification/TM_Kafka.thy ===== *)
theory TM_Kafka
  imports TM_Aggregate TM_Span TM_ProcessMetric TM_Transaction TM_Otel
begin

text \<open>
  The consumer of tm_kafka.c: \<open>tm_kafka_handle_message\<close> hands a document to the handler its
  \<open>processor.event\<close> names, \<open>tm_kafka_process_message\<close> unpacks one Kafka message, and
  \<open>tm_kafka_consume_messages\<close> a batch; \<open>kafka_read\<close> (main.c) runs a batch and then computes the lag.
  Messages of the topic \<open>otlp_spans\<close> are Jaeger spans; \<open>pb\<close> parses their protobuf text.
\<close>

section \<open>Dispatch\<close>

text \<open>\<open>strcmp\<close> with a missing event is undefined.\<close>

definition tm_kafka_handle_message ::
  "('j, 'd, 'h) env \<Rightarrow> string option \<Rightarrow> 'j \<Rightarrow> int \<Rightarrow> ('d, 'h) world \<Rightarrow> ('d, 'h) step" where
  "tm_kafka_handle_message E event doc ttl w = do {
     ev \<leftarrow> event;
     (if ev = ''metric'' then process_metric_message E doc w
      else if ev = ''transaction'' then process_transaction_message E doc ttl w
      else if ev = ''span'' then process_span_message E doc ttl w
      else if ev = ''error'' then process_error_message E doc ttl w
      else if ev = ''aggregate'' then process_aggregate_message E doc w
      else if ev = ''url'' then process_url_message E doc w
      else if ev = ''regex'' then process_regex_message E doc w
      else Some (False, add_errored w)) }"

section \<open>Messages\<close>

record kmsg =
  k_err :: bool
  k_payload :: "string option"
  k_offset :: u64

definition add_seen :: "('d, 'h) world \<Rightarrow> ('d, 'h) world" where
  "add_seen w = w\<lparr>stats := (stats w)\<lparr>messages_seen := messages_seen (stats w) + 1\<rparr>\<rparr>"

definition add_processed :: "u64 \<Rightarrow> ('d, 'h) world \<Rightarrow> ('d, 'h) world" where
  "add_processed offset w =
     w\<lparr>stats := (stats w)\<lparr>kafka_offset := offset, messages_processed := messages_processed (stats w) + 1\<rparr>\<rparr>"

definition event_of :: "('j, 'd, 'h) env \<Rightarrow> 'j \<Rightarrow> string option" where
  "event_of E processor = jo_string E (jo_get E (Some processor) ''event'')"

text \<open>The document the hook made, if any, is handled after the incoming one.\<close>

definition process_result ::
  "('j, 'd, 'h) env \<Rightarrow> 'j option \<Rightarrow> int \<Rightarrow> ('d, 'h) world \<Rightarrow> ('d, 'h) world ub" where
  "process_result E result ttl w =
     (case result of
        None \<Rightarrow> Some w
      | Some r \<Rightarrow>
          (case jo_get E (Some r) ''processor'' of
             None \<Rightarrow> Some w
           | Some p \<Rightarrow> do { (k, w) \<leftarrow> tm_kafka_handle_message E (event_of E p) r ttl w; Some w }))"

definition process_document :: "('j, 'd, 'h) env \<Rightarrow> 'j \<Rightarrow> ('d, 'h) world \<Rightarrow> ('d, 'h) step" where
  "process_document E doc w =
     (case jo_get E (Some doc) ''processor'' of
        None \<Rightarrow> Some (True, add_errored w)
      | Some processor \<Rightarrow> do {
          let (rc, result, ttl) = document_hook E doc;
          w \<leftarrow> (if rc = MTEV_HOOK_ABORT then Some (add_filtered w)
               else do { (k, w) \<leftarrow> tm_kafka_handle_message E (event_of E processor) doc ttl w; Some w });
          w \<leftarrow> process_result E result ttl w;
          Some (True, w) })"

definition tm_kafka_process_message ::
  "('j, 'd, 'h) env \<Rightarrow> (string option \<Rightarrow> jaeger_in option) \<Rightarrow> kmsg option \<Rightarrow> ('d, 'h) world \<Rightarrow> ('d, 'h) step" where
  "tm_kafka_process_message E pb msg w = do {
     m \<leftarrow> msg;
     (if \<not> k_err m then
        (let w = add_seen w in
         if topic_name (stats w) = ''otlp_spans'' then otel_process_jaeger_span E pb (k_payload m) w
         else (case k_payload m of
             None \<Rightarrow> Some (False, w)
           | Some json \<Rightarrow>
               (case jo_parse E json of
                  None \<Rightarrow> Some (False, w)
                | Some doc \<Rightarrow> process_document E doc (add_processed (k_offset m) w))))
      else do {
        s \<leftarrow> k_payload m;
        Some (False, if s = ''Broker: No more messages'' then w else add_errored w) }) }"

text \<open>\<open>None\<close> is a batch that could not be read. The result is the largest offset.\<close>

definition tm_kafka_consume_messages ::
  "('j, 'd, 'h) env \<Rightarrow> (string option \<Rightarrow> jaeger_in option) \<Rightarrow> kmsg list option \<Rightarrow> ('d, 'h) world \<Rightarrow>
     (u64 \<times> ('d, 'h) world) ub" where
  "tm_kafka_consume_messages E pb batch w =
     (case batch of
        None \<Rightarrow> Some (0, w)
      | Some ms \<Rightarrow>
          foldM (\<lambda>(offset, w) m. do {
            (b, w) \<leftarrow> tm_kafka_process_message E pb (Some m) w;
            Some (if offset < k_offset m then k_offset m else offset, w) }) (0, w) ms)"

text \<open>
  After a batch \<open>kafka_read\<close> asks for the high watermark. The watermark and the lag are signed, the
  offset is not, so both the comparison and the difference are unsigned.
\<close>

definition update_lag :: "int \<Rightarrow> ('d, 'h) world \<Rightarrow> ('d, 'h) world" where
  "update_lag watermark w =
     (let s = (stats w)\<lparr>high_watermark := watermark\<rparr>; hw = (word_of_int watermark :: u64)
      in w\<lparr>stats := (if 0 < kafka_offset s \<and> kafka_offset s < hw
                     then s\<lparr>kafka_lag := sint (hw - kafka_offset s)\<rparr> else s)\<rparr>)"

definition kafka_read ::
  "('j, 'd, 'h) env \<Rightarrow> (string option \<Rightarrow> jaeger_in option) \<Rightarrow> kmsg list option \<Rightarrow> int \<Rightarrow> ('d, 'h) world \<Rightarrow>
     ('d, 'h) world ub" where
  "kafka_read E pb batch watermark w = do {
     (offset, w) \<leftarrow> tm_kafka_consume_messages E pb batch w;
     Some (update_lag watermark w) }"

section \<open>Facts\<close>

lemma handle_message_post:
  "post (tm_kafka_handle_message E event doc ttl w) (\<lambda>r. \<not> fst r \<and> docs_step w (snd r))"
proof -
  have h: "handled w m \<Longrightarrow> post m (\<lambda>r. \<not> fst r \<and> docs_step w (snd r))" for m
    by (auto simp: post_def intro: docs_step_one)
  show ?thesis
    unfolding tm_kafka_handle_message_def
    by (intro post_intros)
       (rule aggregate_handled |
        (rule h, rule metric_handled transaction_handled span_handled error_handled url_handled regex_handled
           handled_Some [OF doc_step_same_teams], (simp add: add_errored_def)?))+
qed

interpretation dispatch: document_handler "\<lambda>(event, doc, ttl). tm_kafka_handle_message E event doc ttl"
  for E :: "('j, 'd, 'h) env"
  by (rule document_handlersI) (auto intro: handle_message_post)

lemma handle_message_step:
  "tm_kafka_handle_message E event doc ttl w = Some (r, w') \<Longrightarrow> docs_step w0 w \<Longrightarrow> docs_step w0 w'"
  using postD [OF _ handle_message_post] by (fastforce intro: docs_step_trans)

lemma docs_same_then: "docs_step w0 w \<Longrightarrow> teams w' = teams w \<Longrightarrow> docs_step w0 w'"
  by (erule docs_step_trans) (rule docs_step_same_teams)

lemma counted_step:
  "docs_step w0 w \<Longrightarrow> docs_step w0 (add_errored w)" "docs_step w0 w \<Longrightarrow> docs_step w0 (add_filtered w)"
  "docs_step w0 w \<Longrightarrow> docs_step w0 (add_seen w)" "docs_step w0 w \<Longrightarrow> docs_step w0 (add_processed n w)"
  by (auto elim!: docs_same_then simp: add_errored_def add_filtered_def add_seen_def add_processed_def)

lemma process_result_step: "process_result E result ttl w = Some w' \<Longrightarrow> docs_step w0 w \<Longrightarrow> docs_step w0 w'"
  by (auto simp: process_result_def bind_eq_Some_conv split: option.splits intro: handle_message_step)

lemma process_document_step:
  assumes "process_document E doc w = Some (r, w')"
  shows "docs_step w w'"
proof (cases "jo_get E (Some doc) ''processor''")
  case None
  then show ?thesis using assms by (auto simp: process_document_def intro: counted_step)
next
  case (Some p)
  obtain rc result ttl where h: "document_hook E doc = (rc, result, ttl)" by (cases "document_hook E doc")
  from assms Some h obtain w1 where w1: "process_result E result ttl w1 = Some w'"
    and c: "if rc = MTEV_HOOK_ABORT then w1 = add_filtered w
            else \<exists>k. tm_kafka_handle_message E (event_of E p) doc ttl w = Some (k, w1)"
    by (auto simp: process_document_def bind_eq_Some_conv split: if_splits)
  have "docs_step w w1" using c by (auto split: if_splits intro: counted_step handle_message_step)
  then show ?thesis by (rule process_result_step [OF w1])
qed

lemma process_message_step:
  assumes "tm_kafka_process_message E pb msg w = Some (r, w')"
  shows "docs_step w w'"
proof -
  have o: "post (otel_process_jaeger_span E pb pl (add_seen w)) (\<lambda>r. docs_step w (snd r))" for pl
    using postD [OF _ jaeger_span_step] counted_step(3) [of w w] by (fastforce simp: post_def intro: docs_step_trans)
  have "docs_step w (add_processed n (add_seen w))" for n by (intro counted_step) simp
  then have d: "post (process_document E doc (add_processed n (add_seen w))) (\<lambda>r. docs_step w (snd r))" for doc n
    by (fastforce simp: post_def dest: process_document_step intro: docs_step_trans)
  have s: "post (Some (x, w')) (\<lambda>r. docs_step w (snd r)) \<longleftrightarrow> docs_step w w'" for x w'
    by (simp add: post_def)
  have "post (tm_kafka_process_message E pb msg w) (\<lambda>r. docs_step w (snd r))"
    unfolding tm_kafka_process_message_def Let_def
    by (intro post_intros) (rule o | rule d | (simp add: s counted_step))+
  with assms(1) show ?thesis by (auto simp: post_def)
qed

lemma consume_step:
  assumes "foldM (\<lambda>(offset, w) m. do {
      (b, w) \<leftarrow> tm_kafka_process_message E pb (Some m) w;
      Some (if offset < k_offset m then k_offset m else offset, w) }) (n, w) ms = Some (n', w')"
  shows "docs_step w w' \<and> n' = Max (insert n (k_offset ` set ms))"
  using assms(1)
proof (induction ms arbitrary: n w)
  case (Cons m ms)
  then obtain b w1 where 1: "tm_kafka_process_message E pb (Some m) w = Some (b, w1)"
    and 2: "foldM (\<lambda>(offset, w) m. do {
      (b, w) \<leftarrow> tm_kafka_process_message E pb (Some m) w;
      Some (if offset < k_offset m then k_offset m else offset, w) })
      (if n < k_offset m then k_offset m else n, w1) ms = Some (n', w')"
    by (auto simp: bind_eq_Some_conv split: option.splits prod.splits)
  have "(if n < k_offset m then k_offset m else n) = max n (k_offset m)" by (auto simp: max_def)
  moreover have "Max (insert (max n (k_offset m)) (k_offset ` set ms)) = Max (insert n (k_offset ` set (m # ms)))"
    by (cases "k_offset ` set ms = {}") (simp_all add: max.assoc)
  ultimately show ?case
    using Cons.IH [OF 2] process_message_step [OF 1] by (auto intro: docs_step_trans)
qed simp

section \<open>Properties\<close>

text \<open>C7: Whatever the messages of a batch hold, consuming them keeps every metric's value of the member
  of the union that its name promises, makes no metric disappear, and returns the largest offset of
  the batch.\<close>

theorem consumed_batch_keeps_metrics:
  assumes "tm_kafka_consume_messages E pb (Some ms) w = Some (offset, w')" "typed_world w"
  shows "typed_world w' \<and> (\<forall>t. dom (team_metrics w t) \<subseteq> dom (team_metrics w' t)) \<and>
    offset = Max (insert 0 (k_offset ` set ms))"
proof -
  from assms(1) have "foldM (\<lambda>(offset, w) m. do {
      (b, w) \<leftarrow> tm_kafka_process_message E pb (Some m) w;
      Some (if offset < k_offset m then k_offset m else offset, w) }) (0, w) ms = Some (offset, w')"
    by (simp add: tm_kafka_consume_messages_def)
  from consume_step [OF this] show ?thesis
    using assms(2) docs_step_typed docs_step_keeps by blast
qed

definition demo_batch :: "kmsg list" where
  "demo_batch = [\<lparr>k_err = False, k_payload = Some ''x'', k_offset = 7\<rparr>, \<lparr>k_err = False, k_payload = None, k_offset = 9\<rparr>]"

theorem consumed_batch_keeps_metrics_witness:
  "\<exists>offset w'. tm_kafka_consume_messages demo_env (\<lambda>p. None) (Some demo_batch) demo_world = Some (offset, w') \<and>
     typed_world w' \<and> offset = 9"
proof -
  have "jo_parse demo_env = (\<lambda>s. Some (JStr s))" "topic_name (stats demo_world) = ''apm''"
    "jo_get demo_env (Some (JStr s)) k = None" for s k
    by (simp_all add: demo_env_def demo_world_def)
  then have "\<exists>r. tm_kafka_consume_messages demo_env (\<lambda>p. None) (Some demo_batch) demo_world = Some r"
    by (simp add: tm_kafka_consume_messages_def demo_batch_def tm_kafka_process_message_def process_document_def
        add_seen_def add_processed_def add_errored_def)
  then obtain n w' where r: "tm_kafka_consume_messages demo_env (\<lambda>p. None) (Some demo_batch) demo_world = Some (n, w')"
    by auto
  have "typed_world demo_world" by (simp add: typed_world_def team_metrics_def typed_def new_team_def)
  moreover have "Max (insert 0 (k_offset ` set demo_batch)) = 9" by (simp add: demo_batch_def max_def)
  ultimately show ?thesis using consumed_batch_keeps_metrics [OF r] r by auto
qed

text \<open>A document that the hook aborts is counted as seen, processed and filtered, and touches
  nothing else unless the hook made another document of it.\<close>

lemma aborted_document_is_filtered:
  assumes "document_hook E doc = (MTEV_HOOK_ABORT, None, ttl)" "jo_parse E json = Some doc"
    and "jo_get E (Some doc) ''processor'' \<noteq> None" "topic_name (stats w) \<noteq> ''otlp_spans''"
  shows "tm_kafka_process_message E pb (Some \<lparr>k_err = False, k_payload = Some json, k_offset = n\<rparr>) w =
    Some (True, w\<lparr>stats := (stats w)\<lparr>messages_seen := messages_seen (stats w) + 1,
      messages_processed := messages_processed (stats w) + 1,
      messages_filtered := messages_filtered (stats w) + 1, kafka_offset := n\<rparr>\<rparr>)"
  using assms
  by (auto simp: tm_kafka_process_message_def process_document_def process_result_def add_seen_def
      add_processed_def add_filtered_def)

definition abort_env :: "(jdoc, int, u64 list) env" where
  "abort_env = demo_env\<lparr>document_hook := (\<lambda>j. (MTEV_HOOK_ABORT, None, 600)),
     jo_parse := (\<lambda>s. Some (JObj [(''processor'', JStr s)]))\<rparr>"

lemma aborted_document_is_filtered_witness:
  "\<exists>w'. tm_kafka_process_message abort_env (\<lambda>p. None)
          (Some \<lparr>k_err = False, k_payload = Some ''x'', k_offset = 3\<rparr>) demo_world = Some (True, w') \<and>
     messages_filtered (stats w') = 1 \<and> teams w' = teams demo_world"
  using aborted_document_is_filtered
    [of abort_env "JObj [(''processor'', JStr ''x'')]" 600 "''x''" demo_world "\<lambda>p. None" 3]
  by (simp add: abort_env_def demo_env_def demo_world_def)

lemma sint_small: "uint (x :: u64) < 2 ^ 63 \<Longrightarrow> sint x = uint x"
  by (simp add: sint_uint) (rule signed_take_bit_int_eq_self, auto intro: order_trans [OF _ uint_ge_0])

text \<open>C38: For a watermark in the range of offsets the lag is the difference of watermark and offset when
  messages are outstanding; once the offset has caught up the last lag stays.\<close>

theorem kafka_lag_exact:
  assumes "0 \<le> watermark" "watermark < 2 ^ 63"
  shows "kafka_lag (stats (update_lag watermark w)) =
    (if 0 < uint (kafka_offset (stats w)) \<and> uint (kafka_offset (stats w)) < watermark
     then watermark - uint (kafka_offset (stats w)) else kafka_lag (stats w))"
proof -
  let ?o = "kafka_offset (stats w)" and ?hw = "word_of_int watermark :: u64"
  have hw: "uint ?hw = watermark" using assms by (simp add: uint_word_of_int)
  have less: "?o < ?hw \<longleftrightarrow> uint ?o < watermark" by (simp add: word_less_def hw)
  have diff: "sint (?hw - ?o) = watermark - uint ?o" if "uint ?o < watermark"
  proof -
    have "?o \<le> ?hw" using that less by (simp add: less_imp_le)
    then have u: "uint (?hw - ?o) = watermark - uint ?o" by (metis hw uint_minus_simple_alt word_le_def)
    moreover have "uint (?hw - ?o) < 2 ^ 63" using u assms uint_ge_0 [of ?o] by linarith
    ultimately show ?thesis by (simp add: sint_small)
  qed
  have "0 < ?o \<longleftrightarrow> 0 < uint ?o" by (simp add: word_less_def)
  then show ?thesis using less diff by (auto simp: update_lag_def Let_def)
qed

theorem kafka_lag_exact_witness:
  "kafka_lag (stats (update_lag 120 (add_processed 20 demo_world))) = 100"
  using kafka_lag_exact [of 120 "add_processed 20 demo_world"]
  by (simp add: add_processed_def demo_world_def)

end
