(* ===== verification/TM_Jaeger.thy ===== *)
theory TM_Jaeger
  imports TM_Doc "HOL-Library.Signed_Division"
begin

text \<open>
  tm_jaeger.cpp: an APM transaction or span becomes one protobuf span, posted in a request of its
  own to the collector of a team. A \<open>jspan\<close> holds the fields the code sets; the wire format of
  protobuf and the transport of gRPC are outside. Making a \<open>std::string\<close> of a NULL pointer is
  undefined: \<open>None\<close>. An early \<open>return\<close> of the C function, which posts nothing, is \<open>Some None\<close>.
\<close>

section \<open>Identifiers\<close>

text \<open>\<open>strtoull (s, NULL, 16)\<close> on the text behind \<open>0x\<close>.\<close>

definition hex_nibble :: "char \<Rightarrow> nat option" where
  "hex_nibble c =
     (let n = of_char c in
      if 48 \<le> n \<and> n \<le> 57 then Some (n - 48) else if 97 \<le> n \<and> n \<le> 102 then Some (n - 87)
      else if 65 \<le> n \<and> n \<le> 70 then Some (n - 55) else None)"

fun hex_num :: "nat \<Rightarrow> string \<Rightarrow> nat" where
  "hex_num a [] = a"
| "hex_num a (c # cs) = (case hex_nibble c of None \<Rightarrow> a | Some d \<Rightarrow> hex_num (16 * a + d) cs)"

definition strtoull16 :: "string \<Rightarrow> u64" where
  "strtoull16 s = (let v = hex_num 0 s in if 2 ^ 64 \<le> v then - 1 else of_nat v)"

text \<open>A number's bytes in memory; \<open>htonll\<close> turns them round.\<close>

definition mem64 :: "u64 \<Rightarrow> string" where
  "mem64 v = le_bytes 8 (unat v)"

definition htonll :: "u64 \<Rightarrow> u64" where
  "htonll v = of_nat (le_val (rev (mem64 v)))"

definition hex2uint64BE :: "string \<Rightarrow> nat \<Rightarrow> u64" where
  "hex2uint64BE hex len = (let buffer = snprintf_n 128 (''0x'' @ take len hex) in htonll (strtoull16 (drop 2 buffer)))"

record trace_id =
  low :: u64
  high :: u64

definition fill_trace_id :: "string option \<Rightarrow> trace_id" where
  "fill_trace_id hex =
     (case hex of
        None \<Rightarrow> \<lparr>low = 0, high = 0\<rparr>
      | Some h \<Rightarrow>
          if length h = 32 then \<lparr>low = hex2uint64BE h 16, high = hex2uint64BE (drop 16 h) 16\<rparr>
          else if length h = 16 then \<lparr>low = hex2uint64BE h 16, high = 0\<rparr>
          else \<lparr>low = 0, high = 0\<rparr>)"

definition trace_bytes :: "trace_id \<Rightarrow> string" where
  "trace_bytes tid = mem64 (low tid) @ mem64 (high tid)"

section \<open>Spans\<close>

datatype kvalue = V_STR string | V_BOOL bool | V_INT64 int

type_synonym key_value = "string \<times> kvalue"

text \<open>Times and durations are microseconds, split into seconds and nanoseconds.\<close>

definition split_us :: "int \<Rightarrow> int \<times> int" where
  "split_us us = (us sdiv 1000000, us smod 1000000 * 1000)"

record jlog =
  log_time :: "int \<times> int"
  log_fields :: "key_value list"

record jspan =
  operation_name :: string
  sp_trace :: string
  sp_id :: string
  sp_flags :: nat
  start_time :: "int \<times> int"
  sp_duration :: "int \<times> int"
  sp_tags :: "key_value list"
  sp_logs :: "jlog list"
  sp_parent :: "(string \<times> string) option"
  process_name :: string
  process_tags :: "key_value list"

definition add_tags :: "key_value list \<Rightarrow> jspan \<Rightarrow> jspan" where
  "add_tags kvs s = s\<lparr>sp_tags := sp_tags s @ kvs\<rparr>"

definition add_process_tags :: "key_value list \<Rightarrow> jspan \<Rightarrow> jspan" where
  "add_process_tags kvs s = s\<lparr>process_tags := process_tags s @ kvs\<rparr>"

definition add_log :: "int \<Rightarrow> key_value list \<Rightarrow> jspan \<Rightarrow> jspan" where
  "add_log ts kvs s = s\<lparr>sp_logs := sp_logs s @ [\<lparr>log_time = split_us ts, log_fields = kvs\<rparr>]\<rparr>"

definition kind_tag :: "string \<Rightarrow> key_value" where
  "kind_tag k = (''span.kind'', V_STR k)"

text \<open>
  A text field read from a JSON value: \<open>str_field\<close> takes the value as it is, \<open>opt_field\<close> only
  when it is present. \<open>need\<close> is the macro \<open>RETURN_IF_MISSING\<close>.
\<close>

definition str_field :: "('j, 'd, 'h) env \<Rightarrow> string \<Rightarrow> 'j option \<Rightarrow> key_value list ub" where
  "str_field E k v = do { s \<leftarrow> jo_string E v; Some [(k, V_STR s)] }"

definition opt_field :: "('j, 'd, 'h) env \<Rightarrow> string \<Rightarrow> 'j option \<Rightarrow> key_value list ub" where
  "opt_field E k v = (if v = None then Some [] else str_field E k v)"

definition need :: "'b \<Rightarrow> 'a option \<Rightarrow> ('a \<Rightarrow> 'b) \<Rightarrow> 'b" where
  "need r v f = (case v of None \<Rightarrow> r | Some x \<Rightarrow> f x)"

section \<open>Errors\<close>

text \<open>At most twenty frames of a stack trace are written.\<close>

definition stack_frame :: "('j, 'd, 'h) env \<Rightarrow> 'j option \<Rightarrow> string ub" where
  "stack_frame E s = do {
     path \<leftarrow> jo_string E (case jo_get E s ''abs_path'' of None \<Rightarrow> jo_get E s ''module'' | Some p \<Rightarrow> Some p);
     func \<leftarrow> (case jo_get E s ''function'' of None \<Rightarrow> Some [] | Some f \<Rightarrow> jo_string E (Some f));
     location \<leftarrow>
       (case jo_get E s ''filename'' of
          None \<Rightarrow> Some []
        | Some f \<Rightarrow> do {
            name \<leftarrow> jo_string E (Some f);
            let line = (case jo_get E s ''line'' of
                None \<Rightarrow> []
              | Some l \<Rightarrow> '':'' @ int_dec (jo_int E (jo_get E (Some l) ''number'')));
            Some (''('' @ name @ line @ '')'') });
     Some (path @ ''.'' @ func @ location @ [CHR 0x0A]) }"

definition build_stack_trace :: "('j, 'd, 'h) env \<Rightarrow> 'j option \<Rightarrow> string ub" where
  "build_stack_trace E stack_trace =
     (if stack_trace = None \<or> \<not> jo_is_array E stack_trace then Some []
      else do {
        let frame_count = jo_length E stack_trace;
        trace \<leftarrow> foldM (\<lambda>t i. do { f \<leftarrow> stack_frame E (jo_idx E stack_trace i); Some (t @ f) }) []
          [0..<min frame_count 20];
        Some (trace @ (if 20 < frame_count then ''...'' @ [CHR 0x0A] else [])) })"

definition stack_field :: "('j, 'd, 'h) env \<Rightarrow> 'j option \<Rightarrow> key_value list ub" where
  "stack_field E v =
     (if v = None then Some [] else do { st \<leftarrow> build_stack_trace E v; Some [(''stacktrace'', V_STR st)] })"

definition first_exception :: "('j, 'd, 'h) env \<Rightarrow> int \<Rightarrow> 'j option \<Rightarrow> 'j option" where
  "first_exception E mv exception =
     (if mv = 6 then exception
      else if 6 < mv \<and> 0 < jo_length E exception then jo_idx E exception 0 else None)"

definition exception_fields :: "('j, 'd, 'h) env \<Rightarrow> 'j \<Rightarrow> 'j option \<Rightarrow> key_value list ub" where
  "exception_fields E error_json ex =
     (if ex = None then Some []
      else do {
        culprit \<leftarrow> opt_field E ''culprit'' (jo_get E (Some error_json) ''culprit'');
        msg \<leftarrow> opt_field E ''message'' (jo_get E ex ''message'');
        module \<leftarrow> opt_field E ''module'' (jo_get E ex ''module'');
        type \<leftarrow> opt_field E ''type'' (jo_get E ex ''type'');
        stack \<leftarrow> stack_field E (jo_get E ex ''stacktrace'');
        Some (culprit @ msg @ module @ type @ stack) })"

definition error_context :: "('j, 'd, 'h) env \<Rightarrow> int \<Rightarrow> 'j \<Rightarrow> 'j option \<times> 'j option \<times> 'j option" where
  "error_context E mv message =
     (if mv = 6 then
        (let context = jo_get E (Some message) ''context''
         in (jo_get E context ''request'', jo_get E context ''response'', jo_get E context ''system''))
      else if 6 < mv then
        (case jo_get E (Some message) ''http'' of
           None \<Rightarrow> (None, None, jo_get E (Some message) ''host'')
         | Some http \<Rightarrow> (jo_get E (Some http) ''request'', jo_get E (Some http) ''response'', jo_get E (Some message) ''host''))
      else (None, None, None))"

text \<open>The span is unchanged when the error lacks a part.\<close>

definition jaegerize_error :: "('j, 'd, 'h) env \<Rightarrow> 'j \<Rightarrow> jspan \<Rightarrow> jspan ub" where
  "jaegerize_error E message span =
     need (Some span) (jo_get E (Some message) ''error'') (\<lambda>error_json.
     need (Some span) (jo_get E (Some message) ''timestamp'') (\<lambda>timestamp.
     need (Some span) (jo_get E (Some timestamp) ''us'') (\<lambda>timestamp_us. do {
       mv \<leftarrow> tm_apm_server_major_version E (Some message);
       need (Some span) (jo_get E (Some message) ''trace'') (\<lambda>trace. do {
         let ex = first_exception E mv (jo_get E (Some error_json) ''exception'');
         fields \<leftarrow> exception_fields E error_json ex;
         let (request, response, system) = error_context E mv message;
         req \<leftarrow> opt_field E ''request'' request;
         resp \<leftarrow> opt_field E ''response'' response;
         sys \<leftarrow> opt_field E ''system'' system;
         Some (add_log (jo_int64 E (Some timestamp_us)) (fields @ req @ resp @ sys)
           (add_tags [(''error'', V_BOOL True)] span)) }) })))"

text \<open>\<open>span_errors\<close> maps the id of a transaction or span to the error document whose parent it is.\<close>

definition attach_error :: "('j, 'd, 'h) env \<Rightarrow> (string \<rightharpoonup> 'j) \<Rightarrow> string \<Rightarrow> jspan \<Rightarrow> jspan ub" where
  "attach_error E span_errors sid span =
     (case span_errors sid of None \<Rightarrow> Some span | Some error \<Rightarrow> jaegerize_error E error span)"

section \<open>Transactions\<close>

text \<open>What every span starts from, and how it ends.\<close>

definition new_span :: "string \<Rightarrow> jspan" where
  "new_span name =
     \<lparr>operation_name = name, sp_trace = [], sp_id = [], sp_flags = 0, start_time = (0, 0),
      sp_duration = (0, 0), sp_tags = [], sp_logs = [], sp_parent = None, process_name = [],
      process_tags = []\<rparr>"

definition span_parent :: "('j, 'd, 'h) env \<Rightarrow> 'j \<Rightarrow> trace_id \<Rightarrow> (string \<times> string) option ub" where
  "span_parent E message tid =
     (case jo_get E (Some message) ''parent'' of
        None \<Rightarrow> Some None
      | Some parent_json \<Rightarrow> do {
          parent_hex \<leftarrow> jo_string E (jo_get E (Some parent_json) ''id'');
          Some (Some (trace_bytes tid, mem64 (hex2uint64BE parent_hex (length parent_hex)))) })"

definition finish_span ::
  "('j, 'd, 'h) env \<Rightarrow> 'j \<Rightarrow> 'j \<Rightarrow> string \<Rightarrow> trace_id \<Rightarrow> int \<Rightarrow> jspan \<Rightarrow> jspan ub" where
  "finish_span E message body sid tid ts span = do {
     let duration_us = jo_int64 E (jo_get E (jo_get E (Some body) ''duration'') ''us'');
     parent \<leftarrow> span_parent E message tid;
     Some (span\<lparr>sp_trace := trace_bytes tid, sp_id := mem64 (hex2uint64BE sid (length sid)), sp_flags := 1,
       start_time := split_us ts, sp_duration := split_us duration_us, sp_parent := parent\<rparr>) }"

definition label_tags :: "('j, 'd, 'h) env \<Rightarrow> 'j option \<Rightarrow> key_value list ub" where
  "label_tags E tags =
     (case tags of
        None \<Rightarrow> Some []
      | Some t \<Rightarrow> foldM (\<lambda>kvs (name, v). do { kv \<leftarrow> opt_field E name v; Some (kvs @ kv) }) [] (jo_items E t))"

text \<open>The part of a transaction of type \<open>request\<close>; a request or a response that is missing posts nothing.\<close>

definition request_tags_part ::
  "('j, 'd, 'h) env \<Rightarrow> 'j \<Rightarrow> int \<Rightarrow> 'j option \<Rightarrow> 'j option \<Rightarrow> int \<Rightarrow> jspan \<Rightarrow> jspan option ub" where
  "request_tags_part E message mv context service ts span =
     need (Some None) (if mv = 6 then Some context else map_option Some (jo_get E (Some message) ''http'')) (\<lambda>http.
     need (Some None) (jo_get E http ''request'') (\<lambda>req.
     need (Some None) (jo_get E http ''response'') (\<lambda>resp. do {
       let url = (if mv = 6 then jo_get E (Some req) ''url'' else if 6 < mv then jo_get E (Some message) ''url'' else None);
       let path = (if mv = 6 then jo_get E url ''pathname'' else if 6 < mv then jo_get E url ''path'' else None);
       let status_code = jo_get E (Some resp) ''status_code'';
       method \<leftarrow> opt_field E ''http.method'' (jo_get E (Some req) ''method'');
       urlt \<leftarrow> opt_field E ''http.url'' path;
       let sc = (if status_code = None then [] else [(''http.status_code'', V_INT64 (jo_int E status_code))]);
       req_headers \<leftarrow> opt_field E ''request.headers'' (jo_get E (Some req) ''headers'');
       resp_headers \<leftarrow> opt_field E ''response.headers'' (jo_get E (Some resp) ''headers'');
       socket \<leftarrow> opt_field E ''request.socket'' (jo_get E (Some req) ''socket'');
       request_url \<leftarrow> opt_field E ''request.url'' url;
       environment \<leftarrow> opt_field E ''environment'' (jo_get E service ''environment'');
       user \<leftarrow> opt_field E ''user'' (jo_get E context ''user'');
       Some (Some (add_process_tags (environment @ user)
         (add_log ts (req_headers @ resp_headers @ socket @ request_url) (add_tags (method @ urlt @ sc) span)))) })))"

definition transaction_part ::
  "('j, 'd, 'h) env \<Rightarrow> 'j \<Rightarrow> int \<Rightarrow> 'j option \<Rightarrow> 'j option \<Rightarrow> string \<Rightarrow> int \<Rightarrow> jspan \<Rightarrow> jspan option ub" where
  "transaction_part E message mv context service type ts span =
     (if type = ''request'' then request_tags_part E message mv context service ts span
      else if type = ''page-load'' then Some (Some (add_tags [kind_tag ''client''] span))
      else Some (Some span))"

definition named_version :: "('j, 'd, 'h) env \<Rightarrow> string \<Rightarrow> string \<Rightarrow> 'j option \<Rightarrow> key_value list ub" where
  "named_version E name_key version_key v =
     (if v = None then Some []
      else do {
        n \<leftarrow> str_field E name_key (jo_get E v ''name'');
        ver \<leftarrow> str_field E version_key (jo_get E v ''version'');
        Some (n @ ver) })"

definition process_part ::
  "('j, 'd, 'h) env \<Rightarrow> int \<Rightarrow> 'j option \<Rightarrow> 'j option \<Rightarrow> key_value list ub" where
  "process_part E mv context service = do {
     agent \<leftarrow> named_version E ''elastic_apm_agent.name'' ''elastic_apm_agent.version''
       (jo_get E (if mv = 6 then service else context) ''agent'');
     runtime \<leftarrow> named_version E ''runtime.name'' ''runtime.version'' (jo_get E service ''runtime'');
     let process = jo_get E context ''process'';
     let pid = (if process = None then [] else [(''process.pid'', V_INT64 (jo_int64 E (jo_get E process ''pid'')))]);
     system \<leftarrow> opt_field E ''system'' (jo_get E context (if mv = 6 then ''system'' else ''host''));
     Some (agent @ runtime @ pid @ system) }"

text \<open>The span of a transaction, \<open>Some None\<close> when a part it needs is missing.\<close>

definition transaction_jspan :: "('j, 'd, 'h) env \<Rightarrow> 'j \<Rightarrow> (string \<rightharpoonup> 'j) \<Rightarrow> jspan option ub" where
  "transaction_jspan E message span_errors =
     need (Some None) (jo_get E (Some message) ''transaction'') (\<lambda>trans.
     need (Some None) (jo_get E (Some message) ''timestamp'') (\<lambda>timestamp.
     need (Some None) (jo_get E (Some timestamp) ''us'') (\<lambda>timestamp_us.
     need (Some None) (jo_get E (Some trans) ''name'') (\<lambda>trans_name. do {
       let ts = jo_int64 E (Some timestamp_us);
       name \<leftarrow> jo_string E (Some trans_name);
       need (Some None) (jo_get E (Some trans) ''type'') (\<lambda>trans_type.
       need (Some None) (jo_get E (Some message) ''trace'') (\<lambda>trace. do {
         sn \<leftarrow> tm_service_name E (Some message);
         mv \<leftarrow> tm_apm_server_major_version E (Some message);
         let context = (if mv = 6 then jo_get E (Some message) ''context'' else if 6 < mv then Some message else None);
         let service = jo_get E context ''service'';
         trace_id \<leftarrow> jo_string E (jo_get E (Some trace) ''id'');
         service_name \<leftarrow> sn;
         let tid = fill_trace_id (Some trace_id);
         labels \<leftarrow> label_tags E (jo_get E context (if mv = 6 then ''tags'' else ''labels''));
         let span = add_tags ((''trace.id'', V_STR trace_id) # labels @ [kind_tag ''server''])
           ((new_span name)\<lparr>process_name := service_name\<rparr>);
         type \<leftarrow> jo_string E (Some trans_type);
         sent \<leftarrow> transaction_part E message mv context service type ts span;
         need (Some None) sent (\<lambda>span. do {
           ptags \<leftarrow> process_part E mv context service;
           id \<leftarrow> jo_string E (jo_get E (Some trans) ''id'');
           span \<leftarrow> attach_error E span_errors id (add_process_tags ptags span);
           span \<leftarrow> finish_span E message trans id tid ts span;
           Some (Some span) }) })) }))))"

section \<open>Spans of type \<open>span\<close>\<close>

text \<open>What the type of a span adds to it.\<close>

definition db_part :: "('j, 'd, 'h) env \<Rightarrow> int \<Rightarrow> 'j option \<Rightarrow> 'j \<Rightarrow> int \<Rightarrow> jspan \<Rightarrow> jspan ub" where
  "db_part E mv context span_json ts span = do {
     db \<leftarrow> opt_field E ''context.db''
       (if mv = 6 then jo_get E context ''db'' else if 6 < mv then jo_get E (Some span_json) ''db'' else None);
     subtype \<leftarrow> opt_field E ''subtype'' (jo_get E (Some span_json) ''subtype'');
     action \<leftarrow> opt_field E ''action'' (jo_get E (Some span_json) ''action'');
     stack \<leftarrow> stack_field E (jo_get E (Some span_json) ''stacktrace'');
     Some (add_log ts (db @ subtype @ action @ stack) (add_tags [kind_tag ''server''] span)) }"

definition external_part ::
  "('j, 'd, 'h) env \<Rightarrow> 'j \<Rightarrow> int \<Rightarrow> 'j option \<Rightarrow> 'j \<Rightarrow> int \<Rightarrow> jspan \<Rightarrow> jspan ub" where
  "external_part E message mv context span_json ts span = do {
     http \<leftarrow> opt_field E ''context.http''
       (if mv = 6 then jo_get E context ''http'' else if 6 < mv then jo_get E (Some span_json) ''http'' else None);
     destination \<leftarrow> opt_field E ''context.destination'' (jo_get E (Some span_json) ''destination'');
     url \<leftarrow> (case jo_get E (Some message) ''url'' of
              None \<Rightarrow> Some []
            | Some url \<Rightarrow> opt_field E ''http.url'' (jo_get E (Some url) ''original''));
     stack \<leftarrow> stack_field E (jo_get E (Some span_json) ''stacktrace'');
     Some (add_log ts (http @ destination @ stack) (add_tags (kind_tag ''server'' # url) span)) }"

definition span_type_part ::
  "('j, 'd, 'h) env \<Rightarrow> 'j \<Rightarrow> int \<Rightarrow> 'j option \<Rightarrow> 'j \<Rightarrow> string \<Rightarrow> int \<Rightarrow> jspan \<Rightarrow> jspan ub" where
  "span_type_part E message mv context span_json type ts span =
     (if strncmp_eq type ''message_read'' 12 \<or> strncmp_eq type ''messaging'' 9 then do {
        subtype \<leftarrow> opt_field E ''subtype'' (jo_get E (Some span_json) ''subtype'');
        Some (add_tags ([kind_tag ''server'', (''type'', V_STR type)] @ subtype) span) }
      else if strncmp_eq type ''db'' 2 then db_part E mv context span_json ts span
      else if type = ''external.http'' \<or> type = ''ext.http.http'' \<or> type = ''external'' then
        external_part E message mv context span_json ts span
      else if type = ''resource'' \<or> type = ''hard-navigation'' then
        Some (add_tags [kind_tag ''client'', (''type'', V_STR type)] span)
      else if type = ''cache'' then do {
        subtype \<leftarrow> opt_field E ''cache.type'' (jo_get E (Some span_json) ''subtype'');
        stack \<leftarrow> stack_field E (jo_get E (Some span_json) ''stacktrace'');
        Some (add_log ts stack (add_tags ([kind_tag ''server'', (''span.type'', V_STR ''cache'')] @ subtype) span)) }
      else if type = ''app'' \<or> type = ''custom'' then
        Some (add_tags [kind_tag ''server'', (''type'', V_STR type)] span)
      else Some span)"

definition span_jspan :: "('j, 'd, 'h) env \<Rightarrow> 'j \<Rightarrow> (string \<rightharpoonup> 'j) \<Rightarrow> jspan option ub" where
  "span_jspan E message span_errors =
     need (Some None) (jo_get E (Some message) ''span'') (\<lambda>span_json.
     need (Some None) (jo_get E (Some message) ''timestamp'') (\<lambda>timestamp.
     need (Some None) (jo_get E (Some timestamp) ''us'') (\<lambda>timestamp_us. do {
       let ts = jo_int64 E (Some timestamp_us);
       sn \<leftarrow> tm_service_name E (Some message);
       mv \<leftarrow> tm_apm_server_major_version E (Some message);
       need (Some None) (jo_get E (Some span_json) ''name'') (\<lambda>span_name. do {
         name \<leftarrow> jo_string E (Some span_name);
         let context = (if mv = 6 then jo_get E (Some message) ''context'' else Some message);
         need (Some None) context (\<lambda>_.
         need (Some None) (jo_get E context ''service'') (\<lambda>service.
         need (Some None) (jo_get E (Some message) ''trace'') (\<lambda>trace. do {
           service_name \<leftarrow> sn;
           type \<leftarrow> jo_string E (jo_get E (Some span_json) ''type'');
           span \<leftarrow> span_type_part E message mv context span_json type ts
             ((new_span name)\<lparr>process_name := service_name\<rparr>);
           id \<leftarrow> jo_string E (jo_get E (Some span_json) (if mv = 6 then ''hex_id'' else ''id''));
           span \<leftarrow> attach_error E span_errors id span;
           let tid = fill_trace_id (jo_string E (jo_get E (Some trace) ''id''));
           span \<leftarrow> finish_span E message span_json id tid ts span;
           Some (Some span) }))) }) })))"

section \<open>Posting\<close>

text \<open>
  One connection per url, kept for ever. \<open>posted\<close> are the requests handed to gRPC, in order, each
  with one span; whether one was accepted is only logged.
\<close>

record jaeger =
  connections :: "string list"
  posted :: "(string \<times> jspan) list"

definition get_jaeger_client :: "string option \<Rightarrow> jaeger \<Rightarrow> string option \<times> jaeger" where
  "get_jaeger_client url g =
     (case url of
        None \<Rightarrow> (None, g)
      | Some u \<Rightarrow>
          if u = [] then (None, g)
          else if u \<in> set (connections g) then (Some u, g)
          else (Some u, g\<lparr>connections := u # connections g\<rparr>))"

definition jaegerize :: "string option \<Rightarrow> jspan option ub \<Rightarrow> jaeger \<Rightarrow> jaeger ub" where
  "jaegerize url build g =
     (case get_jaeger_client url g of
        (None, g) \<Rightarrow> Some g
      | (Some u, g) \<Rightarrow> do {
          s \<leftarrow> build;
          Some (case s of None \<Rightarrow> g | Some span \<Rightarrow> g\<lparr>posted := posted g @ [(u, span)]\<rparr>) })"

definition jaegerize_transaction ::
  "('j, 'd, 'h) env \<Rightarrow> 'j \<Rightarrow> string option \<Rightarrow> (string \<rightharpoonup> 'j) \<Rightarrow> jaeger \<Rightarrow> jaeger ub" where
  "jaegerize_transaction E message url span_errors g =
     jaegerize url (transaction_jspan E message span_errors) g"

definition jaegerize_span ::
  "('j, 'd, 'h) env \<Rightarrow> 'j \<Rightarrow> string option \<Rightarrow> (string \<rightharpoonup> 'j) \<Rightarrow> jaeger \<Rightarrow> jaeger ub" where
  "jaegerize_span E message url span_errors g = jaegerize url (span_jspan E message span_errors) g"

section \<open>Facts\<close>

lemma post_need [post_intros]:
  "(v = None \<Longrightarrow> post r P) \<Longrightarrow> (\<And>x. v = Some x \<Longrightarrow> post (f x) P) \<Longrightarrow> post (need r v f) P"
  by (cases v) (simp_all add: need_def)

text \<open>Bytes and hexadecimal digits.\<close>

definition hex_text :: "string \<Rightarrow> string" where
  "hex_text b = concat (map (\<lambda>c. [json_hex_chars ! (of_char c div 16), json_hex_chars ! (of_char c mod 16)]) b)"

lemma hex_text_append: "hex_text (a @ b) = hex_text a @ hex_text b"
  by (simp add: hex_text_def)

definition be_bytes :: "nat \<Rightarrow> nat \<Rightarrow> string" where
  "be_bytes n v = rev (le_bytes n v)"

lemma be_bytes_Suc: "be_bytes (Suc n) v = be_bytes n (v div 256) @ [char_of v]"
  by (simp add: be_bytes_def)

lemma le_bytes_le_val: "le_bytes (length b) (le_val b) = b"
proof (induction b)
  case (Cons c b)
  have "(of_char c :: nat) < 256" by simp
  moreover have "char_of (of_char c + 256 * le_val b) = c"
    by (subst char_of_mod_256 [symmetric]) (simp del: char_of_mod_256)
  ultimately show ?case using Cons by simp
qed simp

lemma mem64_htonll: "mem64 (htonll v) = be_bytes 8 (unat v)"
proof -
  let ?b = "rev (mem64 v)"
  have l: "length ?b = 8" by (simp add: mem64_def)
  have "le_val b < 256 ^ length b" for b :: string
  proof (induction b)
    case (Cons c cs)
    have "(of_char c :: nat) < 256" by simp
    with Cons have "of_char c + 256 * le_val cs < 256 + 256 * (256 ^ length cs - 1)"
      by (intro add_less_le_mono mult_left_mono) auto
    then show ?case by (simp add: algebra_simps)
  qed simp
  from this [of ?b] have "le_val ?b < 2 ^ 64" unfolding l by simp
  then have "unat (of_nat (le_val ?b) :: u64) = le_val ?b" by (simp add: unat_of_nat)
  then show ?thesis using le_bytes_le_val [of ?b] l by (simp add: mem64_def htonll_def be_bytes_def)
qed

definition hex_digits :: "string \<Rightarrow> bool" where
  "hex_digits s = list_all (\<lambda>c. c \<in> set json_hex_chars) s"

lemma hex_nibble_chars: "c \<in> set json_hex_chars \<Longrightarrow> \<exists>n. hex_nibble c = Some n \<and> n < 16 \<and> json_hex_chars ! n = c"
proof -
  have "list_all (\<lambda>c. case hex_nibble c of None \<Rightarrow> False | Some n \<Rightarrow> n < 16 \<and> json_hex_chars ! n = c) json_hex_chars"
    by code_simp
  then show "c \<in> set json_hex_chars \<Longrightarrow> ?thesis" by (auto simp: list_all_iff split: option.splits)
qed

lemma hex_num_append: "hex_digits s \<Longrightarrow> hex_num a (s @ t) = hex_num (hex_num a s) t"
  by (induction s arbitrary: a) (auto simp: hex_digits_def dest!: hex_nibble_chars)

lemma hex_num_bound: "hex_digits s \<Longrightarrow> hex_num a s < (a + 1) * 16 ^ length s"
proof (induction s arbitrary: a)
  case (Cons c s)
  then obtain n where n: "hex_nibble c = Some n" "n < 16" and s: "hex_digits s"
    by (auto simp: hex_digits_def dest!: hex_nibble_chars)
  have "(16 * a + n + 1) * 16 ^ length s \<le> (16 * (a + 1)) * 16 ^ length s"
    using n(2) by (intro mult_right_mono) auto
  with Cons.IH [OF s, of "16 * a + n"] have "hex_num (16 * a + n) s < (16 * (a + 1)) * 16 ^ length s"
    by (rule less_le_trans)
  then show ?case using n(1) by (simp add: algebra_simps)
qed simp

lemma hex_text_hex_num:
  "length s = 2 * n \<Longrightarrow> hex_digits s \<Longrightarrow> hex_text (be_bytes n (hex_num 0 s)) = s"
proof (induction n arbitrary: s)
  case 0
  then show ?case by (simp add: be_bytes_def hex_text_def)
next
  case (Suc n)
  define s' where "s' = take (2 * n) s"
  obtain a b where s: "s = s' @ [a, b]"
  proof -
    have "length (drop (2 * n) s) = 2" using Suc.prems(1) by simp
    then obtain a b where "drop (2 * n) s = [a, b]" by (metis (no_types) length_0_conv length_Suc_conv numeral_2_eq_2)
    then show ?thesis using that [of a b] append_take_drop_id [of "2 * n" s] by (simp add: s'_def)
  qed
  have s': "length s' = 2 * n" "hex_digits s'" using Suc.prems s by (auto simp: hex_digits_def)
  obtain x y where x: "hex_nibble a = Some x" "x < 16" "json_hex_chars ! x = a"
    and y: "hex_nibble b = Some y" "y < 16" "json_hex_chars ! y = b"
    using Suc.prems(2) s by (auto simp: hex_digits_def dest!: hex_nibble_chars)
  let ?v = "hex_num 0 s'"
  have v: "hex_num 0 s = 256 * ?v + (16 * x + y)" using s s' x y by (simp add: hex_num_append)
  have q: "(256 * ?v + (16 * x + y)) div 256 = ?v" using x(2) y(2) by simp
  have r: "(of_char (char_of (256 * ?v + (16 * x + y)) :: char) :: nat) = 16 * x + y" using x(2) y(2) by simp
  show ?case
    unfolding v be_bytes_Suc q hex_text_append Suc.IH [OF s']
    using x y s by (simp only: hex_text_def r list.map concat.simps) simp
qed

lemma hex2uint64BE_bytes:
  assumes "length h = 16" "hex_digits h"
  shows "hex_text (mem64 (hex2uint64BE h 16)) = h"
proof -
  have "snprintf_n 128 (''0x'' @ take 16 h) = ''0x'' @ h" using assms(1) by (simp add: snprintf_n_def)
  moreover have "hex_num 0 h < 2 ^ 64" using hex_num_bound [OF assms(2), of 0] assms(1) by simp
  ultimately have "mem64 (hex2uint64BE h 16) = be_bytes 8 (hex_num 0 h)"
    by (simp add: hex2uint64BE_def mem64_htonll strtoull16_def unat_of_nat Let_def)
  then show ?thesis using hex_text_hex_num [of h 8] assms by simp
qed

text \<open>The tag that marks a span as failed comes from an error document only.\<close>

abbreviation error_tag :: key_value where "error_tag \<equiv> (''error'', V_BOOL True)"

definition only_text :: "key_value list \<Rightarrow> bool" where
  "only_text kvs = (\<forall>kv \<in> set kvs. \<forall>b. snd kv \<noteq> V_BOOL b)"

lemma only_text_append [simp]: "only_text (a @ b) \<longleftrightarrow> only_text a \<and> only_text b"
  by (auto simp: only_text_def)

lemma only_text_simps [simp]: "only_text []" "only_text ((k, V_STR t) # kvs) = only_text kvs"
    "only_text ((k, V_INT64 n) # kvs) = only_text kvs" "only_text (kind_tag k # kvs) = only_text kvs"
  by (auto simp: only_text_def kind_tag_def)

lemma only_text_no_error: "only_text kvs \<Longrightarrow> error_tag \<notin> set kvs"
  unfolding only_text_def by (metis snd_conv)

lemma opt_field_text: "opt_field E k v = Some kvs \<Longrightarrow> only_text kvs"
  by (auto simp: opt_field_def str_field_def bind_eq_Some_conv split: if_splits)

lemma label_tags_text: "label_tags E tags = Some kvs \<Longrightarrow> only_text kvs"
  unfolding label_tags_def
  by (auto split: option.splits simp: bind_eq_Some_conv elim!: foldM_invariant [where I = only_text])
     (erule opt_field_text)

lemma add_sel [simp]:
  "sp_tags (add_tags kvs s) = sp_tags s @ kvs" "sp_tags (add_process_tags kvs s) = sp_tags s"
  "sp_tags (add_log ts kvs s) = sp_tags s" "sp_tags (new_span n) = []"
  by (simp_all add: add_tags_def add_process_tags_def add_log_def new_span_def)

definition complete_error :: "('j, 'd, 'h) env \<Rightarrow> 'j \<Rightarrow> bool" where
  "complete_error E j =
     (jo_get E (Some j) ''error'' \<noteq> None \<and> jo_get E (Some j) ''trace'' \<noteq> None \<and>
      (\<exists>t. jo_get E (Some j) ''timestamp'' = Some t \<and> jo_get E (Some t) ''us'' \<noteq> None))"

lemma jaegerize_error_tag:
  "post (jaegerize_error E j s) (\<lambda>s'. error_tag \<in> set (sp_tags s') \<longleftrightarrow> error_tag \<in> set (sp_tags s) \<or> complete_error E j)"
  unfolding jaegerize_error_def Let_def
  by (intro post_intros post_Some) (simp_all add: complete_error_def)

lemma attach_error_tag:
  "post (attach_error E errs i s)
     (\<lambda>s'. error_tag \<in> set (sp_tags s') \<longleftrightarrow>
        error_tag \<in> set (sp_tags s) \<or> (\<exists>j. errs i = Some j \<and> complete_error E j))"
  unfolding attach_error_def
  by (intro post_intros post_Some) (auto simp: post_def dest: postD [OF _ jaegerize_error_tag])

lemma finish_span_post:
  "post (finish_span E m body i tid ts s) (\<lambda>s'. sp_tags s' = sp_tags s \<and> sp_trace s' = trace_bytes tid \<and>
     sp_id s' = mem64 (hex2uint64BE i (length i)) \<and> start_time s' = split_us ts)"
  unfolding finish_span_def Let_def by (intro post_intros post_Some) simp

lemma request_tags_part_tags:
  "post (request_tags_part E m mv context service ts s)
     (\<lambda>r. \<forall>s'. r = Some s' \<longrightarrow> (error_tag \<in> set (sp_tags s') \<longleftrightarrow> error_tag \<in> set (sp_tags s)))"
  unfolding request_tags_part_def Let_def
  by (intro post_intros post_Some) (auto dest!: opt_field_text dest: only_text_no_error)

lemma transaction_part_tags:
  "post (transaction_part E m mv context service type ts s)
     (\<lambda>r. \<forall>s'. r = Some s' \<longrightarrow> (error_tag \<in> set (sp_tags s') \<longleftrightarrow> error_tag \<in> set (sp_tags s)))"
  unfolding transaction_part_def
  by (intro post_intros post_Some request_tags_part_tags) (simp_all add: kind_tag_def)

lemma span_type_part_tags:
  "post (span_type_part E m mv context span_json type ts s)
     (\<lambda>s'. error_tag \<in> set (sp_tags s') \<longleftrightarrow> error_tag \<in> set (sp_tags s))"
  unfolding span_type_part_def db_part_def external_part_def Let_def
  by (intro post_intros post_Some)
     (auto simp: kind_tag_def dest!: opt_field_text dest: only_text_no_error split: option.splits)

text \<open>What a transaction and a span have in common.\<close>

definition describes ::
  "('j, 'd, 'h) env \<Rightarrow> 'j \<Rightarrow> (string \<rightharpoonup> 'j) \<Rightarrow> string \<Rightarrow> jspan \<Rightarrow> bool" where
  "describes E m errs i s =
     (sp_trace s = trace_bytes (fill_trace_id (jo_string E (jo_get E (jo_get E (Some m) ''trace'') ''id''))) \<and>
      sp_id s = mem64 (hex2uint64BE i (length i)) \<and>
      start_time s = split_us (jo_int64 E (jo_get E (jo_get E (Some m) ''timestamp'') ''us'')) \<and>
      (error_tag \<in> set (sp_tags s) \<longleftrightarrow> (\<exists>j. errs i = Some j \<and> complete_error E j)))"

lemma attach_finish:
  assumes "error_tag \<notin> set (sp_tags s)"
  shows "post (do { s \<leftarrow> attach_error E errs i s; s \<leftarrow> finish_span E m body i tid ts s; Some (Some s) })
     (\<lambda>r. \<forall>s'. r = Some s' \<longrightarrow> sp_trace s' = trace_bytes tid \<and> sp_id s' = mem64 (hex2uint64BE i (length i)) \<and>
        start_time s' = split_us ts \<and> (error_tag \<in> set (sp_tags s') \<longleftrightarrow> (\<exists>j. errs i = Some j \<and> complete_error E j)))"
  by (intro post_intros post_Some)
     (use assms in \<open>auto dest!: postD [OF _ attach_error_tag] postD [OF _ finish_span_post]\<close>)

lemma transaction_describes:
  "post (transaction_jspan E m errs) (\<lambda>r. \<forall>s. r = Some s \<longrightarrow>
     (\<exists>i. jo_string E (jo_get E (jo_get E (Some m) ''transaction'') ''id'') = Some i \<and> describes E m errs i s))"
  unfolding transaction_jspan_def Let_def
  by (intro post_intros post_Some)
     (auto simp: describes_def kind_tag_def
       dest!: postD [OF _ finish_span_post] postD [OF _ attach_error_tag] postD [OF _ transaction_part_tags]
       label_tags_text dest: only_text_no_error)

lemma span_describes:
  "post (span_jspan E m errs) (\<lambda>r. \<forall>s. r = Some s \<longrightarrow>
     (\<exists>mv i. tm_apm_server_major_version E (Some m) = Some mv \<and>
        jo_string E (jo_get E (jo_get E (Some m) ''span'') (if mv = 6 then ''hex_id'' else ''id'')) = Some i \<and>
        describes E m errs i s))"
  unfolding span_jspan_def Let_def
  by (intro post_intros post_Some)
     (auto simp: describes_def kind_tag_def
       dest!: postD [OF _ finish_span_post] postD [OF _ attach_error_tag] postD [OF _ span_type_part_tags])

section \<open>Properties\<close>

text \<open>C39: The bytes sent as a trace id are the hexadecimal digits of the document's id: printing them
  gives an id of 32 digits back, and an id of 16 digits followed by zeros.\<close>

theorem trace_id_roundtrip:
  assumes "hex_digits h" "length h = 16 \<or> length h = 32"
  shows "hex_text (trace_bytes (fill_trace_id (Some h))) = h @ replicate (32 - length h) (CHR ''0'')"
proof -
  have t: "hex2uint64BE h 16 = hex2uint64BE (take 16 h) 16" by (simp add: hex2uint64BE_def)
  have z: "hex_text (mem64 0) = replicate 16 (CHR ''0'')" by code_simp
  have d: "hex_digits (take 16 h)" "hex_digits (drop 16 h)"
    using assms(1) by (auto simp: hex_digits_def list_all_iff dest: in_set_takeD in_set_dropD)
  from assms(2) show ?thesis
  proof
    assume l: "length h = 32"
    with d hex2uint64BE_bytes [of "take 16 h"] hex2uint64BE_bytes [of "drop 16 h"] show ?thesis
      by (simp add: fill_trace_id_def trace_bytes_def hex_text_append t)
  next
    assume "length h = 16"
    with hex2uint64BE_bytes [of h] assms(1) z show ?thesis
      by (simp add: fill_trace_id_def trace_bytes_def hex_text_append)
  qed
qed

theorem trace_id_roundtrip_witness:
  "hex_text (trace_bytes (fill_trace_id (Some ''0af7651916cd43dd8448eb211c80319c''))) = ''0af7651916cd43dd8448eb211c80319c''"
proof -
  have "hex_digits ''0af7651916cd43dd8448eb211c80319c''" by code_simp
  then show ?thesis using trace_id_roundtrip [of "''0af7651916cd43dd8448eb211c80319c''"] by simp
qed


text \<open>Times and durations keep every microsecond, and the nanoseconds fit their field.\<close>

lemma split_us_exact:
  "fst (split_us us) * 1000000000 + snd (split_us us) = us * 1000 \<and> \<bar>snd (split_us us)\<bar> < 1000000000"
proof -
  have e: "us sdiv 1000000 * 1000000 + us smod 1000000 = us" by (rule sdiv_mult_smod_eq)
  have "\<bar>us smod 1000000\<bar> < 1000000"
    using smod_int_range [of 1000000 us] by auto
  with e show ?thesis by (simp add: split_us_def)
qed

text \<open>C15: Sending a transaction posts at most one span, to the team's collector. It carries the trace id,
  the id and the start time of the document, and is marked as failed exactly when an error document
  with all its parts has the transaction as its parent.\<close>

theorem jaegerize_transaction_posts:
  assumes "jaegerize_transaction E m url errs g = Some g'"
  shows "posted g' = posted g \<or>
    (\<exists>u s i. url = Some u \<and> u \<noteq> [] \<and> posted g' = posted g @ [(u, s)] \<and>
       jo_string E (jo_get E (jo_get E (Some m) ''transaction'') ''id'') = Some i \<and> describes E m errs i s)"
  using assms postD [OF _ transaction_describes]
  by (fastforce simp: jaegerize_transaction_def jaegerize_def get_jaeger_client_def bind_eq_Some_conv
      split: option.splits if_splits)

definition demo_transaction :: jdoc where
  "demo_transaction = JObj
     [(''@metadata'', JObj [(''version'', JStr ''7.17.0'')]),
      (''timestamp'', JObj [(''us'', JNum 1600000000123456)]),
      (''trace'', JObj [(''id'', JStr ''0af7651916cd43dd8448eb211c80319c'')]),
      (''service'', JObj [(''name'', JStr ''t-shop'')]),
      (''transaction'', JObj [(''name'', JStr ''GET /''), (''type'', JStr ''messaging''), (''id'', JStr ''b7ad6b7169203331''),
         (''duration'', JObj [(''us'', JNum 2500000)])])]"

definition demo_error :: jdoc where
  "demo_error = JObj
     [(''@metadata'', JObj [(''version'', JStr ''7.17.0'')]), (''error'', JObj []), (''trace'', JObj []),
      (''timestamp'', JObj [(''us'', JNum 1600000000223456)])]"

definition demo_jaeger :: jaeger where "demo_jaeger = \<lparr>connections = [], posted = []\<rparr>"

lemma demo_version [simp]:
  "tm_apm_server_major_version demo_env (Some demo_transaction) = Some 7"
  "tm_apm_server_major_version demo_env (Some demo_error) = Some 7"
  by (simp_all add: tm_apm_server_major_version_def demo_transaction_def demo_error_def demo_env_def
      atoi_char_def is_digit_def digit_val_def)

lemma demo_transaction_sent:
  "\<exists>g s. jaegerize_transaction demo_env demo_transaction (Some ''j:1'') [''b7ad6b7169203331'' \<mapsto> demo_error] demo_jaeger =
     Some g \<and> posted g = [(''j:1'', s)]"
  by (simp add: jaegerize_transaction_def jaegerize_def get_jaeger_client_def demo_jaeger_def
      transaction_jspan_def need_def tm_service_name_def service_field_def)
     (simp add: demo_transaction_def demo_env_sel need_def label_tags_def transaction_part_def process_part_def
      named_version_def opt_field_def attach_error_def jaegerize_error_def demo_error_def finish_span_def
      span_parent_def tm_apm_server_major_version_def first_exception_def exception_fields_def error_context_def
      atoi_char_def is_digit_def digit_val_def)

theorem jaegerize_transaction_posts_witness:
  "\<exists>g s. jaegerize_transaction demo_env demo_transaction (Some ''j:1'') [''b7ad6b7169203331'' \<mapsto> demo_error] demo_jaeger =
     Some g \<and> posted g = [(''j:1'', s)] \<and> error_tag \<in> set (sp_tags s) \<and>
     start_time s = split_us 1600000000123456"
proof -
  obtain g s where g: "jaegerize_transaction demo_env demo_transaction (Some ''j:1'') [''b7ad6b7169203331'' \<mapsto> demo_error]
      demo_jaeger = Some g" "posted g = [(''j:1'', s)]"
    using demo_transaction_sent by auto
  have "complete_error demo_env demo_error" by (simp add: complete_error_def demo_error_def demo_env_def)
  with jaegerize_transaction_posts [OF g(1)] g show ?thesis
    by (auto simp: describes_def demo_jaeger_def demo_transaction_def demo_env_def)
qed

end
