(* ===== verification/TM_Clean.thy ===== *)
theory TM_Clean
  imports TM_Store TM_Updates TM_Jaeger
begin

text \<open>
  The cleaner: \<open>tm_transaction_store_process_jaeger\<close> (tm_transaction_store.c) walks the traces marked
  for Jaeger in both environments, sends those whose root has been quiet for the lookback time, with
  their children, and unmarks them; \<open>transaction_clean\<close> (main.c) alternates it with the rotation.
\<close>

section \<open>One trace\<close>

text \<open>
  Pass 1 maps the id of a parent to the first error document below it. An error document without a
  parent is freed here and read again in pass 2: undefined.
\<close>

definition child_event :: "('j, 'd, 'h) env \<Rightarrow> 'j \<Rightarrow> string ub" where
  "child_event E processor = jo_string E (jo_get E (Some processor) ''event'')"

definition collect_error :: "('j, 'd, 'h) env \<Rightarrow> (string \<rightharpoonup> 'j) \<Rightarrow> 'j \<Rightarrow> (string \<rightharpoonup> 'j) ub" where
  "collect_error E span_errors child =
     (case jo_get E (Some child) ''processor'' of
        None \<Rightarrow> Some span_errors
      | Some processor \<Rightarrow> do {
          event \<leftarrow> child_event E processor;
          (if event \<noteq> ''error'' then Some span_errors
           else do {
             parent_json \<leftarrow> jo_get E (Some child) ''parent'';
             parent_hex \<leftarrow> jo_string E (jo_get E (Some parent_json) ''id'');
             Some (if span_errors parent_hex = None then span_errors(parent_hex \<mapsto> child) else span_errors) }) })"

text \<open>The state of pass 2: \<open>rejaegered_root\<close>, the count, the process and what was posted.\<close>

record ('d, 'h) sending =
  rejaegered_root :: bool
  jaegered_count :: nat
  s_world :: "('d, 'h) world"
  s_jaeger :: jaeger

definition team_url :: "('d, 'h) world \<Rightarrow> string \<Rightarrow> string option ub" where
  "team_url w team = do { td \<leftarrow> the_team w team; Some (jaeger_dest_url td) }"

definition child_team :: "('j, 'd, 'h) env \<Rightarrow> 'j \<Rightarrow> ('d, 'h) world \<Rightarrow> (string option \<times> ('d, 'h) world) ub" where
  "child_team E child w = do {
     sn \<leftarrow> tm_service_name E (Some child);
     t \<leftarrow> tm_get_team 128 sn;
     Some (t, case t of None \<Rightarrow> w | Some t \<Rightarrow> get_team_data t w) }"

text \<open>\<open>other\<close> is the child's team when it is not the root's.\<close>

definition send_both ::
  "(string option \<Rightarrow> jaeger \<Rightarrow> jaeger ub) \<Rightarrow> string \<Rightarrow> string option \<Rightarrow> ('d, 'h) world \<Rightarrow> jaeger \<Rightarrow> jaeger ub" where
  "send_both send team other w g = do {
     url \<leftarrow> team_url w team;
     g \<leftarrow> send url g;
     (case other of
        None \<Rightarrow> Some g
      | Some t \<Rightarrow> do { url \<leftarrow> team_url w t; send url g }) }"

definition resend_root ::
  "('j, 'd, 'h) env \<Rightarrow> 'j \<Rightarrow> (string \<rightharpoonup> 'j) \<Rightarrow> string option \<Rightarrow> bool \<Rightarrow> ('d, 'h) world \<Rightarrow> jaeger \<Rightarrow> (bool \<times> jaeger) ub" where
  "resend_root E root_doc span_errors other resent w g =
     (case other of
        None \<Rightarrow> Some (resent, g)
      | Some t \<Rightarrow>
          if resent then Some (True, g)
          else do {
            url \<leftarrow> team_url w t;
            g \<leftarrow> jaegerize_transaction E root_doc url span_errors g;
            Some (True, g) })"

definition send_child ::
  "('j, 'd, 'h) env \<Rightarrow> 'j \<Rightarrow> string \<Rightarrow> (string \<rightharpoonup> 'j) \<Rightarrow> ('d, 'h) sending \<Rightarrow> 'j \<Rightarrow> ('d, 'h) sending ub" where
  "send_child E root_doc team span_errors s child =
     (case jo_get E (Some child) ''processor'' of
        None \<Rightarrow> Some s
      | Some processor \<Rightarrow> do {
          (t, w) \<leftarrow> child_team E child (s_world s);
          let other = (if t = Some team then None else t);
          (root, g) \<leftarrow> resend_root E root_doc span_errors other (rejaegered_root s) w (s_jaeger s);
          event \<leftarrow> child_event E processor;
          (if event = ''transaction'' then do {
             g \<leftarrow> send_both (\<lambda>url. jaegerize_transaction E child url span_errors) team other w g;
             Some \<lparr>rejaegered_root = root, jaegered_count = jaegered_count s + 1, s_world = w, s_jaeger = g\<rparr> }
           else if event = ''span'' then do {
             g \<leftarrow> send_both (\<lambda>url. jaegerize_span E child url span_errors) team other w g;
             Some \<lparr>rejaegered_root = root, jaegered_count = jaegered_count s + 1, s_world = w, s_jaeger = g\<rparr> }
           else Some \<lparr>rejaegered_root = root, jaegered_count = jaegered_count s, s_world = w, s_jaeger = g\<rparr>) })"

text \<open>The root goes to its team's collector first, then every child.\<close>

definition send_trace ::
  "('j, 'd, 'h) env \<Rightarrow> mdb_env \<Rightarrow> nat \<Rightarrow> string \<Rightarrow> 'j \<Rightarrow> nat \<Rightarrow> ('d, 'h) world \<Rightarrow> jaeger \<Rightarrow>
     (nat \<times> ('d, 'h) world \<times> jaeger) ub" where
  "send_trace E snapshot parent_dbi key json_o n w g =
     (case jo_get E (Some json_o) ''transaction'' of
        None \<Rightarrow> Some (n, w, g)
      | Some root_doc \<Rightarrow> do {
          (t, w) \<leftarrow> child_team E root_doc w;
          (case t of
             None \<Rightarrow> Some (n, w, g)
           | Some team \<Rightarrow> do {
               children \<leftarrow> tm_transaction_store_get_children E snapshot parent_dbi key;
               span_errors \<leftarrow> foldM (collect_error E) Map.empty children;
               url \<leftarrow> team_url w team;
               g \<leftarrow> jaegerize_transaction E root_doc url span_errors g;
               s \<leftarrow> foldM (send_child E root_doc team span_errors)
                 \<lparr>rejaegered_root = False, jaegered_count = n + 1, s_world = w, s_jaeger = g\<rparr> children;
               Some (jaegered_count s, s_world s, s_jaeger s) }) })"

section \<open>The walk\<close>

text \<open>
  \<open>in_last\<close> tells which environment is walked. The write transaction that unmarks a trace may not begin
  (the function returns 0); a failed \<open>mdb_del\<close> aborts the transaction and then commits it, which is
  undefined; a failed commit is only logged.
\<close>

datatype unmark = Unmark_return | Unmark_done

definition unmark_trace :: "bool \<Rightarrow> string \<Rightarrow> tstore \<Rightarrow> (unmark \<times> tstore) ub" where
  "unmark_trace in_last key st =
     (let (r, st) = mdb_next st; env = (if in_last then last_env st else current_env st);
          dbi = (if in_last then last_jaeger_dbi st else current_jaeger_dbi st) in
      if r = Some Txn_begin then Some (Unmark_return, st)
      else if r = Some Cursor_open \<or> r = Some Cursor_put \<or> env dbi key = None then None
      else if r = Some Txn_commit then Some (Unmark_done, st)
      else Some (Unmark_done,
        if in_last then st\<lparr>last_env := env_del dbi key env\<rparr> else st\<lparr>current_env := env_del dbi key env\<rparr>))"

text \<open>
  The record of a marked trace. A mark is looked up in the table of roots, and then through the
  other environment's handle, but by a cursor of the same transaction.
\<close>

definition marked_root :: "mdb_env \<Rightarrow> nat \<Rightarrow> nat \<Rightarrow> string \<Rightarrow> string \<Rightarrow> string option" where
  "marked_root snapshot parent_dbi last_parent_dbi key b =
     (if b = ''trace'' then
        (case snapshot parent_dbi key of None \<Rightarrow> snapshot last_parent_dbi key | Some b \<Rightarrow> Some b)
      else Some b)"

text \<open>
  A walk either goes on with the count, or has made the function return 0. A record that cannot be
  decompressed stays: the cursor that should delete it belongs to a read-only transaction.
\<close>

datatype walk = Walk_return | Walk_on nat

definition JAEGER_MAX_COUNT :: nat where "JAEGER_MAX_COUNT = 200"

definition set_store :: "tstore \<Rightarrow> ('d, 'h) world \<Rightarrow> ('d, 'h) world" where
  "set_store st w = w\<lparr>store := st\<rparr>"

text \<open>The result's flag is the \<open>break\<close>.\<close>

definition jaeger_key ::
  "('j, 'd, 'h) env \<Rightarrow> bool \<Rightarrow> mdb_env \<Rightarrow> nat \<Rightarrow> nat \<Rightarrow> nat \<Rightarrow> u64 \<Rightarrow> string \<Rightarrow> nat \<Rightarrow> ('d, 'h) world \<Rightarrow> jaeger \<Rightarrow>
     (walk \<times> bool \<times> ('d, 'h) world \<times> jaeger) ub" where
  "jaeger_key E in_last snapshot dbi parent_dbi last_parent_dbi time_ms key n w g =
     (case snapshot dbi key of
        None \<Rightarrow> None
      | Some b \<Rightarrow>
     (case marked_root snapshot parent_dbi last_parent_dbi key b of
        None \<Rightarrow> Some (Walk_on n, False, w, g)
      | Some ss \<Rightarrow>
          if \<not> root_ok ss then None
          else if \<not> root_last_modified ss \<le> time_ms then Some (Walk_on n, False, w, g)
          else (case unpack E (root_magic ss) (root_data ss) of
             None \<Rightarrow> Some (Walk_on n, False, w, g)
           | Some json \<Rightarrow>
               (case jo_parse E json of
                  None \<Rightarrow> do {
                    (r, st) \<leftarrow> unmark_trace in_last key (store w);
                    Some (if r = Unmark_return then Walk_return else Walk_on n, False, set_store st w, g) }
                | Some json_o \<Rightarrow> do {
                    (n, w, g) \<leftarrow> send_trace E snapshot parent_dbi key json_o n w g;
                    (r, st) \<leftarrow> unmark_trace in_last key (store w);
                    Some (if r = Unmark_return then Walk_return else Walk_on (n + 1),
                      JAEGER_MAX_COUNT \<le> n + 1, set_store st w, g) }))))"

fun jaeger_keys ::
  "('j, 'd, 'h) env \<Rightarrow> bool \<Rightarrow> mdb_env \<Rightarrow> nat \<Rightarrow> nat \<Rightarrow> nat \<Rightarrow> u64 \<Rightarrow> string list \<Rightarrow> nat \<Rightarrow> ('d, 'h) world \<Rightarrow> jaeger \<Rightarrow>
     (walk \<times> ('d, 'h) world \<times> jaeger) ub" where
  "jaeger_keys E in_last snapshot dbi parent_dbi last_parent_dbi time_ms [] n w g = Some (Walk_on n, w, g)"
| "jaeger_keys E in_last snapshot dbi parent_dbi last_parent_dbi time_ms (key # keys) n w g =
     (case jaeger_key E in_last snapshot dbi parent_dbi last_parent_dbi time_ms key n w g of
        None \<Rightarrow> None
      | Some (Walk_return, _, w, g) \<Rightarrow> Some (Walk_return, w, g)
      | Some (Walk_on n, True, w, g) \<Rightarrow> Some (Walk_on n, w, g)
      | Some (Walk_on n, False, w, g) \<Rightarrow>
          jaeger_keys E in_last snapshot dbi parent_dbi last_parent_dbi time_ms keys n w g)"

definition jaeger_env ::
  "('j, 'd, 'h) env \<Rightarrow> bool \<Rightarrow> u64 \<Rightarrow> nat \<Rightarrow> ('d, 'h) world \<Rightarrow> jaeger \<Rightarrow> (walk \<times> ('d, 'h) world \<times> jaeger) ub" where
  "jaeger_env E in_last time_ms n w g =
     (let (r, st) = mdb_next (store w); w = set_store st w;
          snapshot = (if in_last then last_env st else current_env st);
          dbi = (if in_last then last_jaeger_dbi st else current_jaeger_dbi st);
          parent_dbi = (if in_last then last_dbi st else current_dbi st);
          last_parent_dbi = (if in_last then current_dbi st else last_dbi st) in
      if r = Some Txn_begin \<or> r = Some Cursor_open then Some (Walk_return, w, g)
      else jaeger_keys E in_last snapshot dbi parent_dbi last_parent_dbi time_ms (keys_of snapshot dbi) n w g)"

definition tm_transaction_store_process_jaeger ::
  "('j, 'd, 'h) env \<Rightarrow> ('d, 'h) world \<Rightarrow> jaeger \<Rightarrow> (nat \<times> ('d, 'h) world \<times> jaeger) ub" where
  "tm_transaction_store_process_jaeger E w g = do {
     let (now, w) = mtev_now_ms w;
     let time_ms = now - of_int (default_lookback_secs (store w) * 1000);
     (r, w, g) \<leftarrow> jaeger_env E False time_ms 0 w g;
     (case r of
        Walk_return \<Rightarrow> Some (0, w, g)
      | Walk_on n \<Rightarrow> do {
          (r, w, g) \<leftarrow> jaeger_env E True time_ms n w g;
          Some (case r of Walk_return \<Rightarrow> 0 | Walk_on n \<Rightarrow> n, w, g) }) }"

section \<open>The cleaner\<close>

text \<open>The clock is read at the start, and when a fresh environment gets its opening time.\<close>

definition delete_old :: "('d, 'h) world \<Rightarrow> nat \<times> ('d, 'h) world" where
  "delete_old w =
     (let (now, w) = mtev_now_ms w; st = store w;
          flip = (current_open_ms st < now \<and> 600000 < now - current_open_ms st);
          (now1, w) = (if flip then mtev_now_ms w else (0, w));
          (now2, w) = (if flip \<and> current_env st ts_dbi open_ms_key = None then mtev_now_ms w else (0, w));
          (n, st) = tm_transaction_store_delete_old_transactions now now1 now2 (store w)
      in (n, set_store st w))"

partial_function (option) transaction_clean ::
  "('j, 'd, 'h) env \<Rightarrow> ('d, 'h) world \<Rightarrow> jaeger \<Rightarrow> (('d, 'h) world \<times> jaeger) ub" where
  "transaction_clean E w g =
     Option.bind (tm_transaction_store_process_jaeger E w g) (\<lambda>(jaegered_count, w, g).
       let (loop_count, w) = delete_old w
       in if loop_count < 500 then Some (w, g) else transaction_clean E w g)"

section \<open>Facts\<close>

text \<open>
  What the cleaner may change: metrics are only kept, posts are only added, and a table of marks
  loses only marks that are due. \<open>P\<close> and \<open>Q\<close> say which marks of \<open>current\<close> and \<open>last\<close> are due.
\<close>

definition marks_lost :: "(string \<Rightarrow> bool) \<Rightarrow> nat \<Rightarrow> mdb_env \<Rightarrow> mdb_env \<Rightarrow> bool" where
  "marks_lost P jdbi env env' =
     (\<forall>dbi k. env' dbi k = env dbi k \<or> (dbi = jdbi \<and> env' dbi k = None \<and> P k))"

definition settled :: "tstore \<Rightarrow> _" where
  "settled st = (current_dbi st, last_dbi st, current_jaeger_dbi st, last_jaeger_dbi st, current_open_ms st,
     last_open_ms st, use_bloom_filters st, current_bloom st, last_bloom st, default_lookback_secs st,
     mdb_outcomes st)"

definition clean_step ::
  "(string \<Rightarrow> bool) \<Rightarrow> (string \<Rightarrow> bool) \<Rightarrow> ('d, 'h) world \<times> jaeger \<Rightarrow> ('d, 'h) world \<times> jaeger \<Rightarrow> bool" where
  "clean_step P Q = (\<lambda>(w, g) (w', g').
     docs_step w w' \<and> clock w' = clock w \<and> stats w' = stats w \<and> ticks w \<le> ticks w' \<and>
     (\<exists>ps. posted g' = posted g @ ps) \<and>
     settled (store w') = settled (store w) \<and>
     marks_lost P (current_jaeger_dbi (store w)) (current_env (store w)) (current_env (store w')) \<and>
     marks_lost Q (last_jaeger_dbi (store w)) (last_env (store w)) (last_env (store w')))"

lemma marks_lost_refl [simp]: "marks_lost P d env env"
  by (simp add: marks_lost_def)

lemma marks_lost_trans: "marks_lost P d a b \<Longrightarrow> marks_lost P d b c \<Longrightarrow> marks_lost P d a c"
  unfolding marks_lost_def by metis

lemma marks_lost_del: "P k \<Longrightarrow> marks_lost P d env (env_del d k env)"
  by (simp add: marks_lost_def env_del_def)

lemma clean_stepD:
  assumes "clean_step P Q (w, g) (w', g')"
  shows "docs_step w w'" "clock w' = clock w" "stats w' = stats w" "ticks w \<le> ticks w'"
    "\<exists>ps. posted g' = posted g @ ps" "settled (store w') = settled (store w)"
    "marks_lost P (current_jaeger_dbi (store w)) (current_env (store w)) (current_env (store w'))"
    "marks_lost Q (last_jaeger_dbi (store w)) (last_env (store w)) (last_env (store w'))"
  using assms by (simp_all add: clean_step_def)

lemma clean_step_trans [trans]:
  assumes "clean_step P Q a b" "clean_step P Q b c"
  shows "clean_step P Q a c"
proof -
  obtain w g w1 g1 w2 g2 where e: "a = (w, g)" "b = (w1, g1)" "c = (w2, g2)" by (metis surj_pair)
  note 1 = clean_stepD [OF assms(1) [unfolded e]] and 2 = clean_stepD [OF assms(2) [unfolded e]]
  have d: "current_jaeger_dbi (store w1) = current_jaeger_dbi (store w)"
    "last_jaeger_dbi (store w1) = last_jaeger_dbi (store w)"
    using 1(6) by (simp_all add: settled_def)
  obtain ps qs where p: "posted g1 = posted g @ ps" "posted g2 = posted g1 @ qs" using 1(5) 2(5) by auto
  show ?thesis unfolding e clean_step_def prod.case
    using docs_step_trans [OF 1(1) 2(1)] 1(2-4,6) 2(2-4,6) p marks_lost_trans [OF 1(7)] marks_lost_trans [OF 1(8)]
      2(7,8) d by simp
qed

lemma clean_step_world: "docs_step w w' \<Longrightarrow> clock w' = clock w \<Longrightarrow> stats w' = stats w \<Longrightarrow> ticks w \<le> ticks w' \<Longrightarrow>
    store w' = store w \<Longrightarrow> posted g' = posted g @ ps \<Longrightarrow> clean_step P Q (w, g) (w', g')"
  by (simp add: clean_step_def)

lemma clean_step_refl [simp]: "clean_step P Q (w, g) (w, g)"
  by (rule clean_step_world [of _ _ _ _ "[]"]) simp_all

lemma clean_step_same_posts: "clean_step P Q a (w, g) \<Longrightarrow> posted g' = posted g @ ps \<Longrightarrow> clean_step P Q a (w, g')"
  by (erule clean_step_trans) (rule clean_step_world, simp_all)

lemma clean_step_team: "clean_step P Q a (w, g) \<Longrightarrow> clean_step P Q a (get_team_data t w, g)"
proof (erule clean_step_trans)
  have "docs_step w (get_team_data t w)" by (rule docs_step_one, rule doc_step_get_team_data)
  then show "clean_step P Q (w, g) (get_team_data t w, g)"
    by (rule clean_step_world [of _ _ _ _ "[]"]) (simp_all add: get_team_data_def tm_add_team_def Let_def)
qed

lemma jaegerize_posts: "post (jaegerize url b g) (\<lambda>g'. \<exists>ps. posted g' = posted g @ ps)"
  by (cases url) (auto simp: jaegerize_def get_jaeger_client_def post_def bind_eq_Some_conv split: option.splits)

lemma jaegerized_step [post_intros]:
  "clean_step P Q a (w, g) \<Longrightarrow> post (jaegerize_transaction E m url errs g) (\<lambda>g'. clean_step P Q a (w, g'))"
  "clean_step P Q a (w, g) \<Longrightarrow> post (jaegerize_span E m url errs g) (\<lambda>g'. clean_step P Q a (w, g'))"
  unfolding jaegerize_transaction_def jaegerize_span_def post_def
  using postD [OF _ jaegerize_posts] clean_step_same_posts by fast+

lemma send_both_step:
  assumes "clean_step P Q a (w, g)"
    and "\<And>url g. clean_step P Q a (w, g) \<Longrightarrow> post (send url g) (\<lambda>g'. clean_step P Q a (w, g'))"
  shows "post (send_both send team other w g) (\<lambda>g'. clean_step P Q a (w, g'))"
  unfolding send_both_def
  by (rule post_bind, rule post_bind_post [OF assms(2) [OF assms(1)]])
     (auto intro!: post_intros post_Some assms(2) split: option.splits)

lemma child_team_step:
  "clean_step P Q a (w, g) \<Longrightarrow> post (child_team E c w) (\<lambda>(t, w'). clean_step P Q a (w', g))"
  unfolding child_team_def
  by (intro post_intros post_Some) (auto split: option.split intro: clean_step_team)

lemma resend_root_step:
  assumes "clean_step P Q a (w, g)"
  shows "post (resend_root E root errs other resent w g) (\<lambda>(r, g'). clean_step P Q a (w, g'))"
  unfolding resend_root_def
  by (intro post_intros post_bind_post [OF jaegerized_step(1) [OF assms]] post_Some) (use assms in simp_all)

lemma send_child_step:
  assumes "clean_step P Q a (s_world s, s_jaeger s)"
  shows "post (send_child E root team errs s c) (\<lambda>s'. clean_step P Q a (s_world s', s_jaeger s') \<and>
    jaegered_count s \<le> jaegered_count s' \<and> jaegered_count s' \<le> jaegered_count s + 1)"
  unfolding send_child_def Let_def
proof (intro post_option, goal_cases)
  case 1
  then show ?case using assms by (simp add: post_Some)
next
  case (2 p)
  show ?case
  proof (rule post_bind_post [OF child_team_step [OF assms]], clarify, rule post_bind_post [OF resend_root_step], assumption,
      clarify, rule post_bind)
  qed (auto intro!: post_if post_bind_post [OF send_both_step [OF _ jaegerized_step(1)]]
         post_bind_post [OF send_both_step [OF _ jaegerized_step(2)]] post_Some)
qed

lemma send_trace_step:
  assumes "clean_step P Q a (w, g)"
  shows "post (send_trace E snap pdbi key j n w g)
    (\<lambda>(n', w', g'). clean_step P Q a (w', g') \<and> n \<le> n' \<and> n' \<le> n + 1001)"
  unfolding send_trace_def
proof (intro post_option, goal_cases)
  case 1
  then show ?case using assms by (simp add: post_Some)
next
  case (2 doc)
  show ?case
  proof (rule post_bind_post [OF child_team_step [OF assms]], clarify, intro post_option, goal_cases)
    case (1 t w)
    then show ?case by (simp add: post_Some)
  next
    case (2 t w team)
    note w = 2(1)
    show ?case
    proof (rule post_bind, rule post_bind, rule post_bind, rule post_bind_post [OF jaegerized_step(1) [OF w]], rule post_bind, rule post_Some)
      fix cs errs url g s
      let ?s0 = "\<lparr>rejaegered_root = False, jaegered_count = n + 1, s_world = w, s_jaeger = g\<rparr>"
      assume cs: "tm_transaction_store_get_children E snap pdbi key = Some cs" and g: "clean_step P Q a (w, g)"
        and f: "foldM (send_child E doc team errs) ?s0 cs = Some s"
      have "clean_step P Q a (s_world s, s_jaeger s) \<and> jaegered_count s1 \<le> jaegered_count s \<and>
          jaegered_count s \<le> jaegered_count s1 + length cs"
        if "foldM (send_child E doc team errs) s1 cs = Some s" "clean_step P Q a (s_world s1, s_jaeger s1)" for s1 cs s
        using that
      proof (induction cs arbitrary: s1)
        case (Cons c cs)
        then obtain s2 where s2: "send_child E doc team errs s1 c = Some s2"
          "foldM (send_child E doc team errs) s2 cs = Some s" by (auto split: option.splits)
        from postD [OF s2(1) send_child_step [OF Cons.prems(2)]] Cons.IH [OF s2(2)] show ?case by auto
      qed simp
      from this [OF f] g have "clean_step P Q a (s_world s, s_jaeger s)" "n + 1 \<le> jaegered_count s"
        "jaegered_count s \<le> n + 1 + length cs" by auto
      moreover have "length cs \<le> 1000"
        using cs children_loop_bound by (fastforce simp: tm_transaction_store_get_children_def)
      ultimately show "case (jaegered_count s, s_world s, s_jaeger s) of
          (n', w', g') \<Rightarrow> clean_step P Q a (w', g') \<and> n \<le> n' \<and> n' \<le> n + 1001" by simp
    qed
  qed
qed

lemma unmark_step:
  assumes "clean_step P Q a (w, g)" "if in_last then Q key else P key"
  shows "post (unmark_trace in_last key (store w)) (\<lambda>(r, st). clean_step P Q a (set_store st w, g))"
proof -
  have "clean_step P Q (w, g) (set_store st w, g)" if "unmark_trace in_last key (store w) = Some (r, st)" for r st
    using that assms(2)
    by (auto simp: unmark_trace_def Let_def clean_step_def set_store_def settled_def marks_lost_del
        intro: docs_step_same_teams split: if_splits)
  then show ?thesis using assms(1) unfolding post_def by (auto intro: clean_step_trans)
qed

text \<open>A mark is due when its root can be read and has been quiet since \<open>time_ms\<close>.\<close>

definition due :: "('j, 'd, 'h) env \<Rightarrow> u64 \<Rightarrow> mdb_env \<Rightarrow> nat \<Rightarrow> nat \<Rightarrow> nat \<Rightarrow> string \<Rightarrow> bool" where
  "due E time_ms snapshot dbi parent_dbi last_parent_dbi key =
     (\<exists>b ss. snapshot dbi key = Some b \<and> marked_root snapshot parent_dbi last_parent_dbi key b = Some ss \<and>
        root_last_modified ss \<le> time_ms \<and> unpack E (root_magic ss) (root_data ss) \<noteq> None)"

lemma jaeger_key_step:
  assumes "clean_step P Q a (w, g)"
    and "\<And>k. due E t snap dbi pdbi odbi k \<Longrightarrow> if in_last then Q k else P k"
  shows "post (jaeger_key E in_last snap dbi pdbi odbi t key n w g)
    (\<lambda>(r, brk, w', g'). clean_step P Q a (w', g') \<and>
       (\<forall>m. r = Walk_on m \<longrightarrow> m \<le> n + 1002 \<and> (brk \<or> m = n \<or> m < 200)))"
  unfolding jaeger_key_def
proof (intro post_option post_None, goal_cases)
  case 1
  then show ?case using assms(1) by (simp add: post_Some)
next
  case (2 b ss)
  show ?case
  proof (intro post_if post_None post_option, goal_cases)
    case (4 json j)
    have d: "if in_last then Q key else P key" using 2 4 assms(2) by (auto simp: due_def)
    show ?case
      by (rule post_bind_post [OF send_trace_step [OF assms(1)]], clarify,
          rule post_bind_post [OF unmark_step [where P = P and Q = Q and in_last = in_last, OF _ d]], assumption)
         (auto intro!: post_Some simp: JAEGER_MAX_COUNT_def split: if_splits)
  next
    case (3 json)
    have d: "if in_last then Q key else P key" using 2 3 assms(2) by (auto simp: due_def)
    show ?case
      by (rule post_bind_post [OF unmark_step [where P = P and Q = Q and in_last = in_last, OF assms(1) d]])
         (auto intro!: post_Some split: if_splits)
  qed (use assms(1) in \<open>simp_all add: post_Some\<close>)
qed

lemma jaeger_keys_step:
  assumes "\<And>k. due E t snap dbi pdbi odbi k \<Longrightarrow> if in_last then Q k else P k"
  shows "clean_step P Q a (w, g) \<Longrightarrow> post (jaeger_keys E in_last snap dbi pdbi odbi t ks n w g)
    (\<lambda>(r, w', g'). clean_step P Q a (w', g') \<and> (\<forall>m. r = Walk_on m \<longrightarrow> m \<le> max n 199 + 1002))"
proof (induction ks arbitrary: n w g)
  case (Cons k ks)
  show ?case
  proof (cases "jaeger_key E in_last snap dbi pdbi odbi t k n w g")
    case (Some r)
    obtain u brk w1 g1 where r: "r = (u, brk, w1, g1)" by (cases r) auto
    have 1: "clean_step P Q a (w1, g1)" "\<And>m. u = Walk_on m \<Longrightarrow> m \<le> n + 1002 \<and> (brk \<or> m = n \<or> m < 200)"
      using postD [OF Some jaeger_key_step [OF Cons.prems assms]] r by auto
    show ?thesis
    proof (cases u)
      case (Walk_on m)
      have "max m 199 \<le> max n 199" if "\<not> brk" using 1(2) [OF Walk_on] that by auto
      then show ?thesis using Some r Walk_on 1 Cons.IH [OF 1(1), of m]
        by (cases brk) (auto simp: post_def max_def)
    qed (use Some r 1 in \<open>simp add: post_def\<close>)
  qed (simp add: post_None)
qed (simp add: post_Some)

lemma jaeger_env_step:
  fixes w :: "('d, 'h) world"
  defines "st \<equiv> store w"
  assumes "clean_step P Q a (w, g)"
    and "\<And>k. in_last \<Longrightarrow> due E t (last_env st) (last_jaeger_dbi st) (last_dbi st) (current_dbi st) k \<Longrightarrow> Q k"
    and "\<And>k. \<not> in_last \<Longrightarrow> due E t (current_env st) (current_jaeger_dbi st) (current_dbi st) (last_dbi st) k \<Longrightarrow> P k"
  shows "post (jaeger_env E in_last t n w g)
    (\<lambda>(r, w', g'). clean_step P Q a (w', g') \<and> (\<forall>m. r = Walk_on m \<longrightarrow> m \<le> max n 199 + 1002))"
proof -
  let ?w = "set_store (st\<lparr>mdb_pos := mdb_pos st + 1\<rparr>) w"
  have "clean_step P Q (w, g) (?w, g)"
    by (auto simp: clean_step_def set_store_def settled_def st_def intro: docs_step_same_teams)
  with assms(2) have w: "clean_step P Q a (?w, g)" by (rule clean_step_trans)
  show ?thesis
    unfolding jaeger_env_def Let_def mdb_next_eq prod.case st_def [symmetric]
    by (rule post_if, rule post_Some, use w in simp) (rule jaeger_keys_step [OF _ w], use assms(3,4) in auto)
qed

lemma clean_step_mono: "clean_step P (\<lambda>_. False) a b \<Longrightarrow> clean_step P Q a b"
  by (auto simp: clean_step_def marks_lost_def)

definition jaeger_deadline :: "('d, 'h) world \<Rightarrow> u64" where
  "jaeger_deadline w = clock w (ticks w) - of_int (default_lookback_secs (store w) * 1000)"

definition due_current :: "('j, 'd, 'h) env \<Rightarrow> ('d, 'h) world \<Rightarrow> string \<Rightarrow> bool" where
  "due_current E w = (let st = store w in
     due E (jaeger_deadline w) (current_env st) (current_jaeger_dbi st) (current_dbi st) (last_dbi st))"

definition due_last :: "('j, 'd, 'h) env \<Rightarrow> ('d, 'h) world \<Rightarrow> string \<Rightarrow> bool" where
  "due_last E w = (let st = store w in
     due E (jaeger_deadline w) (last_env st) (last_jaeger_dbi st) (last_dbi st) (current_dbi st))"

text \<open>The walk of one environment leaves the other alone.\<close>

lemma jaeger_env_current:
  "post (jaeger_env E False (jaeger_deadline w) n (snd (mtev_now_ms w)) g)
    (\<lambda>(r, w', g'). clean_step (due_current E w) (\<lambda>_. False) (w, g) (w', g') \<and>
       (\<forall>m. r = Walk_on m \<longrightarrow> m \<le> max n 199 + 1002))"
proof -
  have "clean_step (due_current E w) (\<lambda>_. False) (w, g) (snd (mtev_now_ms w), g)"
    by (rule clean_step_world [of _ _ _ _ "[]"]) (auto simp: mtev_now_ms_def intro: docs_step_same_teams)
  from jaeger_env_step [OF this, of False E "jaeger_deadline w"] show ?thesis
    by (simp add: due_current_def Let_def mtev_now_ms_def)
qed

lemma process_jaeger_step:
  "post (tm_transaction_store_process_jaeger E w g)
    (\<lambda>(n, w', g'). clean_step (due_current E w) (due_last E w) (w, g) (w', g') \<and> n \<le> 2203)"
proof -
  have body: "post (jaeger_env E True (jaeger_deadline w) n w1 g1)
      (\<lambda>(r, w', g'). clean_step (due_current E w) (due_last E w) (w, g) (w', g') \<and>
         (\<forall>m. r = Walk_on m \<longrightarrow> m \<le> max n 199 + 1002))"
    if s: "clean_step (due_current E w) (\<lambda>_. False) (w, g) (w1, g1)" for n w1 g1
  proof -
    note d = clean_stepD [OF s]
    have "last_env (store w1) = last_env (store w)" using d(8) by (auto simp: marks_lost_def fun_eq_iff)
    moreover have "last_jaeger_dbi (store w1) = last_jaeger_dbi (store w)" "last_dbi (store w1) = last_dbi (store w)"
      "current_dbi (store w1) = current_dbi (store w)" using d(6) by (simp_all add: settled_def)
    ultimately show ?thesis using jaeger_env_step [OF clean_step_mono [OF s], of True E "jaeger_deadline w"]
      by (simp add: due_last_def Let_def)
  qed
  have "tm_transaction_store_process_jaeger E w g = do {
     (r, w, g) \<leftarrow> jaeger_env E False (jaeger_deadline w) 0 (snd (mtev_now_ms w)) g;
     (case r of
        Walk_return \<Rightarrow> Some (0, w, g)
      | Walk_on n \<Rightarrow> do {
          (r, w, g) \<leftarrow> jaeger_env E True (jaeger_deadline w0) n w g;
          Some (case r of Walk_return \<Rightarrow> 0 | Walk_on n \<Rightarrow> n, w, g) }) }" if "w0 = w" for w0
    using that
    by (simp add: tm_transaction_store_process_jaeger_def mtev_now_ms_def jaeger_deadline_def Let_def cong: walk.case_cong)
  then show ?thesis
    using clean_step_mono
    by (auto intro!: post_bind_post [OF jaeger_env_current] post_Some post_bind_post [OF body] simp: max_def split: walk.split if_splits)
qed

text \<open>Once the store has been rotated, ten minutes pass before it is rotated again.\<close>

definition delete_old_fresh :: "('d, 'h) world \<Rightarrow> bool" where
  "delete_old_fresh w = (\<forall>m \<ge> ticks w. unat (clock w m) - unat (current_open_ms (store w)) \<le> 600000)"

lemma delete_old_not_fresh:
  assumes "delete_old_fresh w"
  shows "fst (delete_old w) = 0"
proof -
  let ?now = "clock w (ticks w)" and ?o = "current_open_ms (store w)"
  have "\<not> (?o < ?now \<and> 600000 < ?now - ?o)"
  proof
    assume a: "?o < ?now \<and> 600000 < ?now - ?o"
    then have "unat (?now - ?o) = unat ?now - unat ?o" by (simp add: unat_sub less_imp_le)
    moreover have "unat ?now - unat ?o \<le> 600000" using assms by (simp add: delete_old_fresh_def)
    moreover have "unat (600000 :: u64) < unat (?now - ?o)" using a by (simp only: word_less_nat_alt)
    ultimately show False by simp
  qed
  then show ?thesis
    by (auto simp: delete_old_def mtev_now_ms_def Let_def tm_transaction_store_delete_old_transactions_def
        split: prod.splits if_splits)
qed

lemma delete_old_makes_fresh:
  assumes "\<forall>m \<ge> ticks w. lo \<le> unat (clock w m) \<and> unat (clock w m) \<le> lo + 600000" "fst (delete_old w) \<noteq> 0"
  shows "delete_old_fresh (snd (delete_old w)) \<and> ticks w \<le> ticks (snd (delete_old w)) \<and>
    clock (snd (delete_old w)) = clock w"
proof -
  let ?now = "clock w (ticks w)" and ?o = "current_open_ms (store w)"
  have f: "?o < ?now \<and> 600000 < ?now - ?o"
    using assms(2)
    by (auto simp: delete_old_def mtev_now_ms_def Let_def tm_transaction_store_delete_old_transactions_def
        split: prod.splits if_splits)
  have o: "current_open_ms (store (snd (delete_old w))) = clock w (ticks w + 1)"
    using f by (simp add: delete_old_def mtev_now_ms_def Let_def tm_transaction_store_delete_old_transactions_def
        tm_transaction_store_open_environments_def open_environment_def set_store_def split: prod.splits option.splits)
  have k: "ticks w \<le> ticks (snd (delete_old w)) \<and> clock (snd (delete_old w)) = clock w"
    by (simp add: delete_old_def mtev_now_ms_def Let_def set_store_def split: prod.splits)
  have "unat (clock w m) - unat (clock w (ticks w + 1)) \<le> 600000" if "ticks w \<le> m" for m
  proof -
    have "unat (clock w m) \<le> lo + 600000" using assms(1) that by blast
    moreover have "lo \<le> unat (clock w (ticks w + 1))" using assms(1) by simp
    ultimately show ?thesis by linarith
  qed
  with o k show ?thesis by (auto simp: delete_old_fresh_def)
qed

section \<open>A mark without its root\<close>

text \<open>
  The root of \<open>tid\<close> is not in \<open>current\<close>, and if \<open>tid\<close> is marked in \<open>last\<close> its root is not there either: no
  walk has mark and root in one environment.
\<close>

definition orphan :: "string \<Rightarrow> tstore \<Rightarrow> bool" where
  "orphan tid st =
     (store_ok st \<and> current_env st ts_dbi tid = None \<and>
      current_env st jaeger_dbi tid \<in> {None, Some ''trace''} \<and>
      (last_env st jaeger_dbi tid = None \<or> last_env st jaeger_dbi tid = Some ''trace'' \<and> last_env st ts_dbi tid = None))"

text \<open>
  What can happen to the trace as long as its root document does not come again: rounds of sending,
  rotations, and any other operation on the store that does not put the root.
\<close>

inductive without_root ::
  "('j, 'd, 'h) env \<Rightarrow> string \<Rightarrow> ('d, 'h) world \<times> jaeger \<Rightarrow> ('d, 'h) world \<times> jaeger \<Rightarrow> bool" for E tid where
  send: "tm_transaction_store_process_jaeger E w g = Some (n, w', g') \<Longrightarrow> without_root E tid (w, g) (w', g')"
| rotate: "without_root E tid (w, g) (snd (delete_old w), g)"
| other: "store_step E (store w) (store w') \<Longrightarrow> current_env (store w') ts_dbi tid = None \<Longrightarrow>
    without_root E tid (w, g) (w', g')"

text \<open>The walks and the round without the mark of \<open>tid\<close>.\<close>

definition jaeger_env_except ::
  "('j, 'd, 'h) env \<Rightarrow> string \<Rightarrow> bool \<Rightarrow> u64 \<Rightarrow> nat \<Rightarrow> ('d, 'h) world \<Rightarrow> jaeger \<Rightarrow> (walk \<times> ('d, 'h) world \<times> jaeger) ub" where
  "jaeger_env_except E tid in_last time_ms n w g =
     (let (r, st) = mdb_next (store w); w = set_store st w;
          snapshot = (if in_last then last_env st else current_env st);
          dbi = (if in_last then last_jaeger_dbi st else current_jaeger_dbi st);
          parent_dbi = (if in_last then last_dbi st else current_dbi st);
          last_parent_dbi = (if in_last then current_dbi st else last_dbi st) in
      if r = Some Txn_begin \<or> r = Some Cursor_open then Some (Walk_return, w, g)
      else jaeger_keys E in_last snapshot dbi parent_dbi last_parent_dbi time_ms
             (removeAll tid (keys_of snapshot dbi)) n w g)"

definition process_jaeger_except ::
  "('j, 'd, 'h) env \<Rightarrow> string \<Rightarrow> ('d, 'h) world \<Rightarrow> jaeger \<Rightarrow> (nat \<times> ('d, 'h) world \<times> jaeger) ub" where
  "process_jaeger_except E tid w g = do {
     let (now, w) = mtev_now_ms w;
     let time_ms = now - of_int (default_lookback_secs (store w) * 1000);
     (r, w, g) \<leftarrow> jaeger_env_except E tid False time_ms 0 w g;
     (case r of
        Walk_return \<Rightarrow> Some (0, w, g)
      | Walk_on n \<Rightarrow> do {
          (r, w, g) \<leftarrow> jaeger_env_except E tid True time_ms n w g;
          Some (case r of Walk_return \<Rightarrow> 0 | Walk_on n \<Rightarrow> n, w, g) }) }"

lemma jaeger_key_passes:
  assumes "snapshot dbi tid = Some ''trace''" "snapshot p tid = None" "snapshot q tid = None"
  shows "jaeger_key E in_last snapshot dbi p q t tid n w g = Some (Walk_on n, False, w, g)"
  using assms by (simp add: jaeger_key_def marked_root_def)

lemma jaeger_keys_pass:
  assumes "tid \<in> set ks \<Longrightarrow> snapshot dbi tid = Some ''trace'' \<and> snapshot p tid = None \<and> snapshot q tid = None"
  shows "jaeger_keys E in_last snapshot dbi p q t ks n w g = jaeger_keys E in_last snapshot dbi p q t (removeAll tid ks) n w g"
  using assms
proof (induction ks arbitrary: n w g)
  case (Cons k ks)
  then have IH: "jaeger_keys E in_last snapshot dbi p q t ks n w g =
      jaeger_keys E in_last snapshot dbi p q t (removeAll tid ks) n w g" for n w g by simp
  show ?case
    using Cons.prems by (cases "k = tid") (simp_all add: IH jaeger_key_passes split: option.split walk.split bool.split)
qed simp

lemma keys_of_in: "k \<in> set (keys_of env dbi) \<Longrightarrow> env dbi k \<noteq> None"
  by (cases "finite (dom (env dbi))") (auto simp: keys_of_def)

lemma jaeger_env_passes:
  assumes "orphan tid (store w)"
  shows "jaeger_env E in_last t n w g = jaeger_env_except E tid in_last t n w g"
  unfolding jaeger_env_def jaeger_env_except_def Let_def mdb_next_eq prod.case
  using assms
  by (intro if_cong refl jaeger_keys_pass) (auto simp: orphan_def store_ok_def dest!: keys_of_in)

lemma orphan_clean_step:
  assumes "clean_step P Q (w, g) (w', g')" "orphan tid (store w)" "\<not> P tid" "\<not> Q tid"
  shows "orphan tid (store w') \<and>
    current_env (store w') jaeger_dbi tid = current_env (store w) jaeger_dbi tid \<and>
    last_env (store w') jaeger_dbi tid = last_env (store w) jaeger_dbi tid"
proof -
  note d = clean_stepD [OF assms(1)]
  have e: "current_env (store w') dbi tid = current_env (store w) dbi tid"
      "last_env (store w') dbi tid = last_env (store w) dbi tid" for dbi
    using d(7,8) assms(3,4) unfolding marks_lost_def by blast+
  have "marks_lost P jaeger_dbi (current_env (store w)) (current_env (store w'))"
    "marks_lost Q jaeger_dbi (last_env (store w)) (last_env (store w'))"
    using d(7,8) assms(2) by (simp_all add: orphan_def store_ok_def)
  then have "current_env (store w') ts_dbi = current_env (store w) ts_dbi" "last_env (store w') ts_dbi = last_env (store w) ts_dbi"
    by (auto simp: marks_lost_def fun_eq_iff) (metis dbis_differ)+
  then have "store_ok (store w')" using d(6) assms(2) by (simp add: orphan_def store_ok_def settled_def known_def)
  then show ?thesis using e assms(2) by (simp add: orphan_def)
qed

lemma orphan_not_due:
  assumes "orphan tid (store w)"
  shows "\<not> due_current E w tid" "\<not> due_last E w tid"
  using assms by (auto simp: orphan_def store_ok_def due_current_def due_last_def due_def marked_root_def Let_def)

lemma orphan_sending:
  assumes "tm_transaction_store_process_jaeger E w g = Some (n, w', g')" "orphan tid (store w)"
  shows "orphan tid (store w') \<and>
    current_env (store w') jaeger_dbi tid = current_env (store w) jaeger_dbi tid \<and>
    last_env (store w') jaeger_dbi tid = last_env (store w) jaeger_dbi tid"
proof -
  have "clean_step (due_current E w) (due_last E w) (w, g) (w', g')"
    using postD [OF assms(1) process_jaeger_step] by simp
  from orphan_clean_step [OF this assms(2) orphan_not_due [OF assms(2)]] show ?thesis .
qed

lemma process_jaeger_passes:
  assumes "orphan tid (store w)"
  shows "tm_transaction_store_process_jaeger E w g = process_jaeger_except E tid w g"
proof -
  let ?w = "snd (mtev_now_ms w)"
  have o: "orphan tid (store ?w)" using assms by (simp add: mtev_now_ms_def)
  have second: "jaeger_env E True t n w1 g1 = jaeger_env_except E tid True t n w1 g1"
    if "jaeger_env E False (jaeger_deadline w) 0 ?w g = Some (r, w1, g1)" for r w1 g1 t n
  proof -
    have c: "clean_step (due_current E w) (\<lambda>_. False) (w, g) (w1, g1)"
      using postD [OF that jaeger_env_current] by simp
    show ?thesis
      using orphan_clean_step [OF c assms orphan_not_due(1) [OF assms]] by (intro jaeger_env_passes) simp
  qed
  have t: "fst (mtev_now_ms w) - of_int (default_lookback_secs (store ?w) * 1000) = jaeger_deadline w"
    by (simp add: mtev_now_ms_def jaeger_deadline_def)
  have 1: "tm_transaction_store_process_jaeger E w g = do {
     (r, w1, g) \<leftarrow> jaeger_env E False (jaeger_deadline w) 0 ?w g;
     (case r of
        Walk_return \<Rightarrow> Some (0, w1, g)
      | Walk_on n \<Rightarrow> do {
          (r, w2, g) \<leftarrow> jaeger_env E True (jaeger_deadline w) n w1 g;
          Some (case r of Walk_return \<Rightarrow> 0 | Walk_on n \<Rightarrow> n, w2, g) }) }"
    unfolding tm_transaction_store_process_jaeger_def Let_def split_beta t by (simp cong: walk.case_cong)
  have 2: "process_jaeger_except E tid w g = do {
     (r, w1, g) \<leftarrow> jaeger_env_except E tid False (jaeger_deadline w) 0 ?w g;
     (case r of
        Walk_return \<Rightarrow> Some (0, w1, g)
      | Walk_on n \<Rightarrow> do {
          (r, w2, g) \<leftarrow> jaeger_env_except E tid True (jaeger_deadline w) n w1 g;
          Some (case r of Walk_return \<Rightarrow> 0 | Walk_on n \<Rightarrow> n, w2, g) }) }"
    unfolding process_jaeger_except_def Let_def split_beta t by (simp cong: walk.case_cong)
  show ?thesis
  proof (cases "jaeger_env E False (jaeger_deadline w) 0 ?w g")
    case None
    then show ?thesis unfolding 1 2 by (simp flip: jaeger_env_passes [OF o])
  next
    case (Some p)
    obtain r w1 g1 where p: "p = (r, w1, g1)" by (cases p) auto
    show ?thesis using second Some p unfolding 1 2 jaeger_env_passes [OF o, symmetric]
      by (cases r) simp_all
  qed
qed

text \<open>The other operations keep a mark without its root.\<close>

definition keeps_absent :: "string \<Rightarrow> tstore \<Rightarrow> tstore \<Rightarrow> bool" where
  "keeps_absent k st st' =
     (current_env st' jaeger_dbi = current_env st jaeger_dbi \<and> last_env st' jaeger_dbi = last_env st jaeger_dbi \<and>
      (last_env st ts_dbi k = None \<longrightarrow> last_env st' ts_dbi k = None))"

lemma absent_on_env:
  assumes "store_ok st" "in_last \<Longrightarrow> last_env st ts_dbi k = None \<Longrightarrow> key \<noteq> k"
  shows "keeps_absent k st (on_env in_last (\<lambda>dbi. env_put dbi key v) st)"
  using assms by (auto simp: keeps_absent_def on_env_def store_ok_def)

lemma absent_pos [simp]: "keeps_absent k st (st'\<lparr>mdb_pos := n\<rparr>) = keeps_absent k st st'"
    "keeps_absent k (st\<lparr>mdb_pos := n\<rparr>) st' = keeps_absent k st st'"
  by (simp_all add: keeps_absent_def)

lemma absent_refl [simp]: "keeps_absent k st st"
  by (simp add: keeps_absent_def)

lemma absent_trans: "keeps_absent k a b \<Longrightarrow> keeps_absent k b c \<Longrightarrow> keeps_absent k a c"
  by (simp add: keeps_absent_def)

lemma absent_same: "same_store st st' \<Longrightarrow> keeps_absent k st st'"
  by (auto simp: same_store_def)

lemma absent_put_child:
  assumes "put_child in_last key sc st = Some (ok, st')" "store_ok st" "key \<noteq> k \<or> key = []"
  shows "keeps_absent k st st'"
proof -
  obtain r s1 where r: "put_outcome key st = (r, s1)" by (cases "put_outcome key st")
  then obtain n where s1: "s1 = st\<lparr>mdb_pos := n\<rparr>" using put_outcome_same [OF r] by (auto simp: same_store_def)
  have "r = None \<Longrightarrow> key \<noteq> k" using put_outcome_ok r assms(3) by (auto simp: key_size_ok_def)
  then have "r = None \<Longrightarrow> keeps_absent k st (on_env in_last (\<lambda>dbi. env_put dbi key sc) s1)"
    using absent_on_env [of s1] assms(2) s1 by simp
  then show ?thesis using assms(1) s1
    by (auto simp: put_child_def r split: option.splits mdb_step.splits)
qed

lemma absent_put_parent:
  assumes "put_parent in_last key b st = Some (ok, st')" "store_ok st" "in_last \<Longrightarrow> last_env st ts_dbi key \<noteq> None"
  shows "keeps_absent k st st'"
proof -
  obtain r s1 where r: "put_outcome key st = (r, s1)" by (cases "put_outcome key st")
  then obtain n where s1: "s1 = st\<lparr>mdb_pos := n\<rparr>" using put_outcome_same [OF r] by (auto simp: same_store_def)
  have "store_ok s1" "\<lbrakk>in_last; last_env s1 ts_dbi k = None\<rbrakk> \<Longrightarrow> key \<noteq> k" using assms(2,3) s1 by auto
  then have "keeps_absent k st (on_env in_last (\<lambda>dbi. env_put dbi key b) s1)"
    using absent_on_env [of s1 in_last k key b] s1 by simp
  then show ?thesis using assms(1) s1
    by (auto simp: put_parent_def r split: option.splits mdb_step.splits)
qed

lemma absent_add_child:
  assumes "tm_transaction_store_add_child E tid child ttl now now' st = Some (ok, st')" "store_ok st" "trace_key k"
  shows "keeps_absent k st st'"
proof -
  from assms(1) obtain fd s1 where fd: "find_record E tid st = Some (fd, s1)"
    by (auto simp: tm_transaction_store_add_child_def bind_eq_Some_conv)
  from find_record_same [OF fd] obtain n where s1: "s1 = st\<lparr>mdb_pos := n\<rparr>" by (auto simp: same_store_def)
  have ok1: "store_ok s1" using assms(2) s1 by simp
  note found = find_record_In [OF fd assms(2)]
  have child: "keeps_absent k s s'" if "put_child l key sc s = Some (b, s')" "store_ok s" "child_key E tid child = Some key"
    for l key sc s b s'
    using child_key_dash [OF that(3)] assms(3) by (intro absent_put_child [OF that(1,2)]) auto
  have both: "keeps_absent k s1 st'"
    if "child_key E tid child = Some key" "put_parent l tid v s1 = Some (pok, s2)"
      "if pok then put_child l key sc s2 = Some (ok, st') else st' = s2"
      "(if l then last_env s1 else current_env s1) ts_dbi tid \<noteq> None" for l key v pok s2 sc
    using absent_put_parent [OF that(2) ok1] that(4) absent_trans child [OF _ _ that(1)] that(3)
      put_parent_ok [OF that(2) ok1 that(4)] by (cases pok; cases l) fastforce+
  have "keeps_absent k s1 st'"
  proof (cases fd)
    case Read_error
    then show ?thesis using assms(1) fd by (simp add: tm_transaction_store_add_child_def)
  next
    case Not_found
    then show ?thesis using assms(1) fd ok1 child
      by (fastforce simp: tm_transaction_store_add_child_def bind_eq_Some_conv Let_def split_beta)
  next
    case (In_last b)
    with assms(1) fd obtain key pok s2 sc where "child_key E tid child = Some key"
      "put_parent True tid (set_last_modified b now) s1 = Some (pok, s2)"
      "if pok then put_child True key sc s2 = Some (ok, st') else st' = s2"
      by (auto simp: tm_transaction_store_add_child_def bind_eq_Some_conv Let_def split_beta split: if_splits)
    then show ?thesis by (rule both) (use found(1) [OF In_last] s1 in simp)
  next
    case (In_current b)
    with assms(1) fd obtain key pok s2 sc where "child_key E tid child = Some key"
      "put_parent False tid (set_last_modified b now) s1 = Some (pok, s2)"
      "if pok then put_child False key sc s2 = Some (ok, st') else st' = s2"
      by (auto simp: tm_transaction_store_add_child_def bind_eq_Some_conv Let_def split_beta split: if_splits)
    then show ?thesis by (rule both) (use found(2) [OF In_current] s1 in simp)
  qed
  then show ?thesis using s1 by simp
qed

lemma orphan_absent:
  assumes "orphan tid st" "keeps_absent tid st st'" "store_ok st'" "current_env st' ts_dbi tid = None"
  shows "orphan tid st'"
  using assms by (auto simp: orphan_def keeps_absent_def)

lemma orphan_rotate:
  assumes "orphan tid st" "trace_key tid" "tm_transaction_store_delete_old_transactions now now1 now2 st = (n, st')"
  shows "orphan tid st'"
proof (cases "current_open_ms st < now \<and> 600000 < now - current_open_ms st")
  case True
  have o: "fst (open_environment t env) jaeger_dbi = env jaeger_dbi"
    "fst (open_environment t env) ts_dbi tid = env ts_dbi tid" for t env
    using assms(2) by (auto simp: open_environment_def trace_key_def split: option.split)
  have "store_ok st'" using store_ok_rotate [OF assms(3)] assms(1) by (simp add: orphan_def)
  then show ?thesis using True assms(1,3)
    by (auto simp: orphan_def tm_transaction_store_delete_old_transactions_def
        tm_transaction_store_open_environments_def Let_def split_beta o)
qed (use assms in \<open>auto simp: tm_transaction_store_delete_old_transactions_def\<close>)

lemma orphan_store_step:
  assumes "store_step E st st'" "orphan tid st" "trace_key tid" "current_env st' ts_dbi tid = None"
  shows "orphan tid st'"
proof -
  have ok: "store_ok st" "store_ok st'" using assms(1,2) store_ok_step by (auto simp: orphan_def)
  from assms(1) show ?thesis
  proof cases
    case (put t first d ttl now ok)
    obtain r s1 where r: "put_outcome t st = (r, s1)" by (cases "put_outcome t st")
    then obtain n where s1: "s1 = st\<lparr>mdb_pos := n\<rparr>" using put_outcome_same [OF r] by (auto simp: same_store_def)
    have "keeps_absent tid st st'" using put ok(1) s1
      by (auto simp: tm_transaction_store_put_def r keeps_absent_def store_ok_def Let_def split_beta split: option.splits)
    then show ?thesis using orphan_absent assms ok by blast
  next
    case add_child
    then show ?thesis using orphan_absent absent_add_child assms ok by metis
  next
    case get
    then show ?thesis using orphan_absent absent_same get_same assms ok by metis
  next
    case (mark t)
    obtain r s1 where r: "put_outcome t st = (r, s1)" by (cases "put_outcome t st")
    then obtain n where s1: "s1 = st\<lparr>mdb_pos := n\<rparr>" using put_outcome_same [OF r] by (auto simp: same_store_def)
    have d: "current_jaeger_dbi s1 = jaeger_dbi" using ok(1) s1 by (simp add: store_ok_def)
    show ?thesis
    proof (cases r)
      case None
      then have "st' = st\<lparr>mdb_pos := n, current_env := env_put jaeger_dbi t ''trace'' (current_env st)\<rparr>"
        using mark d s1 by (simp add: tm_transaction_store_mark_traceable_def r)
      then show ?thesis using ok(2) assms(2) by (simp add: orphan_def)
    next
      case (Some e)
      then have "st' = s1" using mark by (simp add: tm_transaction_store_mark_traceable_def r)
      then show ?thesis using s1 assms(2) by (simp add: orphan_def)
    qed
  next
    case rotate
    then show ?thesis using orphan_rotate assms by blast
  qed
qed

lemma orphan_step:
  assumes "without_root E tid (w, g) (w', g')" "orphan tid (store w)" "trace_key tid"
  shows "orphan tid (store w')"
  using assms(1)
proof cases
  case send
  then show ?thesis using orphan_sending assms(2) by blast
next
  case rotate
  then show ?thesis using assms(2,3)
    by (auto simp: delete_old_def set_store_def mtev_now_ms_def Let_def split: prod.split intro: orphan_rotate)
next
  case other
  then show ?thesis using orphan_store_step assms(2,3) by blast
qed

lemma orphan_run:
  assumes "(without_root E tid)\<^sup>*\<^sup>* (w, g) (w', g')" "orphan tid (store w)" "trace_key tid"
  shows "orphan tid (store w')"
  using assms(1)
proof (induction rule: rtranclp_induct2)
  case (step w1 g1 w2 g2)
  then show ?case using orphan_step assms(3) by blast
qed (rule assms(2))

section \<open>Properties\<close>

text \<open>C14: Whatever documents the store holds, a round of sending keeps every record of both environments
  and every bloom filter; a mark disappears only when its root could be read and had been quiet for
  the lookback time; requests are only added to those posted; no metric is lost; and at most 2203
  documents are counted.\<close>

theorem process_jaeger_safe:
  assumes "tm_transaction_store_process_jaeger E w g = Some (n, w', g')"
  defines "st \<equiv> store w" and "st' \<equiv> store w'"
  shows "marks_lost (due_current E w) (current_jaeger_dbi st) (current_env st) (current_env st') \<and>
    marks_lost (due_last E w) (last_jaeger_dbi st) (last_env st) (last_env st') \<and>
    current_bloom st' = current_bloom st \<and> last_bloom st' = last_bloom st \<and>
    (\<exists>ps. posted g' = posted g @ ps) \<and> (\<forall>t. dom (team_metrics w t) \<subseteq> dom (team_metrics w' t)) \<and> n \<le> 2203"
proof -
  from postD [OF assms(1) process_jaeger_step]
  have s: "clean_step (due_current E w) (due_last E w) (w, g) (w', g')" and n: "n \<le> 2203" by auto
  note d = clean_stepD [OF s]
  have "dom (team_metrics w t) \<subseteq> dom (team_metrics w' t)" for t using docs_step_keeps [OF d(1)] by blast
  moreover have "current_bloom st' = current_bloom st" "last_bloom st' = last_bloom st"
    using d(6) by (simp_all add: settled_def st_def st'_def)
  ultimately show ?thesis using d(5,7,8) n unfolding st_def st'_def by blast
qed

text \<open>
  The witness: trace \<open>ab\<close> has a quiet root and a mark, and its root cannot be parsed into a
  transaction; trace \<open>cd\<close> has a mark and no root.
\<close>

definition marked_store :: tstore where
  "marked_store = demo_store\<lparr>current_env :=
     (\<lambda>_. Map.empty)(2 := [''ab'' \<mapsto> stored_root MAGIC_WORD_V4 5 5 600 ''doc''], 3 := [''ab'' \<mapsto> ''trace'', ''cd'' \<mapsto> ''trace''])\<rparr>"

definition marked_world :: "(int, u64 list) world" where
  "marked_world = demo_world\<lparr>store := marked_store\<rparr>"

lemma marked_keys: "keys_of (current_env marked_store) 3 = [''ab'', ''cd'']" "keys_of (last_env marked_store) 3 = []"
proof -
  have "dom (current_env marked_store 3) = {''ab'', ''cd''}" by (auto simp: marked_store_def split: if_splits)
  then show "keys_of (current_env marked_store) 3 = [''ab'', ''cd'']" by (simp add: keys_of_def)
qed (simp add: marked_store_def demo_store_def keys_of_def)

lemma marked_root_fields:
  "root_ok (stored_root MAGIC_WORD_V4 5 5 600 ''doc'')" "root_last_modified (stored_root MAGIC_WORD_V4 5 5 600 ''doc'') = 5"
  "unpack demo_env (root_magic (stored_root MAGIC_WORD_V4 5 5 600 ''doc'')) (root_data (stored_root MAGIC_WORD_V4 5 5 600 ''doc'')) = Some ''doc''"
  by (simp_all add: stored_root_fields MAGIC_WORD_V4_def MAGIC_WORD_V4_COMPRESS_def unpack_def)

lemma marked_round:
  "\<exists>w' g'. tm_transaction_store_process_jaeger demo_env marked_world demo_jaeger = Some (1, w', g') \<and>
     current_env (store w') 3 = [''cd'' \<mapsto> ''trace'']"
proof -
  have sel: "store marked_world = marked_store" "clock marked_world n = 1000000"
    "current_dbi marked_store = 2" "last_dbi marked_store = 2" "current_jaeger_dbi marked_store = 3"
    "last_jaeger_dbi marked_store = 3" "mdb_outcomes marked_store n = None" "default_lookback_secs marked_store = 300" for n
    by (simp_all add: marked_world_def marked_store_def demo_store_def)
  have env: "current_env marked_store 3 = [''ab'' \<mapsto> ''trace'', ''cd'' \<mapsto> ''trace'']"
    "current_env marked_store 2 = [''ab'' \<mapsto> stored_root MAGIC_WORD_V4 5 5 600 ''doc'']"
    by (simp_all add: marked_store_def)
  have doc: "jo_parse demo_env s = Some (JStr s)" "jo_get demo_env (Some (JStr s)) k = None" for s k
    by (simp_all add: demo_env_def)
  have keys: "keys_of (current_env marked_store) 3 = [''ab'', ''cd'']" "keys_of (last_env marked_store) 3 = []"
    by (rule marked_keys)+
  show ?thesis
    by (simp add: tm_transaction_store_process_jaeger_def mtev_now_ms_def jaeger_env_def sel keys set_store_def
        jaeger_key_def marked_root_def env marked_root_fields doc send_trace_def unmark_trace_def env_del_def
        JAEGER_MAX_COUNT_def)
qed

theorem process_jaeger_safe_witness:
  "\<exists>w' g'. tm_transaction_store_process_jaeger demo_env marked_world demo_jaeger = Some (1, w', g') \<and>
     current_env (store w') 3 = [''cd'' \<mapsto> ''trace''] \<and> due_current demo_env marked_world ''ab''"
proof -
  obtain w' g' where r: "tm_transaction_store_process_jaeger demo_env marked_world demo_jaeger = Some (1, w', g')"
    and c: "current_env (store w') 3 = [''cd'' \<mapsto> ''trace'']" using marked_round by auto
  have "current_env marked_store 3 ''ab'' = Some ''trace''" "store marked_world = marked_store"
    "current_jaeger_dbi marked_store = 3"
    by (simp_all add: marked_store_def marked_world_def demo_store_def)
  with process_jaeger_safe [OF r] c have "due_current demo_env marked_world ''ab''"
    by (auto simp: marks_lost_def dest!: spec [of _ 3] spec [of _ "''ab''"])
  with r c show ?thesis by blast
qed

text \<open>C40: A trace that is marked while its root is not in the current environment, because the root was
  stored before the last rotation, is never sent. However many rounds of sending, rotations and other
  operations follow, as long as the root document does not come again every round is the round that
  leaves the mark of this trace out of its walks, since the second lookup reads the same environment
  again; and the marks stay as they are.\<close>

theorem orphan_mark_stays:
  assumes "store_ok (store w)" "trace_key tid" "current_env (store w) ts_dbi tid = None"
    and "current_env (store w) jaeger_dbi tid \<in> {None, Some ''trace''}" "last_env (store w) jaeger_dbi tid = None"
    and "(without_root E tid)\<^sup>*\<^sup>* (w, g) (w', g')"
  shows "tm_transaction_store_process_jaeger E w' h = process_jaeger_except E tid w' h \<and>
    (\<forall>n w2 h2. tm_transaction_store_process_jaeger E w' h = Some (n, w2, h2) \<longrightarrow>
       current_env (store w2) jaeger_dbi tid = current_env (store w') jaeger_dbi tid \<and>
       last_env (store w2) jaeger_dbi tid = last_env (store w') jaeger_dbi tid)"
proof -
  have "orphan tid (store w)" using assms(1,3-5) by (simp add: orphan_def)
  from orphan_run [OF assms(6) this assms(2)] have "orphan tid (store w')" .
  then show ?thesis using process_jaeger_passes orphan_sending by blast
qed

definition orphan_world :: "(int, u64 list) world" where
  "orphan_world = set_store (tm_transaction_store_mark_traceable ''ef'' demo_store) demo_world"

lemma orphan_store:
  "store orphan_world = demo_store\<lparr>mdb_pos := 1, current_env := (\<lambda>_. Map.empty)(3 := [''ef'' \<mapsto> ''trace''])\<rparr>"
  by (simp add: orphan_world_def set_store_def tm_transaction_store_mark_traceable_def put_outcome_def demo_store_def
      key_size_ok_def env_put_def)

lemma orphan_round:
  "\<exists>n w2 g2. tm_transaction_store_process_jaeger demo_env orphan_world demo_jaeger = Some (n, w2, g2)"
proof -
  have keys: "keys_of ((\<lambda>_. Map.empty)(3 := [''ef'' \<mapsto> ''trace''])) 3 = [''ef'']" "keys_of (\<lambda>_. Map.empty) 3 = []"
    by (simp_all add: keys_of_def)
  show ?thesis
    by (simp add: tm_transaction_store_process_jaeger_def mtev_now_ms_def jaeger_env_def orphan_store set_store_def
        demo_store_def keys jaeger_key_def marked_root_def)
qed

theorem orphan_mark_stays_witness:
  "(without_root demo_env ''ef'')\<^sup>*\<^sup>* (demo_world, demo_jaeger) (orphan_world, demo_jaeger) \<and>
   (\<exists>n w2 g2. tm_transaction_store_process_jaeger demo_env orphan_world demo_jaeger = Some (n, w2, g2) \<and>
      process_jaeger_except demo_env ''ef'' orphan_world demo_jaeger = Some (n, w2, g2) \<and>
      current_env (store w2) jaeger_dbi ''ef'' = Some ''trace'')"
proof -
  have st: "store demo_world = demo_store" by (simp add: demo_world_def)
  have "without_root demo_env ''ef'' (demo_world, demo_jaeger) (orphan_world, demo_jaeger)"
  proof (rule without_root.other)
    show "store_step demo_env (store demo_world) (store orphan_world)"
      unfolding st by (rule store_step.mark [of "''ef''"]) (simp add: orphan_world_def set_store_def)
    show "current_env (store orphan_world) ts_dbi ''ef'' = None" by (simp add: orphan_store ts_dbi_def)
  qed
  then have run: "(without_root demo_env ''ef'')\<^sup>*\<^sup>* (demo_world, demo_jaeger) (orphan_world, demo_jaeger)" by blast
  obtain n w2 g2 where r: "tm_transaction_store_process_jaeger demo_env orphan_world demo_jaeger = Some (n, w2, g2)"
    using orphan_round by auto
  have c: "current_env demo_store d k = None" "last_env demo_store d k = None" for d k by (simp_all add: demo_store_def)
  have t: "trace_key ''ef''" by (simp add: trace_key_def open_ms_key_def)
  have m: "current_env (store orphan_world) jaeger_dbi ''ef'' = Some ''trace''" by (simp add: orphan_store jaeger_dbi_def)
  have a: "store_ok (store demo_world)" "current_env (store demo_world) ts_dbi ''ef'' = None"
    "current_env (store demo_world) jaeger_dbi ''ef'' \<in> {None, Some ''trace''}"
    "last_env (store demo_world) jaeger_dbi ''ef'' = None"
    unfolding st using demo_store_ok c by simp_all
  have "tm_transaction_store_process_jaeger demo_env orphan_world demo_jaeger =
      process_jaeger_except demo_env ''ef'' orphan_world demo_jaeger"
    "current_env (store w2) jaeger_dbi ''ef'' = Some ''trace''"
    using orphan_mark_stays [OF a(1) t a(2-4) run, of demo_jaeger] r m by auto
  with run r show ?thesis by auto
qed

text \<open>C23: While the clock moves by less than ten minutes the loop of \<open>transaction_clean\<close> ends after its
  second round at the latest.\<close>

theorem transaction_clean_two_rounds:
  assumes "\<forall>m \<ge> ticks w. lo \<le> unat (clock w m) \<and> unat (clock w m) \<le> lo + 600000"
  shows "transaction_clean E w g = do {
    (n1, w, g) \<leftarrow> tm_transaction_store_process_jaeger E w g;
    let (moved, w) = delete_old w;
    if moved < 500 then Some (w, g)
    else do {
      (n2, w, g) \<leftarrow> tm_transaction_store_process_jaeger E w g;
      Some (snd (delete_old w), g) } }"
proof (cases "tm_transaction_store_process_jaeger E w g")
  case None
  then show ?thesis by (subst transaction_clean.simps) simp
next
  case (Some r)
  obtain n1 w1 g1 where r: "r = (n1, w1, g1)" by (cases r) auto
  have s1: "ticks w \<le> ticks w1" "clock w1 = clock w"
    using postD [OF Some process_jaeger_step] r clean_stepD(2,4) by fastforce+
  obtain k w2 where k: "delete_old w1 = (k, w2)" by (cases "delete_old w1")
  have second: "transaction_clean E w2 g1 = do {
      (n2, w, g) \<leftarrow> tm_transaction_store_process_jaeger E w2 g1; Some (snd (delete_old w), g) }" if "\<not> k < 500"
  proof (cases "tm_transaction_store_process_jaeger E w2 g1")
    case None
    then show ?thesis by (subst transaction_clean.simps) simp
  next
    case (Some r2)
    obtain n2 w3 g3 where r2: "r2 = (n2, w3, g3)" by (cases r2) auto
    have "delete_old_fresh w2 \<and> ticks w1 \<le> ticks w2 \<and> clock w2 = clock w1"
      using delete_old_makes_fresh [of w1 lo] k that assms s1 by simp
    moreover have "ticks w2 \<le> ticks w3" "clock w3 = clock w2" "settled (store w3) = settled (store w2)"
      using postD [OF Some process_jaeger_step] r2 clean_stepD(2,4,6) by fastforce+
    ultimately have "delete_old_fresh w3" by (auto simp: delete_old_fresh_def settled_def)
    from delete_old_not_fresh [OF this] show ?thesis using Some r2
      by (subst transaction_clean.simps) (simp add: split_beta Let_def)
  qed
  show ?thesis using Some r k second
    by (subst transaction_clean.simps) simp
qed

theorem transaction_clean_two_rounds_witness:
  "\<exists>w' g'. transaction_clean demo_env orphan_world demo_jaeger = Some (w', g')"
proof -
  have c: "clock orphan_world n = 1000000" for n by (simp add: orphan_world_def set_store_def)
  obtain n w2 g2 where r: "tm_transaction_store_process_jaeger demo_env orphan_world demo_jaeger = Some (n, w2, g2)"
    using orphan_round by auto
  have o: "current_open_ms (store w2) = 0" "clock w2 = clock orphan_world"
    using postD [OF r process_jaeger_step] clean_stepD(2,6)
    by (fastforce simp: settled_def orphan_store demo_store_def)+
  have "settled (store w2) = settled (store orphan_world)"
    using postD [OF r process_jaeger_step] clean_stepD(6) by fastforce
  then have d: "current_dbi (store w2) = 2" "current_jaeger_dbi (store orphan_world) = 3"
    by (simp_all add: settled_def orphan_store demo_store_def)
  have "clean_step (due_current demo_env orphan_world) (due_last demo_env orphan_world) (orphan_world, demo_jaeger) (w2, g2)"
    using postD [OF r process_jaeger_step] by simp
  from clean_stepD(7) [OF this] d have "current_env (store w2) 2 k = None" for k
    by (auto simp: marks_lost_def orphan_store dest: spec [of _ 2] spec [of _ k])
  then have "current_env (store w2) 2 = Map.empty" by auto
  then have "fst (delete_old w2) = 0"
    using o d by (auto simp: delete_old_def mtev_now_ms_def Let_def tm_transaction_store_delete_old_transactions_def
        split: prod.splits)
  then show ?thesis
    using transaction_clean_two_rounds [of orphan_world 1000000 demo_env demo_jaeger] r c
    by (simp add: split_beta Let_def)
qed

end
