(* ===== verification/TM_Flush.thy ===== *)
theory TM_Flush
  imports TM_Path TM_Metric
begin

text \<open>
  Flushing: \<open>tm_flush_team_metrics\<close> and its helpers (tm_metric.c), and \<open>journal_output_metrics\<close>
  (tm_circonus.c). A flush walks the metrics of every team. A host level metric is written to the
  team's JSON buffer, which goes to the journal in batches; an aggregate one goes to Kafka on its
  own and is reset. A metric that has been flushed and has been idle for ten minutes is deleted.
  The flush runs alone here.
\<close>

section \<open>The text of a metric\<close>

text \<open>\<open>%g\<close> of a double is the library's \<open>d_print\<close>; \<open>MAX ((double)count, 1.0)\<close> is exact.\<close>

definition next_jitter :: "bool \<Rightarrow> ('d, 'h) world \<Rightarrow> u64 \<times> ('d, 'h) world" where
  "next_jitter jitter w =
     (if jitter then (of_nat (rand_seq w (rand_pos w) mod 30000), w\<lparr>rand_pos := rand_pos w + 1\<rparr>) else (0, w))"

definition owner_json :: "('d, 'h) metric_value \<Rightarrow> string" where
  "owner_json v = ''\"_owner\": '' @ dec (unat (owner_id v)) @ '',''"

definition ts_json :: "u64 \<Rightarrow> string" where
  "ts_json ts = ''\"_ts\": '' @ dec (unat ts)"

definition value_json :: "('j, 'd, 'h) env \<Rightarrow> ('d, 'h) metric_value \<Rightarrow> bool \<Rightarrow> u64 \<Rightarrow> string" where
  "value_json E v resolve_avg ts =
     (case metric v of
        Number d \<Rightarrow>
          ''\"_type\":\"n\",'' @ owner_json v @
          (if resolve_avg then ''\"_value\": '' @ d_print E (d_div E d (d_int E (max (sint (mcount v)) 1))) @ '',''
           else ''\"_count\": '' @ int_dec (sint (mcount v)) @ '',\"_value\": '' @ d_print E d @ '','') @
          ts_json ts
      | TextValue s \<Rightarrow>
          ''\"_type\":\"s\",'' @ owner_json v @ json_escape_str ''\"_value\": \"'' s @ ''\",'' @ ts_json ts
      | Integer i \<Rightarrow>
          ''\"_type\":\"L\",\"_value\": '' @ dec (unat i) @ '','' @ owner_json v @ ts_json ts
      | Histogram h \<Rightarrow>
          ''\"_type\":\"h\",'' @ ts_json ts @ '','' @ owner_json v @ ''\"_value\":\"'' @ h_b64 E h @ ''\"'')"

definition clear_value :: "('j, 'd, 'h) env \<Rightarrow> ('d, 'h) metric_value \<Rightarrow> ('d, 'h) metric_value" where
  "clear_value E v =
     (case metric v of
        Number _ \<Rightarrow> v\<lparr>mcount := 0, metric := Number (d_zero E)\<rparr>
      | TextValue _ \<Rightarrow> v
      | Integer _ \<Rightarrow> v\<lparr>metric := Integer 0\<rparr>
      | Histogram _ \<Rightarrow> v\<lparr>metric := Histogram (h_empty E)\<rparr>)"

definition metric_to_json ::
  "('j, 'd, 'h) env \<Rightarrow> string \<Rightarrow> metric_key \<Rightarrow> ('d, 'h) metric_value \<Rightarrow> bool \<Rightarrow> bool \<Rightarrow> bool \<Rightarrow> ('d, 'h) world \<Rightarrow>
     string \<times> ('d, 'h) metric_value \<times> ('d, 'h) world" where
  "metric_to_json E json k v resolve_avg reset jitter w =
     (let (j, w) = next_jitter jitter w
      in (json_escape_str (json @ ''\"'') (metric_name k) @ ''\":{'' @
            value_json E v resolve_avg (timestamp k + j) @ ''}'',
          if reset then clear_value E v else v, w))"

section \<open>The journal\<close>

definition journal_message :: "('j, 'd, 'h) env \<Rightarrow> string \<Rightarrow> string \<Rightarrow> string" where
  "journal_message E url json = ''{\"url\":\"'' @ url @ ''\",\"data\":\"'' @ b64_encode E json @ ''\"}''"

text \<open>\<open>strlen\<close> of a missing submission URL is undefined.\<close>

definition journal_output_metrics ::
  "('j, 'd, 'h) env \<Rightarrow> string \<Rightarrow> nat \<Rightarrow> string option \<Rightarrow> ('d, 'h) world \<Rightarrow> (bool \<times> ('d, 'h) world) ub" where
  "journal_output_metrics E json count url w =
     (if \<not> journal_open w then Some (False, w)
      else if length json < 3 \<or> count = 0 then Some (True, w)
      else do {
        u \<leftarrow> url;
        let ok = journal_results w (journal_pos w);
        let w = w\<lparr>journal_pos := journal_pos w + 1\<rparr>;
        Some (ok, if ok then w\<lparr>journal := journal_message E u json # journal w\<rparr> else w) })"

section \<open>One metric\<close>

text \<open>
  What the walk over a team's metrics keeps: the JSON buffer and whether it needs a comma, the
  metrics in it (\<open>json_expired_list\<close>) and those to delete (\<open>kafka_expired_list\<close>). Both lists have
  room for every metric of the table.
\<close>

record flush =
  fl_json :: string
  fl_comma :: bool
  fl_sent :: "metric_key list"
  fl_dead :: "metric_key list"

definition TWO_MB :: nat where "TWO_MB = 2097152"

definition set_value :: "string \<Rightarrow> metric_key \<Rightarrow> ('d, 'h) metric_value \<Rightarrow> ('d, 'h) world \<Rightarrow> ('d, 'h) world" where
  "set_value team k v w =
     (case teams w team of
        None \<Rightarrow> w
      | Some td \<Rightarrow> put_team team (td\<lparr>hash := (hash td)(k \<mapsto> v)\<rparr>) w)"

definition expired :: "u64 \<Rightarrow> ('d, 'h) metric_value \<Rightarrow> bool" where
  "expired now v =
     (flushed_ms v > 0 \<and> flushed_ms v \<ge> last_seen v \<and> now > last_seen v \<and> now - last_seen v > 600000)"

definition already_flushed :: "('d, 'h) metric_value \<Rightarrow> bool" where
  "already_flushed v = (flushed_ms v > 0 \<and> flushed_ms v \<ge> last_seen v)"

definition quiet :: "u64 \<Rightarrow> ('d, 'h) metric_value \<Rightarrow> bool" where
  "quiet now v = (now > last_seen v \<and> now - last_seen v > 10000)"

definition json_due :: "u64 \<Rightarrow> metric_key \<Rightarrow> ('d, 'h) metric_value \<Rightarrow> bool" where
  "json_due now k v =
     (immediate_flush k \<or> (now > timestamp k \<and> now - timestamp k > 1000 \<and> quiet now v))"

definition flush_json ::
  "('j, 'd, 'h) env \<Rightarrow> metric_key \<Rightarrow> ('d, 'h) metric_value \<Rightarrow> flush \<Rightarrow> ('d, 'h) world \<Rightarrow> flush \<times> ('d, 'h) world" where
  "flush_json E k v fl w =
     (let (js, v', w) = metric_to_json E (fl_json fl @ (if fl_comma fl then '','' else [])) k v True False True w
      in (fl\<lparr>fl_json := js, fl_comma := True, fl_sent := fl_sent fl @ [k]\<rparr>, w))"

definition aggregate_topic :: string where "aggregate_topic = ''tracemate_aggregates''"

definition aggregate_head :: string where
  "aggregate_head = ''{\"processor\":{\"event\": \"aggregate\"},\"context\":{},''"

definition send_aggregate_to_kafka ::
  "string \<Rightarrow> string \<Rightarrow> ('d, 'h) world \<Rightarrow> (bool \<times> ('d, 'h) world) ub" where
  "send_aggregate_to_kafka json key w = tm_kafka_produce aggregate_topic json key w"

text \<open>The value is reset before it is sent, and stays so when sending fails.\<close>

definition flush_aggregate ::
  "('j, 'd, 'h) env \<Rightarrow> string \<Rightarrow> u64 \<Rightarrow> metric_key \<Rightarrow> ('d, 'h) metric_value \<Rightarrow> ('d, 'h) world \<Rightarrow> ('d, 'h) world ub" where
  "flush_aggregate E team now k v w = do {
     let (js, v, w) = metric_to_json E aggregate_head k v False True False w;
     let v = reset_value E v;
     (ok, w) \<leftarrow> send_aggregate_to_kafka (js @ ''}'') (metric_name k) (set_value team k v w);
     Some (if ok then set_value team k (v\<lparr>flushed_ms := now\<rparr>) w else w) }"

text \<open>The first component says whether the end of the loop body is reached (no \<open>continue\<close>).\<close>

definition flush_metric ::
  "('j, 'd, 'h) env \<Rightarrow> string \<Rightarrow> u64 \<Rightarrow> metric_key \<Rightarrow> flush \<Rightarrow> ('d, 'h) world \<Rightarrow> (bool \<times> flush \<times> ('d, 'h) world) ub" where
  "flush_metric E team now k fl w = do {
     td \<leftarrow> the_team w team;
     v \<leftarrow> hash td k;
     (if expired now v then
        Some (False, fl\<lparr>fl_dead := fl_dead fl @ [k]\<rparr>, set_value team k (v\<lparr>scheduled_for_destruction := True\<rparr>) w)
      else if already_flushed v then Some (False, fl, w)
      else if \<not> aggregate k then
        Some (True, if json_due now k v then flush_json E k v fl w else (fl, w))
      else if quiet now v then do {
        w \<leftarrow> flush_aggregate E team now k v w;
        Some (True, fl, w) }
      else Some (True, fl, w)) }"

section \<open>A team\<close>

definition mark_value :: "u64 \<Rightarrow> ('d, 'h) metrics \<Rightarrow> metric_key \<Rightarrow> ('d, 'h) metrics" where
  "mark_value now m k = (case m k of None \<Rightarrow> m | Some v \<Rightarrow> m(k \<mapsto> v\<lparr>flushed_ms := now\<rparr>))"

text \<open>Closing the buffer and writing it to the journal; on success its metrics are flushed.\<close>

definition flush_buffer ::
  "('j, 'd, 'h) env \<Rightarrow> string \<Rightarrow> flush \<Rightarrow> ('d, 'h) world \<Rightarrow> (bool \<times> ('d, 'h) world) ub" where
  "flush_buffer E team fl w = do {
     td \<leftarrow> the_team w team;
     (ok, w) \<leftarrow> journal_output_metrics E (fl_json fl @ ''}'') (length (fl_sent fl)) (metric_submission_url td) w;
     if ok then do {
       let (now, w) = mtev_now_ms w;
       td \<leftarrow> the_team w team;
       Some (True, put_team team (td\<lparr>hash := foldl (mark_value now) (hash td) (fl_sent fl)\<rparr>) w) }
     else Some (False, w) }"

definition flush_batch ::
  "('j, 'd, 'h) env \<Rightarrow> string \<Rightarrow> flush \<Rightarrow> ('d, 'h) world \<Rightarrow> (bool \<times> flush \<times> ('d, 'h) world) ub" where
  "flush_batch E team fl w =
     (if TWO_MB < length (fl_json fl) then do {
        (ok, w) \<leftarrow> flush_buffer E team fl w;
        Some (ok, if ok then fl\<lparr>fl_json := ''{'', fl_comma := False, fl_sent := []\<rparr> else fl, w) }
      else Some (True, fl, w))"

text \<open>The walk; \<open>False\<close> is the jump to \<open>next_team\<close>.\<close>

fun flush_metrics ::
  "('j, 'd, 'h) env \<Rightarrow> string \<Rightarrow> u64 \<Rightarrow> metric_key list \<Rightarrow> flush \<Rightarrow> ('d, 'h) world \<Rightarrow> (bool \<times> flush \<times> ('d, 'h) world) ub" where
  "flush_metrics E team now [] fl w = Some (True, fl, w)"
| "flush_metrics E team now (k # ks) fl w = do {
     (full, fl, w) \<leftarrow> flush_metric E team now k fl w;
     (go, fl, w) \<leftarrow> (if full then flush_batch E team fl w else Some (True, fl, w));
     if go then flush_metrics E team now ks fl w else Some (False, fl, w) }"

section \<open>Regular expressions of the squashers\<close>

definition regex_json :: "string \<Rightarrow> string \<Rightarrow> string \<Rightarrow> string" where
  "regex_json service regex replace =
     ''{\"processor\":{\"event\": \"regex\"},\"context\":{\"service\":{\"name\": \"'' @ service @
     ''\"}},\"regex\":\"'' @ regex @ ''\",\"replace\":\"'' @ replace @ ''\"}''"

text \<open>The key has a buffer of 1024 bytes; \<open>snprintf\<close> returns its full length.\<close>

definition send_regex_to_kafka ::
  "string \<Rightarrow> string \<Rightarrow> string \<Rightarrow> ('d, 'h) world \<Rightarrow> (bool \<times> ('d, 'h) world) ub" where
  "send_regex_to_kafka service regex replace w =
     (if regex = [] then Some (True, w)
      else do {
        let key = service @ ''|'' @ regex;
        key \<leftarrow> (if length key < 1024 then Some key
                else if length key = 1024 then Some (take 1023 key @ [NUL]) else None);
        tm_kafka_produce ''tracemate_regexes'' (regex_json service regex replace) key w })"

text \<open>A regex is published when the service has a table of them that does not hold it yet.\<close>

definition new_regex :: "('d, 'h) team_data \<Rightarrow> string \<Rightarrow> string \<Rightarrow> bool" where
  "new_regex td service regex =
     (case squash_regexes td service of None \<Rightarrow> False | Some x \<Rightarrow> x regex = None)"

definition publish_regex ::
  "('d, 'h) team_data \<Rightarrow> string \<Rightarrow> (string \<rightharpoonup> string) \<Rightarrow> ('d, 'h) world \<Rightarrow> string \<Rightarrow> ('d, 'h) world ub" where
  "publish_regex td service regexes w regex =
     (if new_regex td service regex then do {
        replace \<leftarrow> regexes regex;
        (ok, w) \<leftarrow> send_regex_to_kafka service regex replace w;
        Some w }
      else Some w)"

definition publish_service ::
  "('j, 'd, 'h) env \<Rightarrow> ('d, 'h) team_data \<Rightarrow> ('d, 'h) world \<Rightarrow> string \<Rightarrow> ('d, 'h) world ub" where
  "publish_service E td w service = do {
     ps \<leftarrow> path_squashers td service;
     regexes \<leftarrow> tm_path_squasher_get_regexes (pcre_compile E) ps;
     foldM (publish_regex td service regexes) w (hash_order E (dom regexes)) }"

definition publish_regexes ::
  "('j, 'd, 'h) env \<Rightarrow> string \<Rightarrow> ('d, 'h) world \<Rightarrow> ('d, 'h) world ub" where
  "publish_regexes E team w = do {
     td \<leftarrow> the_team w team;
     foldM (publish_service E td) w (hash_order E (dom (path_squashers td))) }"

section \<open>The flush\<close>

definition delete_metrics :: "string \<Rightarrow> metric_key list \<Rightarrow> ('d, 'h) world \<Rightarrow> ('d, 'h) world ub" where
  "delete_metrics team ks w = do {
     td \<leftarrow> the_team w team;
     Some (put_team team (td\<lparr>hash := hash td |` (- set ks)\<rparr>) w) }"

definition flush_start :: flush where
  "flush_start = \<lparr>fl_json = ''{'', fl_comma = False, fl_sent = [], fl_dead = []\<rparr>"

definition flush_team :: "('j, 'd, 'h) env \<Rightarrow> u64 \<Rightarrow> ('d, 'h) world \<Rightarrow> string \<Rightarrow> ('d, 'h) world ub" where
  "flush_team E now w team = do {
     td \<leftarrow> the_team w team;
     (go, fl, w) \<leftarrow> flush_metrics E team now (metric_order E (dom (hash td))) flush_start w;
     w \<leftarrow> (if go then do {
             (ok, w) \<leftarrow> flush_buffer E team fl w;
             publish_regexes E team w }
           else Some w);
     delete_metrics team (fl_dead fl) w }"

definition tm_flush_team_metrics :: "('j, 'd, 'h) env \<Rightarrow> ('d, 'h) world \<Rightarrow> ('d, 'h) world ub" where
  "tm_flush_team_metrics E w =
     (let (now, w) = mtev_now_ms w in foldM (flush_team E now) w (hash_order E (dom (teams w))))"

section \<open>What happens to a metric\<close>

definition metric_text :: "('j, 'd, 'h) env \<Rightarrow> metric_key \<Rightarrow> ('d, 'h) metric_value \<Rightarrow> u64 \<Rightarrow> string" where
  "metric_text E k v j =
     json_escape_str ''\"'' (metric_name k) @ ''\":{'' @ value_json E v True (timestamp k + j) @ ''}''"

definition aggregate_message :: "('j, 'd, 'h) env \<Rightarrow> metric_key \<Rightarrow> ('d, 'h) metric_value \<Rightarrow> string" where
  "aggregate_message E k v =
     json_escape_str (aggregate_head @ ''\"'') (metric_name k) @ ''\":{'' @ value_json E v False (timestamp k) @ ''}}''"

text \<open>The metric's text stands in a message the journal has accepted.\<close>

definition journalled :: "('j, 'd, 'h) env \<Rightarrow> ('d, 'h) world \<Rightarrow> metric_key \<Rightarrow> ('d, 'h) metric_value \<Rightarrow> bool" where
  "journalled E w k v =
     (\<not> aggregate k \<and>
      (\<exists>url json j. journal_message E url json \<in> set (journal w) \<and> sublist (metric_text E k v j) json))"

definition aggregated ::
  "('j, 'd, 'h) env \<Rightarrow> u64 \<Rightarrow> ('d, 'h) world \<Rightarrow> metric_key \<Rightarrow> ('d, 'h) metric_value \<Rightarrow> ('d, 'h) metric_value \<Rightarrow> bool" where
  "aggregated E now w k v v' =
     (aggregate k \<and> quiet now v \<and>
      (\<exists>f. v' = (reset_value E v)\<lparr>flushed_ms := f\<rparr> \<and>
         (f = 0 \<or> f = now \<and> (aggregate_topic, aggregate_message E k v, metric_name k) \<in> set (produced w))))"

definition fate ::
  "('j, 'd, 'h) env \<Rightarrow> u64 \<Rightarrow> metric_key set \<Rightarrow> ('d, 'h) world \<Rightarrow> metric_key \<Rightarrow>
     ('d, 'h) metric_value option \<Rightarrow> ('d, 'h) metric_value option \<Rightarrow> bool" where
  "fate E now dead w k o1 o2 =
     (case o1 of
        None \<Rightarrow> o2 = None
      | Some v \<Rightarrow> (\<exists>v'. o2 = Some v' \<and>
          (v' = v \<or> k \<in> dead \<or> (\<exists>f. v' = v\<lparr>flushed_ms := f\<rparr> \<and> journalled E w k v) \<or> aggregated E now w k v v')))"

text \<open>A step of the flush touches this team's metrics, the journal and what is published.\<close>

definition flush_step :: "string \<Rightarrow> ('d, 'h) world \<Rightarrow> ('d, 'h) world \<Rightarrow> bool" where
  "flush_step team w w' =
     ((\<exists>td m. teams w team = Some td \<and> teams w' = (teams w)(team \<mapsto> td\<lparr>hash := m\<rparr>)) \<and>
      same_process w w' \<and> set (produced w) \<subseteq> set (produced w') \<and> set (journal w) \<subseteq> set (journal w'))"

lemma flush_step_refl: "teams w team = Some td \<Longrightarrow> flush_step team w w"
  by (auto simp: flush_step_def intro!: exI [of _ "hash td"])

lemma flush_step_trans: "flush_step team a b \<Longrightarrow> flush_step team b c \<Longrightarrow> flush_step team a c"
  by (auto simp: flush_step_def intro: same_process_trans) (rule exI, rule refl)

lemma fate_mono: "fate E now dead w k o1 o2 \<Longrightarrow> flush_step team w w' \<Longrightarrow> dead \<subseteq> dead' \<Longrightarrow> fate E now dead' w' k o1 o2"
  by (auto simp: fate_def flush_step_def journalled_def aggregated_def split: option.splits) blast+

lemma set_value_eq: "teams w team = Some td \<Longrightarrow>
    set_value team k v w = w\<lparr>teams := (teams w)(team \<mapsto> td\<lparr>hash := (hash td)(k \<mapsto> v)\<rparr>)\<rparr>"
  by (simp add: set_value_def put_team_def)

lemma set_value_step:
  assumes "teams w team = Some td"
  shows "flush_step team w (set_value team k v w)"
    and "team_metrics (set_value team k v w) team = (team_metrics w team)(k \<mapsto> v)"
proof -
  show "flush_step team w (set_value team k v w)"
    using assms by (force simp: set_value_eq flush_step_def same_process_def)
  show "team_metrics (set_value team k v w) team = (team_metrics w team)(k \<mapsto> v)"
    using assms by (simp add: set_value_eq team_metrics_def)
qed

lemma same_teams_step:
  "teams w' = teams w \<Longrightarrow> teams w team = Some td \<Longrightarrow> same_process w w' \<Longrightarrow>
     set (produced w) \<subseteq> set (produced w') \<Longrightarrow> set (journal w) \<subseteq> set (journal w') \<Longrightarrow>
     flush_step team w w' \<and> team_metrics w' team = team_metrics w team"
  by (auto simp: flush_step_def team_metrics_def intro!: exI [of _ "hash td"])

lemma produce_step:
  "tm_kafka_produce topic payload key w = Some (ok, w') \<Longrightarrow> teams w team = Some td \<Longrightarrow>
     flush_step team w w' \<and> team_metrics w' team = team_metrics w team \<and>
     (ok \<longrightarrow> (topic, payload, key) \<in> set (produced w'))"
  by (drule produce_form) (auto simp: flush_step_def team_metrics_def same_process_def intro!: exI [of _ "hash td"])

lemma flush_step_team: "flush_step team w w' \<Longrightarrow> \<exists>td td'. teams w team = Some td \<and> teams w' team = Some td'"
  by (auto simp: flush_step_def)

lemma reset_clear: "reset_value E (clear_value E v) = reset_value E v"
  by (cases "metric v") (simp_all add: reset_value_def clear_value_def)

section \<open>The walk\<close>

definition walk_inv ::
  "('j, 'd, 'h) env \<Rightarrow> string \<Rightarrow> u64 \<Rightarrow> ('d, 'h) metrics \<Rightarrow> metric_key list \<Rightarrow> flush \<Rightarrow> ('d, 'h) world \<Rightarrow> bool" where
  "walk_inv E team now m0 ks fl w =
     ((\<forall>k \<in> set ks. team_metrics w team k = m0 k) \<and>
      (\<forall>k. fate E now (set (fl_dead fl)) w k (m0 k) (team_metrics w team k)) \<and>
      (\<forall>k \<in> set (fl_dead fl). \<exists>v. m0 k = Some v \<and> expired now v) \<and>
      (\<forall>k \<in> set (fl_sent fl). k \<notin> set ks \<and> \<not> aggregate k \<and>
         (\<exists>v j. m0 k = Some v \<and> team_metrics w team k = Some v \<and> sublist (metric_text E k v j) (fl_json fl))))"

lemma flush_json_form:
  "flush_json E k v fl w = (fl', w') \<Longrightarrow>
     \<exists>j n. w' = w\<lparr>rand_pos := n\<rparr> \<and> fl_dead fl' = fl_dead fl \<and> fl_sent fl' = fl_sent fl @ [k] \<and>
       fl_json fl' = fl_json fl @ (if fl_comma fl then '','' else []) @ metric_text E k v j"
  by (auto simp: flush_json_def metric_to_json_def next_jitter_def metric_text_def json_escape_str_spec Let_def)

lemma sublist_grow: "sublist a b \<Longrightarrow> sublist a (b @ c)"
  by (erule sublist_order.order.trans) (rule sublist_append_rightI)

lemma flush_aggregate_form:
  assumes "flush_aggregate E team now k v w = Some w'" "teams w team = Some td"
  shows "flush_step team w w' \<and>
    (\<exists>v'. team_metrics w' team = (team_metrics w team)(k \<mapsto> v') \<and>
       (\<exists>f. v' = (reset_value E v)\<lparr>flushed_ms := f\<rparr> \<and>
         (f = 0 \<or> f = now \<and> (aggregate_topic, aggregate_message E k v, metric_name k) \<in> set (produced w'))))"
proof -
  let ?v = "reset_value E v"
  let ?msg = "aggregate_message E k v"
  from assms obtain ok w1 where p: "tm_kafka_produce aggregate_topic ?msg (metric_name k) (set_value team k ?v w) = Some (ok, w1)"
    and w': "w' = (if ok then set_value team k (?v\<lparr>flushed_ms := now\<rparr>) w1 else w1)"
    by (auto simp: flush_aggregate_def metric_to_json_def next_jitter_def send_aggregate_to_kafka_def bind_eq_Some_conv
        Let_def reset_clear aggregate_message_def)
  note s1 = set_value_step [OF assms(2), of k ?v]
  from flush_step_team [OF s1(1)] obtain td1 where "teams (set_value team k ?v w) team = Some td1" by auto
  note s2 = produce_step [OF p this]
  from s2 flush_step_team [of team _ w1] obtain td2 where td2: "teams w1 team = Some td2" by blast
  note s3 = set_value_step [OF td2, of k "?v\<lparr>flushed_ms := now\<rparr>"]
  have f0: "?v = ?v\<lparr>flushed_ms := 0\<rparr>" by (simp add: reset_value_def)
  show ?thesis
  proof (cases ok)
    case True
    then have "produced w' = produced w1" using w' td2 by (simp add: set_value_eq)
    with True s1 s2 s3 w' show ?thesis by (auto intro: flush_step_trans)
  next
    case False
    with s1 s2 w' f0 show ?thesis by (metis flush_step_trans)
  qed
qed

lemma walk_inv_update:
  assumes inv: "walk_inv E team now m0 (k # ks) fl w" and "k \<notin> set ks" "flush_step team w w'"
    and m: "team_metrics w' team = (team_metrics w team)(k \<mapsto> v')"
    and d: "set dead = set (fl_dead fl) \<union> D" "\<forall>x \<in> D. \<exists>v. m0 x = Some v \<and> expired now v"
    and f: "fate E now (set dead) w' k (m0 k) (Some v')"
  shows "walk_inv E team now m0 ks (fl\<lparr>fl_dead := dead\<rparr>) w'"
proof -
  have "fate E now (set dead) w' x (m0 x) (team_metrics w' team x)" for x
  proof (cases "x = k")
    case True
    then show ?thesis using f m by simp
  next
    case False
    moreover have "fate E now (set (fl_dead fl)) w x (m0 x) (team_metrics w team x)"
      using inv by (simp add: walk_inv_def)
    ultimately show ?thesis using m d(1) fate_mono [OF _ assms(3), of E now "set (fl_dead fl)"] by auto
  qed
  moreover have "k \<notin> set (fl_sent fl)" using inv by (auto simp: walk_inv_def)
  ultimately show ?thesis using inv assms(2) m d
    unfolding walk_inv_def by (auto 0 3)
qed

lemma walk_inv_skip:
  "walk_inv E team now m0 (k # ks) fl w \<Longrightarrow> walk_inv E team now m0 ks fl w"
  by (simp add: walk_inv_def)

lemma walk_inv_json:
  assumes "walk_inv E team now m0 (k # ks) fl w" "k \<notin> set ks" "\<not> aggregate k"
    and "team_metrics w team k = Some v" "flush_json E k v fl w = (fl', w')"
  shows "walk_inv E team now m0 ks fl' w'"
proof -
  obtain j n where f: "w' = w\<lparr>rand_pos := n\<rparr>" "fl_dead fl' = fl_dead fl" "fl_sent fl' = fl_sent fl @ [k]"
      "fl_json fl' = fl_json fl @ (if fl_comma fl then '','' else []) @ metric_text E k v j"
    using flush_json_form [OF assms(5)] by blast
  have tm: "team_metrics w' t = team_metrics w t" for t by (simp add: f(1) team_metrics_def)
  have "journalled E w' = journalled E w" "aggregated E now w' = aggregated E now w"
    by (simp_all add: fun_eq_iff journalled_def aggregated_def f(1))
  then have ft: "fate E now D w' = fate E now D w" for D
    by (simp add: fun_eq_iff fate_def cong: option.case_cong)
  have "sublist (metric_text E k v j) (fl_json fl')"
    unfolding f(4) using sublist_appendI [of "metric_text E k v j" "fl_json fl @ (if fl_comma fl then '','' else [])" "[]"] by simp
  moreover have "m0 k = Some v" using assms(1,4) by (simp add: walk_inv_def)
  moreover have "sublist x (fl_json fl) \<Longrightarrow> sublist x (fl_json fl')" for x by (simp add: f(4) sublist_grow)
  ultimately have "\<forall>x \<in> set (fl_sent fl'). x \<notin> set ks \<and> \<not> aggregate x \<and>
      (\<exists>v j. m0 x = Some v \<and> team_metrics w' team x = Some v \<and> sublist (metric_text E x v j) (fl_json fl'))"
    using assms(1-4) unfolding walk_inv_def tm f(3)
    by simp (metis)
  then show ?thesis using assms(1) unfolding walk_inv_def tm ft f(2) by simp
qed

lemma flush_metric_inv:
  assumes run: "flush_metric E team now k fl w = Some (full, fl', w')"
    and inv: "walk_inv E team now m0 (k # ks) fl w" and nk: "k \<notin> set ks"
  shows "flush_step team w w' \<and> walk_inv E team now m0 ks fl' w'"
proof -
  from run obtain td v where td: "teams w team = Some td" and v: "hash td k = Some v"
    by (auto simp: flush_metric_def the_team_def bind_eq_Some_conv)
  have m0: "m0 k = Some v" using inv td v by (simp add: walk_inv_def)
  note refl = flush_step_refl [OF td]
  have cases: "if expired now v then fl' = fl\<lparr>fl_dead := fl_dead fl @ [k]\<rparr> \<and>
              w' = set_value team k (v\<lparr>scheduled_for_destruction := True\<rparr>) w
      else if already_flushed v then fl' = fl \<and> w' = w
      else if \<not> aggregate k then (if json_due now k v then flush_json E k v fl w else (fl, w)) = (fl', w')
      else if quiet now v then flush_aggregate E team now k v w = Some w' \<and> fl' = fl
      else fl' = fl \<and> w' = w"
    using run td v by (simp add: flush_metric_def the_team_def bind_eq_Some_conv split: if_split_asm)
  have skip: "fl' = fl \<and> w' = w \<Longrightarrow> ?thesis" using refl walk_inv_skip [OF inv] by simp
  have dead: ?thesis if "expired now v" "fl' = fl\<lparr>fl_dead := fl_dead fl @ [k]\<rparr> \<and>
      w' = set_value team k (v\<lparr>scheduled_for_destruction := True\<rparr>) w"
  proof -
    note s = set_value_step [OF td, of k "v\<lparr>scheduled_for_destruction := True\<rparr>"]
    show ?thesis using that s(1) m0
      by (auto intro!: walk_inv_update [OF inv nk _ s(2), where D = "{k}"] simp: fate_def)
  qed
  have json: ?thesis if "\<not> aggregate k" "flush_json E k v fl w = (fl', w')"
  proof -
    from flush_json_form [OF that(2)] same_teams_step [of w' w team td] td
    have "flush_step team w w'" by (auto simp: same_process_def)
    then show ?thesis using walk_inv_json [OF inv nk that(1) _ that(2)] td v by simp
  qed
  have agg: ?thesis if t: "aggregate k" "quiet now v" "flush_aggregate E team now k v w = Some w' \<and> fl' = fl"
  proof -
    from flush_aggregate_form [OF conjunct1 [OF t(3)] td] obtain v' where s: "flush_step team w w'"
        "team_metrics w' team = (team_metrics w team)(k \<mapsto> v')" "aggregated E now w' k v v'"
      using t(1,2) by (auto simp: aggregated_def)
    have "walk_inv E team now m0 ks (fl\<lparr>fl_dead := fl_dead fl\<rparr>) w'"
      by (rule walk_inv_update [OF inv nk s(1,2), where D = "{}"]) (auto simp: fate_def m0 s(3))
    then show ?thesis using s(1) t(3) by simp
  qed
  have json_part: ?thesis if "\<not> aggregate k" "(if json_due now k v then flush_json E k v fl w else (fl, w)) = (fl', w')"
    using json [OF that(1)] skip that(2) by (cases "json_due now k v") simp_all
  show ?thesis
    using cases skip dead json_part agg
    by (cases "expired now v"; cases "already_flushed v"; cases "aggregate k"; cases "quiet now v") (simp_all only: if_True if_False simp_thms)
qed

section \<open>The journal of a walk\<close>

lemma foldl_mark:
  "foldl (mark_value t) m ks k = (if k \<in> set ks then map_option (\<lambda>v. v\<lparr>flushed_ms := t\<rparr>) (m k) else m k)"
proof (induction ks arbitrary: m)
  case (Cons x ks)
  have "mark_value t m x k = (if k = x then map_option (\<lambda>v. v\<lparr>flushed_ms := t\<rparr>) (m k) else m k)"
    by (auto simp: mark_value_def split: option.split)
  then show ?case using Cons.IH [of "mark_value t m x"] by (cases "m k") auto
qed simp

lemma metric_text_long: "3 \<le> length (metric_text E k v j)"
  by (simp add: metric_text_def)

lemma journal_form:
  assumes "journal_output_metrics E json n url w = Some (ok, w1)"
  shows "(\<exists>p js. w1 = w\<lparr>journal_pos := p, journal := js @ journal w\<rparr>) \<and>
    (ok \<longrightarrow> 3 \<le> length json \<longrightarrow> 0 < n \<longrightarrow> (\<exists>u. journal_message E u json \<in> set (journal w1)))"
proof (cases "journal_open w \<and> \<not> (length json < 3 \<or> n = 0)")
  case True
  then obtain u where u: "url = Some u" "ok = journal_results w (journal_pos w)"
      "w1 = (if ok then w\<lparr>journal_pos := journal_pos w + 1, journal := journal_message E u json # journal w\<rparr>
             else w\<lparr>journal_pos := journal_pos w + 1\<rparr>)"
    using assms by (auto simp: journal_output_metrics_def Let_def bind_eq_Some_conv)
  then have "w1 = w\<lparr>journal_pos := journal_pos w + 1, journal := (if ok then [journal_message E u json] else []) @ journal w\<rparr>"
    "ok \<longrightarrow> journal_message E u json \<in> set (journal w1)" by simp_all
  then show ?thesis by blast
next
  case False
  then have "w1 = w" "ok \<longrightarrow> length json < 3 \<or> n = 0"
    using assms by (auto simp: journal_output_metrics_def split: if_splits)
  moreover have "w = w\<lparr>journal_pos := journal_pos w, journal := [] @ journal w\<rparr>" by simp
  ultimately show ?thesis by (metis not_less neq0_conv)
qed

lemma flush_buffer_inv:
  assumes run: "flush_buffer E team fl w = Some (ok, w')" and inv: "walk_inv E team now m0 ks fl w"
  shows "flush_step team w w' \<and> walk_inv E team now m0 ks
    (if ok then fl\<lparr>fl_json := js, fl_comma := c, fl_sent := []\<rparr> else fl) w'"
proof -
  from run obtain td w1 where td: "teams w team = Some td"
    and j: "journal_output_metrics E (fl_json fl @ ''}'') (length (fl_sent fl)) (metric_submission_url td) w = Some (ok, w1)"
    and w': "if ok then \<exists>n td. teams w1 team = Some td \<and>
        w' = put_team team (td\<lparr>hash := foldl (mark_value (clock w1 (ticks w1))) (hash td) (fl_sent fl)\<rparr>) (w1\<lparr>ticks := n\<rparr>)
      else w' = w1"
    by (auto simp: flush_buffer_def bind_eq_Some_conv the_team_def mtev_now_ms_def split: if_splits) blast+
  obtain p jl where w1: "w1 = w\<lparr>journal_pos := p, journal := jl @ journal w\<rparr>" using journal_form [OF j] by blast
  have s1: "flush_step team w w1" "team_metrics w1 team = team_metrics w team"
    using same_teams_step [of w1 w team td] td by (auto simp: w1 same_process_def)
  show ?thesis
  proof (cases ok)
    case False
    moreover have "fate E now (set (fl_dead fl)) w1 k (m0 k) (team_metrics w team k)" for k
      using inv by (intro fate_mono [OF _ s1(1) subset_refl]) (simp add: walk_inv_def)
    ultimately show ?thesis using w' s1 inv by (simp add: walk_inv_def)
  next
    case True
    then obtain n td1 where w2: "teams w1 team = Some td1"
        "w' = put_team team (td1\<lparr>hash := foldl (mark_value (clock w1 (ticks w1))) (hash td1) (fl_sent fl)\<rparr>) (w1\<lparr>ticks := n\<rparr>)"
      using w' by auto
    have s2: "flush_step team w w'"
      using td w2 by (auto simp: flush_step_def w1 put_team_def same_process_def)
    have jr: "journal w' = journal w1" using w2 by (simp add: put_team_def)
    have m: "team_metrics w' team k = (if k \<in> set (fl_sent fl)
        then map_option (\<lambda>v. v\<lparr>flushed_ms := clock w1 (ticks w1)\<rparr>) (team_metrics w team k) else team_metrics w team k)" for k
      using w2 td by (simp add: foldl_mark w1)
    have marked: "fate E now (set (fl_dead fl)) w' k (m0 k) (team_metrics w' team k)" if "k \<in> set (fl_sent fl)" for k
    proof -
      from inv that obtain v t where v: "m0 k = Some v" "team_metrics w team k = Some v" "\<not> aggregate k"
          "sublist (metric_text E k v t) (fl_json fl)"
        unfolding walk_inv_def by blast
      from v(4) metric_text_long [of E k v t] have "3 \<le> length (fl_json fl @ ''}'')"
        by (auto dest!: sublist_length_le)
      moreover have "0 < length (fl_sent fl)" using that by auto
      ultimately obtain u where "journal_message E u (fl_json fl @ ''}'') \<in> set (journal w')"
        using journal_form [OF j] True jr by auto
      then have "journalled E w' k v" using v(3) sublist_grow [OF v(4), of "''}''"] by (auto simp: journalled_def)
      then show ?thesis using m [of k] v that by (auto simp: fate_def)
    qed
    have "fate E now (set (fl_dead fl)) w' k (m0 k) (team_metrics w' team k)" for k
      using marked [of k] m [of k] inv fate_mono [OF _ s2 subset_refl, of E now "set (fl_dead fl)" k]
      by (cases "k \<in> set (fl_sent fl)") (auto simp: walk_inv_def)
    then show ?thesis using True s2 inv m by (auto simp: walk_inv_def)
  qed
qed

lemma flush_metrics_inv:
  assumes "flush_metrics E team now ks fl w = Some (go, fl', w')" "walk_inv E team now m0 ks fl w"
    and "distinct ks" "teams w team = Some td"
  shows "flush_step team w w' \<and> walk_inv E team now m0 [] fl' w'"
  using assms
proof (induction ks arbitrary: fl w td)
  case Nil
  then show ?case by (auto intro: flush_step_refl)
next
  case (Cons k ks)
  from Cons.prems(1) obtain full fl1 w1 go1 fl2 w2
    where 1: "flush_metric E team now k fl w = Some (full, fl1, w1)"
      and 2: "(if full then flush_batch E team fl1 w1 else Some (True, fl1, w1)) = Some (go1, fl2, w2)"
      and 3: "(if go1 then flush_metrics E team now ks fl2 w2 else Some (False, fl2, w2)) = Some (go, fl', w')"
    by (auto simp: bind_eq_Some_conv)
  have s1: "flush_step team w w1" "walk_inv E team now m0 ks fl1 w1"
    using flush_metric_inv [OF 1 Cons.prems(2)] Cons.prems(3) by auto
  obtain td1 where td1: "teams w1 team = Some td1" using flush_step_team [OF s1(1)] by blast
  have s2: "flush_step team w1 w2 \<and> walk_inv E team now m0 ks fl2 w2"
  proof (cases "full \<and> TWO_MB < length (fl_json fl1)")
    case True
    with 2 obtain ok where "flush_buffer E team fl1 w1 = Some (ok, w2)"
        "fl2 = (if ok then fl1\<lparr>fl_json := ''{'', fl_comma := False, fl_sent := []\<rparr> else fl1)"
      by (auto simp: flush_batch_def bind_eq_Some_conv)
    with flush_buffer_inv [OF this(1) s1(2)] show ?thesis by simp
  next
    case False
    with 2 have "fl2 = fl1" "w2 = w1" by (auto simp: flush_batch_def split: if_splits)
    then show ?thesis using s1 flush_step_refl [OF td1] by simp
  qed
  obtain td2 where td2: "teams w2 team = Some td2" using flush_step_team s2 by blast
  show ?case
  proof (cases go1)
    case True
    then have "flush_step team w2 w' \<and> walk_inv E team now m0 [] fl' w'"
      using 3 s2 Cons.prems(3) td2 by (intro Cons.IH [of fl2 w2]) auto
    with s1(1) s2 show ?thesis by (blast intro: flush_step_trans)
  next
    case False
    with 3 s1 s2 show ?thesis by (auto intro: flush_step_trans simp: walk_inv_def)
  qed
qed

section \<open>The rest of a team's flush\<close>

definition publishes :: "('d, 'h) world \<Rightarrow> ('d, 'h) world \<Rightarrow> bool" where
  "publishes w w' = (teams w' = teams w \<and> same_process w w' \<and> journal w' = journal w \<and> set (produced w) \<subseteq> set (produced w'))"

lemma publishes_refl: "publishes w w"
  by (simp add: publishes_def)

lemma publishes_trans: "publishes a b \<Longrightarrow> publishes b c \<Longrightarrow> publishes a c"
  by (auto simp: publishes_def intro: same_process_trans)

lemma produce_publishes: "tm_kafka_produce t p k w = Some (ok, w') \<Longrightarrow> publishes w w'"
  by (drule produce_form) (auto simp: publishes_def same_process_def)

lemma publish_regex_publishes: "publish_regex td s rs w r = Some w' \<Longrightarrow> publishes w w'"
  by (auto simp: publish_regex_def send_regex_to_kafka_def bind_eq_Some_conv Let_def publishes_refl
      intro: produce_publishes split: if_splits)

lemma publish_regexes_publishes:
  assumes "publish_regexes E team w = Some w'"
  shows "publishes w w'"
proof -
  from assms obtain td where f: "foldM (publish_service E td) w (hash_order E (dom (path_squashers td))) = Some w'"
    by (auto simp: publish_regexes_def bind_eq_Some_conv)
  show ?thesis
  proof (rule foldM_invariant [OF f, where I = "publishes w"])
    fix x u u'
    assume u: "publishes w u" and "publish_service E td u x = Some u'"
    then obtain rs where "foldM (publish_regex td x rs) u (hash_order E (dom rs)) = Some u'"
      by (auto simp: publish_service_def bind_eq_Some_conv)
    from foldM_invariant [OF this, where I = "publishes u"] u show "publishes w u'"
      by (meson publish_regex_publishes publishes_refl publishes_trans)
  qed (rule publishes_refl)
qed

lemma publishes_step: "publishes w w' \<Longrightarrow> teams w team = Some td \<Longrightarrow> flush_step team w w'"
  using same_teams_step [of w' w team td] by (simp add: publishes_def)

text \<open>How a metric leaves a flush.\<close>

definition outcome ::
  "('j, 'd, 'h) env \<Rightarrow> u64 \<Rightarrow> ('d, 'h) world \<Rightarrow> metric_key \<Rightarrow> ('d, 'h) metric_value \<Rightarrow>
     ('d, 'h) metric_value option \<Rightarrow> bool" where
  "outcome E now w k v r =
     (case r of
        None \<Rightarrow> expired now v
      | Some v' \<Rightarrow> v' = v \<or> (\<exists>f. v' = v\<lparr>flushed_ms := f\<rparr> \<and> journalled E w k v) \<or> aggregated E now w k v v')"

lemma flush_team_outcome:
  assumes run: "flush_team E now w team = Some w'" and td: "teams w team = Some td"
    and d: "distinct (metric_order E (dom (hash td)))"
  shows "flush_step team w w' \<and> (\<forall>k v. hash td k = Some v \<longrightarrow> outcome E now w' k v (team_metrics w' team k))"
proof -
  from run td obtain go fl w1 w2
    where 1: "flush_metrics E team now (metric_order E (dom (hash td))) flush_start w = Some (go, fl, w1)"
      and 2: "if go then \<exists>ok wb. flush_buffer E team fl w1 = Some (ok, wb) \<and> publish_regexes E team wb = Some w2
              else w2 = w1"
      and 3: "delete_metrics team (fl_dead fl) w2 = Some w'"
    by (auto simp: flush_team_def the_team_def bind_eq_Some_conv split: if_splits)
  have start: "walk_inv E team now (hash td) (metric_order E (dom (hash td))) flush_start w"
    using td by (auto simp: walk_inv_def flush_start_def fate_def split: option.split)
  have s1: "flush_step team w w1" "walk_inv E team now (hash td) [] fl w1"
    using flush_metrics_inv [OF 1 start d td] by auto
  have s2: "flush_step team w1 w2 \<and> (\<forall>k. fate E now (set (fl_dead fl)) w2 k (hash td k) (team_metrics w2 team k))"
  proof (cases go)
    case True
    then obtain ok wb where b: "flush_buffer E team fl w1 = Some (ok, wb)" "publish_regexes E team wb = Some w2"
      using 2 by auto
    have sb: "flush_step team w1 wb" "\<forall>k. fate E now (set (fl_dead fl)) wb k (hash td k) (team_metrics wb team k)"
      using flush_buffer_inv [OF b(1) s1(2), where js = "[]" and c = False] by (auto simp: walk_inv_def split: if_splits)
    obtain tdb where tdb: "teams wb team = Some tdb" using flush_step_team [OF sb(1)] by blast
    note p = publish_regexes_publishes [OF b(2)]
    note sp = publishes_step [OF p tdb]
    have "team_metrics w2 team = team_metrics wb team" using p by (simp add: publishes_def team_metrics_def)
    then have "fate E now (set (fl_dead fl)) w2 k (hash td k) (team_metrics w2 team k)" for k
      using sb(2) by (intro fate_mono [OF _ sp subset_refl]) simp
    then show ?thesis using sb sp by (blast intro: flush_step_trans)
  next
    case False
    then show ?thesis using 2 s1 flush_step_team [OF s1(1)] by (auto simp: walk_inv_def intro: flush_step_refl)
  qed
  obtain td2 where td2: "teams w2 team = Some td2" using flush_step_team s2 by blast
  have w': "w' = put_team team (td2\<lparr>hash := hash td2 |` (- set (fl_dead fl))\<rparr>) w2"
    using 3 td2 by (simp add: delete_metrics_def the_team_def)
  have s3: "flush_step team w2 w'" using td2 by (auto simp: w' flush_step_def put_team_def same_process_def)
  have dead: "\<forall>k \<in> set (fl_dead fl). \<exists>v. hash td k = Some v \<and> expired now v"
    using s1(2) by (simp add: walk_inv_def)
  have "outcome E now w' k v (team_metrics w' team k)" if k: "hash td k = Some v" for k v
  proof (cases "k \<in> set (fl_dead fl)")
    case True
    then show ?thesis using k dead td2 by (auto simp: outcome_def w')
  next
    case False
    have "fate E now (set (fl_dead fl)) w' k (hash td k) (team_metrics w2 team k)"
      using s2 fate_mono [OF _ s3 subset_refl] by blast
    moreover have "team_metrics w' team k = team_metrics w2 team k" using False td2 by (simp add: w')
    ultimately show ?thesis using k False by (auto simp: fate_def outcome_def)
  qed
  then show ?thesis using s1(1) s2 s3 by (blast intro: flush_step_trans)
qed

section \<open>All teams\<close>

definition grows :: "('d, 'h) world \<Rightarrow> ('d, 'h) world \<Rightarrow> bool" where
  "grows w w' = (set (produced w) \<subseteq> set (produced w') \<and> set (journal w) \<subseteq> set (journal w'))"

lemma outcome_mono: "outcome E now w k v r \<Longrightarrow> grows w w' \<Longrightarrow> outcome E now w' k v r"
  by (auto simp: outcome_def grows_def journalled_def aggregated_def split: option.splits)

lemma flush_step_other: "flush_step t w w' \<Longrightarrow> team \<noteq> t \<Longrightarrow> teams w' team = teams w team"
  by (auto simp: flush_step_def)

lemma flush_step_grows: "flush_step t w w' \<Longrightarrow> grows w w'"
  by (simp add: flush_step_def grows_def)

lemma flush_team_present: "flush_team E now w t = Some w' \<Longrightarrow> \<exists>td. teams w t = Some td"
  by (auto simp: flush_team_def the_team_def bind_eq_Some_conv)

text \<open>An iteration visits no metric twice.\<close>

definition walks_once :: "('j, 'd, 'h) env \<Rightarrow> ('d, 'h) world \<Rightarrow> string list \<Rightarrow> bool" where
  "walks_once E w ts = (distinct ts \<and> (\<forall>t \<in> set ts. distinct (metric_order E (dom (team_metrics w t)))))"

lemma flush_teams_one:
  assumes "flush_team E now w t = Some w1" "walks_once E w (t # ts)"
  shows "flush_step t w w1 \<and> walks_once E w1 ts \<and>
    (\<forall>k v. team_metrics w t k = Some v \<longrightarrow> outcome E now w1 k v (team_metrics w1 t k))"
proof -
  obtain td where td: "teams w t = Some td" using flush_team_present [OF assms(1)] by blast
  have "distinct (metric_order E (dom (hash td)))" using assms(2) td by (simp add: walks_once_def)
  note s = flush_team_outcome [OF assms(1) td this]
  have "team_metrics w1 u = team_metrics w u" if "u \<in> set ts" for u
    using flush_step_other [OF conjunct1 [OF s]] that assms(2) by (force simp: walks_once_def team_metrics_def)
  then show ?thesis using s td assms(2) by (simp add: walks_once_def)
qed

lemma flush_teams_other:
  assumes "foldM (flush_team E now) w ts = Some w'" "walks_once E w ts"
  shows "grows w w' \<and> (team \<notin> set ts \<longrightarrow> teams w' team = teams w team)"
  using assms
proof (induction ts arbitrary: w)
  case (Cons t ts)
  then obtain w1 where 1: "flush_team E now w t = Some w1" and 2: "foldM (flush_team E now) w1 ts = Some w'"
    by (auto split: option.splits)
  note s = flush_teams_one [OF 1 Cons.prems(2)]
  have "grows w w1" using s flush_step_grows by blast
  moreover have "grows w1 w' \<and> (team \<notin> set ts \<longrightarrow> teams w' team = teams w1 team)"
    using Cons.IH [OF 2] s by blast
  ultimately show ?case using s flush_step_other [of t w w1 team] by (auto simp: grows_def)
qed (simp add: grows_def)

lemma flush_teams_outcome:
  assumes "foldM (flush_team E now) w ts = Some w'" "walks_once E w ts"
    and "team \<in> set ts" "team_metrics w team k = Some v"
  shows "outcome E now w' k v (team_metrics w' team k)"
  using assms
proof (induction ts arbitrary: w)
  case (Cons t ts)
  then obtain w1 where 1: "flush_team E now w t = Some w1" and 2: "foldM (flush_team E now) w1 ts = Some w'"
    by (auto split: option.splits)
  note s = flush_teams_one [OF 1 Cons.prems(2)]
  show ?case
  proof (cases "team = t")
    case True
    then have "team \<notin> set ts" using Cons.prems(2) by (simp add: walks_once_def)
    then have "grows w1 w'" "team_metrics w' team = team_metrics w1 team"
      using flush_teams_other [OF 2, of team] s by (auto simp: team_metrics_def)
    then show ?thesis using s Cons.prems(4) True outcome_mono by metis
  next
    case False
    then have "team_metrics w1 team k = Some v"
      using s flush_step_other [of t w w1 team] Cons.prems(4) by (simp add: team_metrics_def)
    then show ?thesis using Cons.IH [OF 2] s Cons.prems(3) False by simp
  qed
qed simp

section \<open>Properties\<close>

text \<open>C5: A flush accounts for every metric of every team it visits. The metric is deleted only when
  it had been flushed at or after its last change and idle for more than ten minutes; or it is left as
  it was; or it is a host level metric whose text stands in a message the journal accepted, and only
  its flush time changes; or it is a quiet aggregate, which is reset, and counts as flushed (at the
  time of this flush) only if Kafka accepted its value.\<close>

theorem flush_accounts_for_metrics:
  assumes "tm_flush_team_metrics E w = Some w'" "team_metrics w team k = Some v"
    and "team \<in> set (hash_order E (dom (teams w)))" "walks_once E w (hash_order E (dom (teams w)))"
  shows "case team_metrics w' team k of
      None \<Rightarrow> expired (clock w (ticks w)) v
    | Some v' \<Rightarrow>
        v' = v \<or>
        (\<exists>f. v' = v\<lparr>flushed_ms := f\<rparr> \<and> journalled E w' k v) \<or>
        aggregated E (clock w (ticks w)) w' k v v'"
proof -
  have "team_metrics (w\<lparr>ticks := n\<rparr>) = team_metrics w" for n by (simp add: fun_eq_iff team_metrics_def)
  then show ?thesis
    using flush_teams_outcome [of E "clock w (ticks w)" "w\<lparr>ticks := ticks w + 1\<rparr>" "hash_order E (dom (teams w))" w' team k v] assms
    by (simp add: tm_flush_team_metrics_def mtev_now_ms_def outcome_def walks_once_def)
qed

definition demo_key :: metric_key where
  "demo_key = flush_key ''n|ST[]'' True 60000"

definition demo_counter :: "(int, u64 list) metric_value" where
  "demo_counter = make_integer_value demo_env 5 900000"

definition demo_flush_world :: "(int, u64 list) world" where
  "demo_flush_world = demo_world\<lparr>teams := [''t'' \<mapsto> new_team\<lparr>hash := [demo_key \<mapsto> demo_counter]\<rparr>]\<rparr>"

lemma demo_flush:
  "\<exists>w. tm_flush_team_metrics demo_env demo_flush_world = Some w \<and>
     team_metrics w ''t'' demo_key = Some ((reset_value demo_env demo_counter)\<lparr>flushed_ms := 1000000\<rparr>) \<and>
     (aggregate_topic, aggregate_message demo_env demo_key demo_counter, ''n|ST[]'') \<in> set (produced w)"
proof -
  have key: "aggregate demo_key" "metric_name demo_key = ''n|ST[]''"
    by (simp_all add: demo_key_def flush_key_def make_metric_key_def)
  have v: "\<not> expired 1000000 demo_counter" "\<not> already_flushed demo_counter" "quiet 1000000 demo_counter"
    by (simp_all add: demo_counter_def make_integer_value_def new_value_def expired_def already_flushed_def quiet_def)
  show ?thesis
    by (simp add: tm_flush_team_metrics_def mtev_now_ms_def demo_flush_world_def demo_env_sel flush_team_def the_team_def
        flush_metric_def v key flush_aggregate_def metric_to_json_def next_jitter_def reset_clear
        send_aggregate_to_kafka_def tm_kafka_produce.simps set_value_def put_team_def flush_batch_def
        flush_start_def TWO_MB_def flush_buffer_def journal_output_metrics_def publish_regexes_def new_team_def
        delete_metrics_def team_metrics_def aggregate_message_def Let_def)
qed

theorem flush_accounts_for_metrics_witness:
  "\<exists>w. tm_flush_team_metrics demo_env demo_flush_world = Some w \<and>
     (case team_metrics w ''t'' demo_key of
        None \<Rightarrow> expired 1000000 demo_counter
      | Some v' \<Rightarrow>
          v' = demo_counter \<or>
          (\<exists>f. v' = demo_counter\<lparr>flushed_ms := f\<rparr> \<and> journalled demo_env w demo_key demo_counter) \<or>
          aggregated demo_env 1000000 w demo_key demo_counter v')"
proof -
  obtain w where w: "tm_flush_team_metrics demo_env demo_flush_world = Some w" using demo_flush by blast
  have "team_metrics demo_flush_world ''t'' demo_key = Some demo_counter"
    "''t'' \<in> set (hash_order demo_env (dom (teams demo_flush_world)))"
    "walks_once demo_env demo_flush_world (hash_order demo_env (dom (teams demo_flush_world)))"
    by (simp_all add: demo_flush_world_def team_metrics_def demo_env_def walks_once_def demo_world_def)
  note acc = flush_accounts_for_metrics [OF w this]
  have "clock demo_flush_world (ticks demo_flush_world) = 1000000"
    by (simp add: demo_flush_world_def demo_world_def)
  with acc w show ?thesis unfolding \<open>clock demo_flush_world _ = _\<close> by blast
qed

text \<open>C36: An aggregate is reset before its message is sent: when Kafka refuses the message, nothing is
  published and the amount collected so far is gone from the table.\<close>

theorem refused_aggregate_is_lost:
  assumes "produce_results w (produce_pos w) = Produce_error" "teams w team = Some td"
  shows "\<exists>w'. flush_aggregate E team now k v w = Some w' \<and> produced w' = produced w \<and>
    team_metrics w' team k = Some (reset_value E v)"
  using assms
  by (simp add: flush_aggregate_def metric_to_json_def next_jitter_def reset_clear send_aggregate_to_kafka_def
      set_value_eq tm_kafka_produce.simps team_metrics_def)

theorem refused_aggregate_is_lost_witness:
  "\<exists>w'. flush_aggregate demo_env ''t'' 9 demo_key demo_counter
          (demo_flush_world\<lparr>produce_results := (\<lambda>n. Produce_error)\<rparr>) = Some w' \<and>
     produced w' = [] \<and> team_metrics w' ''t'' demo_key = Some (reset_value demo_env demo_counter)"
  using refused_aggregate_is_lost
    [of "demo_flush_world\<lparr>produce_results := (\<lambda>n. Produce_error)\<rparr>" "''t''" "new_team\<lparr>hash := [demo_key \<mapsto> demo_counter]\<rparr>"
        demo_env 9 demo_key demo_counter]
  by (simp add: demo_flush_world_def demo_world_def)

text \<open>The messages published for the regular expressions of a team.\<close>

definition regex_messages :: "('j, 'd, 'h) env \<Rightarrow> ('d, 'h) team_data \<Rightarrow> (string \<times> string \<times> string) set" where
  "regex_messages E td =
     {m. \<exists>service ps rs regex replace key.
        m = (''tracemate_regexes'', regex_json service regex replace, key) \<and>
        path_squashers td service = Some ps \<and> tm_path_squasher_get_regexes (pcre_compile E) ps = Some rs \<and>
        rs regex = Some replace \<and> (\<exists>known. squash_regexes td service = Some known \<and> known regex = None)}"

lemma new_regex_iff: "new_regex td s r \<longleftrightarrow> (\<exists>known. squash_regexes td s = Some known \<and> known r = None)"
  by (simp add: new_regex_def split: option.split)

lemma publish_regex_messages:
  "publish_regex td s rs w r = Some w' \<Longrightarrow> path_squashers td s = Some ps \<Longrightarrow>
     tm_path_squasher_get_regexes (pcre_compile E) ps = Some rs \<Longrightarrow>
     set (produced w') \<subseteq> set (produced w) \<union> regex_messages E td"
  by (auto simp: publish_regex_def new_regex_iff send_regex_to_kafka_def bind_eq_Some_conv Let_def regex_messages_def
      dest!: produce_form split: if_splits) blast+

text \<open>C37: A flush publishes a regular expression only for a service it has received an
  expression for already, and only one it does not know yet: it does not publish one again after
  reading it back, and it never publishes a service's first.\<close>

theorem published_regexes_are_new:
  assumes "publish_regexes E team w = Some w'" "teams w team = Some td" "m \<in> set (produced w')"
  shows "m \<in> set (produced w) \<or>
    (\<exists>service ps rs regex replace key known.
       m = (''tracemate_regexes'', regex_json service regex replace, key) \<and>
       path_squashers td service = Some ps \<and> tm_path_squasher_get_regexes (pcre_compile E) ps = Some rs \<and>
       rs regex = Some replace \<and> squash_regexes td service = Some known \<and> known regex = None)"
proof -
  from assms(1,2) have f: "foldM (publish_service E td) w (hash_order E (dom (path_squashers td))) = Some w'"
    by (simp add: publish_regexes_def the_team_def)
  have "set (produced w') \<subseteq> set (produced w) \<union> regex_messages E td"
  proof (rule foldM_invariant [OF f])
    fix s u u'
    assume u: "set (produced u) \<subseteq> set (produced w) \<union> regex_messages E td" and "publish_service E td u s = Some u'"
    then obtain ps rs where p: "path_squashers td s = Some ps" "tm_path_squasher_get_regexes (pcre_compile E) ps = Some rs"
        "foldM (publish_regex td s rs) u (hash_order E (dom rs)) = Some u'"
      by (auto simp: publish_service_def bind_eq_Some_conv)
    show "set (produced u') \<subseteq> set (produced w) \<union> regex_messages E td"
    proof (rule foldM_invariant [OF p(3)])
      fix r v v'
      assume "set (produced v) \<subseteq> set (produced w) \<union> regex_messages E td" "publish_regex td s rs v r = Some v'"
      with publish_regex_messages [OF this(2) p(1,2)] show "set (produced v') \<subseteq> set (produced w) \<union> regex_messages E td"
        by blast
    qed (rule u)
  qed simp
  then have "m \<in> set (produced w) \<or> m \<in> regex_messages E td" using assms(3) by blast
  then show ?thesis unfolding regex_messages_def mem_Collect_eq by metis
qed

definition demo_squasher :: path_squasher where
  "demo_squasher =
     \<lparr>root_node = Node ''<ROOT>'' False [Node ''a'' True [Node squash_name False []]],
      cardinality_factor = 3, added_path_count = 1\<rparr>"

definition demo_regex :: string where
  "demo_regex = ''(a'' @ [CHR 0x5C, CHR ''/''] @ ''[^'' @ [CHR 0x5C] @ ''/]+.*)''"

definition demo_regex_world :: "(int, u64 list) world" where
  "demo_regex_world = demo_world\<lparr>teams := [''t'' \<mapsto>
     new_team\<lparr>path_squashers := [''t-web'' \<mapsto> demo_squasher], squash_regexes := [''t-web'' \<mapsto> Map.empty]\<rparr>]\<rparr>"

lemma demo_regex_published:
  "\<exists>w'. publish_regexes demo_env ''t'' demo_regex_world = Some w' \<and>
     (''tracemate_regexes'', regex_json ''t-web'' demo_regex ''a/{...}'', ''t-web|'' @ demo_regex) \<in> set (produced w')"
proof -
  have r: "tm_path_squasher_get_regexes (pcre_compile demo_env) demo_squasher = Some [demo_regex \<mapsto> ''a/{...}'']"
    using squasher_regex_example by (simp add: demo_squasher_def demo_regex_def demo_env_def)
  show ?thesis
    by (simp add: publish_regexes_def demo_regex_world_def the_team_def publish_service_def r publish_regex_def
        new_regex_def send_regex_to_kafka_def demo_regex_def tm_kafka_produce.simps demo_env_sel)
qed

theorem published_regexes_are_new_witness:
  "\<exists>service ps rs regex replace key known.
     (''tracemate_regexes'', regex_json ''t-web'' demo_regex ''a/{...}'', ''t-web|'' @ demo_regex) =
       (''tracemate_regexes'', regex_json service regex replace, key) \<and>
     path_squashers (the (teams demo_regex_world ''t'')) service = Some ps \<and>
     tm_path_squasher_get_regexes (pcre_compile demo_env) ps = Some rs \<and> rs regex = Some replace \<and>
     squash_regexes (the (teams demo_regex_world ''t'')) service = Some known \<and> known regex = None"
proof -
  obtain w' where w': "publish_regexes demo_env ''t'' demo_regex_world = Some w'"
      "(''tracemate_regexes'', regex_json ''t-web'' demo_regex ''a/{...}'', ''t-web|'' @ demo_regex) \<in> set (produced w')"
    using demo_regex_published by blast
  have t: "teams demo_regex_world ''t'' = Some (the (teams demo_regex_world ''t''))" "produced demo_regex_world = []"
    by (simp_all add: demo_regex_world_def)
  show ?thesis using published_regexes_are_new [OF w'(1) t(1) w'(2)] unfolding t(2) by simp
qed

end
