(* ===== verification/TM_Circonus.thy ===== *)
theory TM_Circonus
  imports TM_Flush
begin

text \<open>
  Talking to Circonus (tm_circonus.c): the callback that hands a document to curl in pieces, the
  thread that reads the journal and sends what it finds, the infrastructure metrics and the
  requests to the Circonus API. The journal (jlog) keeps the messages in the order they were
  written and a position up to which the reader has confirmed them; curl and the network are the
  sequence of outcomes they give.
\<close>

section \<open>Uploading a document\<close>

record send_data =
  sd_json :: string
  sd_len :: u64
  sd_sent :: u64

text \<open>\<open>room\<close> is \<open>size * nitems\<close>. A copy from behind the end of the document is undefined.\<close>

definition send_metric_input :: "u64 \<Rightarrow> send_data \<Rightarrow> (string \<times> send_data) ub" where
  "send_metric_input room sd =
     (let remaining = sd_len sd - sd_sent sd in
      if remaining = 0 then Some ([], sd)
      else
        let send = min room remaining in
        if unat (sd_sent sd) + unat send \<le> length (sd_json sd)
        then Some (take (unat send) (drop (unat (sd_sent sd)) (sd_json sd)),
                   sd\<lparr>sd_sent := sd_sent sd + send\<rparr>)
        else None)"

definition send_start :: "string \<Rightarrow> u64 \<Rightarrow> send_data" where
  "send_start json len = \<lparr>sd_json = json, sd_len = len, sd_sent = 0\<rparr>"

text \<open>What curl collects from a sequence of calls with the given amounts of room.\<close>

fun upload :: "u64 list \<Rightarrow> send_data \<Rightarrow> (string \<times> send_data) ub" where
  "upload [] sd = Some ([], sd)"
| "upload (room # rooms) sd = do {
     (chunk, sd) \<leftarrow> send_metric_input room sd;
     (rest, sd) \<leftarrow> upload rooms sd;
     Some (chunk @ rest, sd) }"

section \<open>The sender thread\<close>

text \<open>
  How a transfer ends: curl reports success or an error, nothing is heard for a thousand polls,
  or the multi interface fails and no result is read.
\<close>

datatype transfer = Sent_ok | Sent_failed | Timed_out | Multi_failed

text \<open>
  \<open>jlog_entries\<close> are the messages of the journal, oldest first, \<open>checkpoint\<close> how many of them the
  reader has confirmed. \<open>read_results\<close>, \<open>transfers\<close> and \<open>checkpoint_results\<close> are what the
  successive calls of the libraries give. \<open>accepted\<close> are the documents Circonus took, with their
  URL, \<open>requests\<close> all that were sent, both oldest first.
\<close>

record sender =
  jlog_entries :: "string list"
  checkpoint :: nat
  read_results :: "nat \<Rightarrow> bool"
  read_pos :: nat
  transfers :: "nat \<Rightarrow> transfer"
  transfer_pos :: nat
  checkpoint_results :: "nat \<Rightarrow> bool"
  checkpoint_pos :: nat
  requests :: "(string option \<times> string) list"
  accepted :: "(string option \<times> string) list"

definition transfer_document :: "string option \<Rightarrow> string \<Rightarrow> sender \<Rightarrow> bool \<times> sender" where
  "transfer_document url json s =
     (let ok = (transfers s (transfer_pos s) = Sent_ok) in
      (ok, s\<lparr>transfer_pos := transfer_pos s + 1, requests := requests s @ [(url, json)],
             accepted := (if ok then accepted s @ [(url, json)] else accepted s)\<rparr>))"

text \<open>
  One message; the result says whether to confirm it. \<open>decode\<close> is \<open>mtev_b64_decode\<close>. A message
  that does not parse is not confirmed, one without its two members is. The parse of the answer
  is only logged.
\<close>

definition send_entry ::
  "('j, 'd, 'h) env \<Rightarrow> (string \<Rightarrow> string) \<Rightarrow> string \<Rightarrow> sender \<Rightarrow> (bool \<times> sender) ub" where
  "send_entry E decode message s =
     (case jo_parse E message of
        None \<Rightarrow> Some (False, s)
      | Some wrapper \<Rightarrow>
          let url = jo_get E (Some wrapper) ''url''; data = jo_get E (Some wrapper) ''data'' in
          if url = None \<or> data = None then Some (True, s)
          else do {
            b64 \<leftarrow> jo_string E data;
            Some (transfer_document (jo_string E url) (decode b64) s) })"

definition read_checkpoint :: "nat \<Rightarrow> sender \<Rightarrow> sender" where
  "read_checkpoint i s =
     (let s' = s\<lparr>checkpoint_pos := checkpoint_pos s + 1\<rparr>
      in if checkpoint_results s (checkpoint_pos s) then s'\<lparr>checkpoint := Suc i\<rparr> else s')"

text \<open>The loop over an interval of \<open>n\<close> messages from the \<open>i\<close>-th on.\<close>

fun send_interval ::
  "('j, 'd, 'h) env \<Rightarrow> (string \<Rightarrow> string) \<Rightarrow> nat \<Rightarrow> nat \<Rightarrow> sender \<Rightarrow> sender ub" where
  "send_interval E decode 0 i s = Some s"
| "send_interval E decode (Suc n) i s =
     (let ok = read_results s (read_pos s); s = s\<lparr>read_pos := read_pos s + 1\<rparr> in
      if \<not> ok then send_interval E decode n (Suc i) s
      else if i < length (jlog_entries s) then do {
        (do_checkpoint, s) \<leftarrow> send_entry E decode (jlog_entries s ! i) s;
        send_interval E decode n (Suc i) (if do_checkpoint then read_checkpoint i s else s) }
      else None)"

text \<open>
  One round of the endless loop. \<open>interval\<close> is the answer of \<open>jlog_ctx_read_interval\<close>: an error,
  or a number of unconfirmed messages, which start behind the last confirmed one.
\<close>

definition send_round ::
  "('j, 'd, 'h) env \<Rightarrow> (string \<Rightarrow> string) \<Rightarrow> nat option \<Rightarrow> sender \<Rightarrow> sender ub" where
  "send_round E decode interval s =
     (case interval of
        None \<Rightarrow> Some s
      | Some count \<Rightarrow> send_interval E decode count (checkpoint s) s)"

text \<open>
  Later rounds: before each, messages are written to the journal behind the present ones, and then
  it has its interval.
\<close>

definition later_rounds ::
  "('j, 'd, 'h) env \<Rightarrow> (string \<Rightarrow> string) \<Rightarrow> sender \<Rightarrow> (string list \<times> nat option) list \<Rightarrow> sender ub" where
  "later_rounds E decode =
     foldM (\<lambda>s (messages, interval).
       send_round E decode interval (s\<lparr>jlog_entries := jlog_entries s @ messages\<rparr>))"

section \<open>Infrastructure metrics\<close>

text \<open>
  \<open>stats_json\<close> is the text of the statistics recorder, if there is one. The count of \<open>-1\<close> that is
  passed on is only compared with zero.
\<close>

definition send_infra_metrics ::
  "('j, 'd, 'h) env \<Rightarrow> string option \<Rightarrow> string option \<Rightarrow> ('d, 'h) world \<Rightarrow> ('d, 'h) world ub" where
  "send_infra_metrics E infra_dest_url stats_json w =
     (case (infra_dest_url, stats_json) of
        (Some url, Some json) \<Rightarrow> do {
          (ok, w) \<leftarrow> journal_output_metrics E json 1 (Some url) w;
          Some w }
      | _ \<Rightarrow> Some w)"

section \<open>The Circonus API\<close>

record api_request =
  rq_url :: string
  rq_headers :: "string list"
  rq_body :: "string option"

text \<open>The answers the API gives, one per request: \<open>None\<close> is a failed request.\<close>

record api =
  api_answers :: "nat \<Rightarrow> string option"
  api_requests :: "api_request list"

definition api_call :: "api_request \<Rightarrow> api \<Rightarrow> string option \<times> api" where
  "api_call rq a = (api_answers a (length (api_requests a)), a\<lparr>api_requests := api_requests a @ [rq]\<rparr>)"

definition auth_header :: "string \<Rightarrow> string" where
  "auth_header api_key = snprintf_n 256 (''X-Circonus-Auth-Token: '' @ api_key)"

text \<open>The URL is a format with one \<open>%s\<close>; \<open>before\<close> and \<open>after\<close> are what it writes around the search.\<close>

definition circonus_curl_get :: "string \<Rightarrow> string \<Rightarrow> string \<Rightarrow> string \<Rightarrow> api \<Rightarrow> string option \<times> api" where
  "circonus_curl_get api_key before search after a =
     api_call \<lparr>rq_url = snprintf_n 4096 (before @ search @ after),
       rq_headers = [auth_header api_key, ''X-Circonus-App-Name: tracemate'', ''Accept: application/json''],
       rq_body = None\<rparr> a"

definition circonus_curl_post :: "string \<Rightarrow> string \<Rightarrow> string \<Rightarrow> api \<Rightarrow> string option \<times> api" where
  "circonus_curl_post api_key url contents a =
     api_call \<lparr>rq_url = url,
       rq_headers = [''Accept: application/json'', ''User-Agent: tracemate'', auth_header api_key,
         ''X-Circonus-App-Name: tracemate'', ''Content-Type: application/json'', ''Accept: application/json''],
       rq_body = Some contents\<rparr> a"

section \<open>Facts\<close>

lemma send_metric_input_at:
  assumes "length json < 2 ^ 64" "n \<le> length json"
  shows "send_metric_input room \<lparr>sd_json = json, sd_len = of_nat (length json), sd_sent = of_nat n\<rparr> =
    (let k = min (unat room) (length json - n)
     in Some (take k (drop n json), \<lparr>sd_json = json, sd_len = of_nat (length json), sd_sent = of_nat (n + k)\<rparr>))"
proof -
  have n: "unat (of_nat n :: u64) = n" "unat (of_nat (length json) :: u64) = length json"
    using assms by (simp_all add: unsigned_of_nat take_bit_eq_mod)
  have d: "(of_nat (length json) - of_nat n :: u64) = of_nat (length json - n)" using assms(2) by (simp add: of_nat_diff)
  have u: "unat (of_nat (length json - n) :: u64) = length json - n"
    using assms by (simp add: unsigned_of_nat take_bit_eq_mod del: of_nat_diff)
  have m: "unat (min room (of_nat (length json - n))) = min (unat room) (length json - n)"
    using u by (auto simp: min_def word_le_nat_alt)
  have z: "of_nat (length json - n) \<noteq> (0 :: u64)" if "length json - n \<noteq> 0" using u that by (metis unat_0)
  have a: "of_nat n + min room (of_nat (length json - n)) = (of_nat (n + min (unat room) (length json - n)) :: u64)"
  proof -
    have "min room (of_nat (length json - n)) = of_nat (unat (min room (of_nat (length json - n))))" by simp
    then show ?thesis unfolding m by (simp only: of_nat_add)
  qed
  show ?thesis
  proof (cases "length json - n = 0")
    case True
    then show ?thesis using assms(2) by (simp add: send_metric_input_def Let_def)
  next
    case False
    have "n + min (unat room) (length json - n) \<le> length json" using assms(2) by simp
    then show ?thesis using False z by (simp add: send_metric_input_def Let_def d m n a del: of_nat_add of_nat_diff)
  qed
qed

definition sent_to :: "string \<Rightarrow> nat \<Rightarrow> send_data" where
  "sent_to json n = \<lparr>sd_json = json, sd_len = of_nat (length json), sd_sent = of_nat n\<rparr>"

lemma upload_from:
  assumes "length json < 2 ^ 64" "n \<le> length json" "list_all (\<lambda>r. r \<noteq> 0) rooms"
  shows "\<exists>m \<ge> min (length json) (n + length rooms). n \<le> m \<and> m \<le> length json \<and>
    upload rooms (sent_to json n) = Some (take (m - n) (drop n json), sent_to json m)"
  using assms(2,3)
proof (induction rooms arbitrary: n)
  case Nil
  then show ?case by (intro exI [of _ n]) simp
next
  case (Cons r rs)
  define k where "k = min (unat r) (length json - n)"
  have nk: "n + k \<le> length json" using Cons.prems(1) by (simp add: k_def)
  have r: "r \<noteq> 0" "list_all (\<lambda>r. r \<noteq> 0) rs" using Cons.prems(2) by simp_all
  obtain m where m: "min (length json) (n + k + length rs) \<le> m" "n + k \<le> m" "m \<le> length json"
    "upload rs (sent_to json (n + k)) = Some (take (m - (n + k)) (drop (n + k) json), sent_to json m)"
    using Cons.IH [OF nk r(2)] by blast
  have "k + (m - (n + k)) = m - n" using m(2) by simp
  then have t: "take k (drop n json) @ take (m - (n + k)) (drop (n + k) json) = take (m - n) (drop n json)"
    by (metis drop_drop take_add add.commute)
  have "0 < unat r" using r(1) by (simp add: unat_gt_0)
  then have "min (length json) (n + length (r # rs)) \<le> m"
    using m(1,2) Cons.prems(1) by (auto simp: k_def min_def split: if_splits)
  moreover have "send_metric_input r (sent_to json n) = Some (take k (drop n json), sent_to json (n + k))"
    using send_metric_input_at [OF assms(1) Cons.prems(1), of r] by (simp add: sent_to_def k_def Let_def del: of_nat_add)
  ultimately show ?case using m(2,3,4) t
    by (intro exI [of _ m]) simp
qed

text \<open>What the journal, the JSON library and base64 make of an entry that \<open>journal_output_metrics\<close> wrote.\<close>

definition readable :: "('j, 'd, 'h) env \<Rightarrow> (string \<Rightarrow> string) \<Rightarrow> string \<times> string \<Rightarrow> bool" where
  "readable E decode = (\<lambda>(url, json).
     \<exists>wrapper u d b. jo_parse E (journal_message E url json) = Some wrapper \<and>
       jo_get E (Some wrapper) ''url'' = Some u \<and> jo_string E (Some u) = Some url \<and>
       jo_get E (Some wrapper) ''data'' = Some d \<and> jo_string E (Some d) = Some b \<and> decode b = json)"

definition written :: "('j, 'd, 'h) env \<Rightarrow> string \<times> string \<Rightarrow> string" where
  "written E = (\<lambda>(url, json). journal_message E url json)"

definition request_of :: "string \<times> string \<Rightarrow> string option \<times> string" where
  "request_of = (\<lambda>(url, json). (Some url, json))"

text \<open>Nothing but the network fails.\<close>

definition reliable :: "sender \<Rightarrow> bool" where
  "reliable s = ((\<forall>i. read_results s i) \<and> (\<forall>i. checkpoint_results s i))"

text \<open>The outcomes of the next transfers.\<close>

definition oks :: "sender \<Rightarrow> nat \<Rightarrow> bool list" where
  "oks s n = map (\<lambda>i. transfers s (transfer_pos s + i) = Sent_ok) [0..<n]"

lemma oks_Suc: "oks s (Suc n) = (transfers s (transfer_pos s) = Sent_ok) # oks (s\<lparr>transfer_pos := transfer_pos s + 1\<rparr>) n"
  by (simp add: oks_def upt_conv_Cons map_Suc_upt [symmetric] del: upt_Suc)

lemma oks_cong: "transfers s' = transfers s \<Longrightarrow> transfer_pos s' = transfer_pos s \<Longrightarrow> oks s' n = oks s n"
  by (simp add: oks_def)

definition after_last :: "bool list \<Rightarrow> nat" where
  "after_last bs = length (dropWhile Not (rev bs))"

lemma dropWhile_snoc: "dropWhile P (xs @ [b]) = (if dropWhile P xs = [] then dropWhile P [b] else dropWhile P xs @ [b])"
  by (induction xs) simp_all

lemma after_last_simps:
  "after_last [] = 0"
  "after_last (b # bs) = (if after_last bs \<noteq> 0 then Suc (after_last bs) else if b then 1 else 0)"
  by (auto simp: after_last_def dropWhile_snoc simp del: dropWhile_eq_Nil_conv)

lemma send_entry_written:
  "readable E decode x \<Longrightarrow> send_entry E decode (written E x) s = Some (transfer_document (fst (request_of x)) (snd (request_of x)) s)"
  by (auto simp: readable_def send_entry_def written_def request_of_def Let_def split: prod.splits)

lemma send_interval_exact:
  assumes "reliable s" "jlog_entries s = pre @ map (written E) items @ later"
    and "list_all (readable E decode) items"
  shows "\<exists>s'. send_interval E decode (length items) (length pre) s = Some s' \<and> reliable s' \<and>
    jlog_entries s' = jlog_entries s \<and>
    requests s' = requests s @ map request_of items \<and>
    accepted s' = accepted s @ map (request_of \<circ> snd) (filter fst (zip (oks s (length items)) items)) \<and>
    checkpoint s' = (if after_last (oks s (length items)) = 0 then checkpoint s else length pre + after_last (oks s (length items)))"
  using assms
proof (induction items arbitrary: pre s)
  case Nil
  then show ?case by (simp add: oks_def after_last_simps)
next
  case (Cons x xs)
  let ?ok = "transfers s (transfer_pos s) = Sent_ok"
  let ?t = "snd (transfer_document (fst (request_of x)) (snd (request_of x)) (s\<lparr>read_pos := read_pos s + 1\<rparr>))"
  define t where "t = (if ?ok then read_checkpoint (length pre) ?t else ?t)"
  have f: "reliable t" "jlog_entries t = jlog_entries s" "requests t = requests s @ [request_of x]"
    "accepted t = accepted s @ (if ?ok then [request_of x] else [])"
    "checkpoint t = (if ?ok then Suc (length pre) else checkpoint s)"
    using Cons.prems(1)
    by (auto simp: t_def reliable_def transfer_document_def read_checkpoint_def Let_def)
  have o: "oks s (length (x # xs)) = ?ok # oks t (length xs)"
    unfolding length_Cons oks_Suc
    by (auto simp: t_def transfer_document_def read_checkpoint_def Let_def intro!: oks_cong)
  have run: "send_interval E decode (length (x # xs)) (length pre) s = send_interval E decode (length xs) (Suc (length pre)) t"
    using Cons.prems send_entry_written [of E decode x "s\<lparr>read_pos := read_pos s + 1\<rparr>"]
    by (auto simp: t_def reliable_def Let_def nth_append transfer_document_def)
  have "jlog_entries t = (pre @ [written E x]) @ map (written E) xs @ later" using Cons.prems(2) f(2) by simp
  from Cons.IH [OF f(1) this] Cons.prems(3) obtain s' where
    "send_interval E decode (length xs) (Suc (length pre)) t = Some s'" "reliable s'" "jlog_entries s' = jlog_entries t"
    "requests s' = requests t @ map request_of xs"
    "accepted s' = accepted t @ map (request_of \<circ> snd) (filter fst (zip (oks t (length xs)) xs))"
    "checkpoint s' = (if after_last (oks t (length xs)) = 0 then checkpoint t else Suc (length pre) + after_last (oks t (length xs)))"
    by auto
  then show ?case unfolding run o by (auto simp: f after_last_simps)
qed

lemma send_round_written:
  assumes "reliable s" "jlog_entries s = pre @ map (written E) items @ later" "checkpoint s = length pre"
    and "list_all (readable E decode) items"
  shows "\<exists>s'. send_round E decode (Some (length items)) s = Some s' \<and> reliable s' \<and> jlog_entries s' = jlog_entries s \<and>
    requests s' = requests s @ map request_of items \<and>
    accepted s' = accepted s @ map (request_of \<circ> snd) (filter fst (zip (oks s (length items)) items)) \<and>
    checkpoint s' = checkpoint s + after_last (oks s (length items))"
  using send_interval_exact [OF assms(1,2,4)] assms(3) by (auto simp: send_round_def)

text \<open>The request a message of the journal leads to, and the requests of the messages from the \<open>c\<close>-th on.\<close>

definition entry_request ::
  "('j, 'd, 'h) env \<Rightarrow> (string \<Rightarrow> string) \<Rightarrow> string \<Rightarrow> (string option \<times> string) option" where
  "entry_request E decode message = do {
     wrapper \<leftarrow> jo_parse E message;
     url \<leftarrow> jo_get E (Some wrapper) ''url'';
     document \<leftarrow> jo_get E (Some wrapper) ''data'';
     b64 \<leftarrow> jo_string E (Some document);
     Some (jo_string E (Some url), decode b64) }"

definition requests_from ::
  "('j, 'd, 'h) env \<Rightarrow> (string \<Rightarrow> string) \<Rightarrow> nat \<Rightarrow> string list \<Rightarrow> (string option \<times> string) set" where
  "requests_from E decode c entries =
     {q. \<exists>k. c \<le> k \<and> k < length entries \<and> entry_request E decode (entries ! k) = Some q}"

lemma requests_from_mono: "c \<le> c' \<Longrightarrow> requests_from E decode c' es \<subseteq> requests_from E decode c (es @ fs)"
proof
  fix q
  assume "c \<le> c'" "q \<in> requests_from E decode c' es"
  then obtain k where "c \<le> k" "k < length es" "entry_request E decode (es ! k) = Some q"
    unfolding requests_from_def by (blast intro: le_trans)
  then have "c \<le> k" "k < length (es @ fs)" "entry_request E decode ((es @ fs) ! k) = Some q"
    by (simp_all add: nth_append)
  then show "q \<in> requests_from E decode c (es @ fs)" unfolding requests_from_def by blast
qed

lemma entry_request_written: "readable E decode x \<Longrightarrow> entry_request E decode (written E x) = Some (request_of x)"
  by (auto simp: readable_def entry_request_def written_def request_of_def split: prod.splits)

text \<open>\<open>s'\<close> comes from \<open>s\<close> by sending requests of \<open>Q\<close>.\<close>

definition sends :: "(string option \<times> string) set \<Rightarrow> sender \<Rightarrow> sender \<Rightarrow> bool" where
  "sends Q s s' =
     (\<exists>new taken. requests s' = requests s @ new \<and> accepted s' = accepted s @ taken \<and>
        set taken \<subseteq> set new \<and> set new \<subseteq> Q)"

lemma sends_refl: "requests s' = requests s \<Longrightarrow> accepted s' = accepted s \<Longrightarrow> sends Q s s'"
  by (simp add: sends_def)

lemma sends_trans: "sends P s t \<Longrightarrow> sends Q t u \<Longrightarrow> P \<subseteq> R \<Longrightarrow> Q \<subseteq> R \<Longrightarrow> sends R s u"
  unfolding sends_def by (elim exE conjE, rule exI, rule exI) (auto simp: subset_iff simp del: split_paired_All)

lemma send_entry_sends:
  assumes "send_entry E decode m s = Some (ok, s')"
  shows "sends {q. entry_request E decode m = Some q} s s' \<and> jlog_entries s' = jlog_entries s \<and> checkpoint s' = checkpoint s"
  using assms
proof (cases "jo_parse E m")
  case None
  then show ?thesis using assms by (simp add: send_entry_def sends_refl)
next
  case (Some w)
  show ?thesis
  proof (cases "jo_get E (Some w) ''url'' = None \<or> jo_get E (Some w) ''data'' = None")
    case True
    then show ?thesis using assms Some by (simp add: send_entry_def sends_refl)
  next
    case False
    then obtain u d where ud: "jo_get E (Some w) ''url'' = Some u" "jo_get E (Some w) ''data'' = Some d" by auto
    then obtain b where b: "jo_string E (Some d) = Some b" "(ok, s') = transfer_document (jo_string E (Some u)) (decode b) s"
      using assms Some by (auto simp: send_entry_def bind_eq_Some_conv)
    then have "entry_request E decode m = Some (jo_string E (Some u), decode b)"
      using Some ud by (simp add: entry_request_def)
    then show ?thesis using b(2) by (auto simp: transfer_document_def sends_def Let_def)
  qed
qed

lemma send_interval_sends:
  assumes "send_interval E decode n i s = Some s'"
  shows "sends (requests_from E decode i (jlog_entries s)) s s' \<and> jlog_entries s' = jlog_entries s \<and>
           min (checkpoint s) i \<le> checkpoint s'"
  using assms
proof (induction n arbitrary: i s)
  case 0
  then show ?case by (simp add: sends_refl)
next
  case (Suc n)
  let ?s = "s\<lparr>read_pos := read_pos s + 1\<rparr>"
  have mono: "requests_from E decode (Suc i) (jlog_entries s) \<subseteq> requests_from E decode i (jlog_entries s)"
    unfolding requests_from_def by (auto intro: Suc_leD)
  show ?case
  proof (cases "read_results s (read_pos s)")
    case False
    then have "send_interval E decode n (Suc i) ?s = Some s'" using Suc.prems by (simp add: Let_def)
    from Suc.IH [OF this] mono show ?thesis by (auto simp: sends_def)
  next
    case True
    then obtain c t where t: "send_entry E decode (jlog_entries s ! i) ?s = Some (c, t)" "i < length (jlog_entries s)"
      and u: "send_interval E decode n (Suc i) (if c then read_checkpoint i t else t) = Some s'"
      using Suc.prems by (auto simp: Let_def bind_eq_Some_conv split: if_splits)
    let ?u = "if c then read_checkpoint i t else t"
    have tu: "requests ?u = requests t" "accepted ?u = accepted t" "jlog_entries ?u = jlog_entries t"
      "checkpoint ?u = checkpoint t \<or> checkpoint ?u = Suc i"
      by (auto simp: read_checkpoint_def Let_def)
    note e = send_entry_sends [OF t(1)]
    have "{q. entry_request E decode (jlog_entries s ! i) = Some q} \<subseteq> requests_from E decode i (jlog_entries s)"
      using t(2) by (auto simp: requests_from_def)
    moreover have "sends {q. entry_request E decode (jlog_entries s ! i) = Some q} s ?u"
      using e tu(1,2) by (simp add: sends_def)
    ultimately show ?thesis using Suc.IH [OF u] sends_trans [OF _ _ _ mono] e tu by fastforce
  qed
qed

lemma later_rounds_sends:
  assumes "later_rounds E decode s rounds = Some s'" "c \<le> checkpoint s"
  shows "sends (requests_from E decode c (jlog_entries s')) s s' \<and> (\<exists>more. jlog_entries s' = jlog_entries s @ more)"
  using assms
proof (induction rounds arbitrary: s)
  case Nil
  then show ?case by (simp add: later_rounds_def sends_refl)
next
  case (Cons r rounds)
  obtain messages interval where r: "r = (messages, interval)" by (cases r)
  let ?t = "s\<lparr>jlog_entries := jlog_entries s @ messages\<rparr>"
  from Cons.prems obtain u where u: "send_round E decode interval ?t = Some u" "later_rounds E decode u rounds = Some s'"
    by (auto simp: later_rounds_def r split: option.splits)
  have v: "sends (requests_from E decode c (jlog_entries u)) s u \<and> jlog_entries u = jlog_entries s @ messages \<and> c \<le> checkpoint u"
  proof (cases interval)
    case None
    then show ?thesis using u(1) Cons.prems(2) by (auto simp: send_round_def sends_refl)
  next
    case (Some n)
    then have "send_interval E decode n (checkpoint s) ?t = Some u" using u(1) by (simp add: send_round_def)
    from send_interval_sends [OF this] Cons.prems(2) requests_from_mono [of c "checkpoint s" E decode "jlog_entries s @ messages" "[]"]
    show ?thesis by (auto simp: sends_def)
  qed
  with Cons.IH [OF u(2)] obtain more where w: "sends (requests_from E decode c (jlog_entries s')) u s'"
    "jlog_entries s' = jlog_entries u @ more" by blast
  have "sends (requests_from E decode c (jlog_entries s')) s s'"
    using sends_trans [OF v [THEN conjunct1] w(1) _ order_refl] requests_from_mono [of c c E decode "jlog_entries u" more] w(2) by simp
  with w(2) v show ?case by simp
qed

lemma after_last_ge: "j < length bs \<Longrightarrow> bs ! j \<Longrightarrow> j < after_last bs"
proof (induction bs arbitrary: j)
  case (Cons b bs)
  then show ?case by (cases j) (fastforce simp: after_last_simps)+
qed simp

lemma request_of_eq [simp]: "(request_of x = request_of y) = (x = y)"
  by (auto simp: request_of_def split: prod.splits)

lemma zip_not_taken:
  assumes "distinct xs" "length bs = length xs" "i < length xs" "\<not> bs ! i"
  shows "xs ! i \<notin> snd ` set (filter fst (zip bs xs))"
  using assms by (auto simp: set_zip nth_eq_iff_index_eq)

section \<open>Properties\<close>

text \<open>However little room curl offers in each call, as long as it offers some, the callback hands over
  the document byte for byte and then reports its end.\<close>

lemma upload_delivers:
  assumes "length json < 2 ^ 64" "list_all (\<lambda>r. r \<noteq> 0) rooms" "length json \<le> length rooms"
  shows "\<exists>sd. upload rooms (send_start json (of_nat (length json))) = Some (json, sd) \<and>
    (\<forall>room. send_metric_input room sd = Some ([], sd))"
proof -
  have "send_start json (of_nat (length json)) = sent_to json 0" by (simp add: send_start_def sent_to_def)
  then show ?thesis
    using upload_from [OF assms(1) le0 assms(2)] assms(3) send_metric_input_at [OF assms(1) order_refl]
    by (auto simp: Let_def sent_to_def)
qed

lemma upload_delivers_witness: "\<exists>sd. upload [2, 1, 5] (send_start ''abc'' 3) = Some (''abc'', sd)"
  using upload_delivers [of "''abc''" "[2, 1, 5]"] by auto

text \<open>C11: A round over entries that the journal took from \<open>journal_output_metrics\<close>, with any outcome of each
  transfer: every document is sent once, in the order of the journal and byte for byte to the URL it
  was written for; those Circonus took are the accepted ones; and the reader confirms everything up
  to the last one taken.\<close>

theorem send_round_exact:
  assumes "reliable s" "jlog_entries s = pre @ map (written E) items @ later" "checkpoint s = length pre"
    and "list_all (readable E decode) items"
  shows "\<exists>s'. send_round E decode (Some (length items)) s = Some s' \<and>
    requests s' = requests s @ map request_of items \<and>
    accepted s' = accepted s @ map (request_of \<circ> snd) (filter fst (zip (oks s (length items)) items)) \<and>
    checkpoint s' = checkpoint s + after_last (oks s (length items))"
  using send_round_written [OF assms] by blast

definition demo_reader :: "(jdoc, int, u64 list) env" where
  "demo_reader = demo_env\<lparr>jo_parse := (\<lambda>m.
     if m = journal_message demo_env ''u'' ''{a}'' then Some (JObj [(''url'', JStr ''u''), (''data'', JStr ''{a}'')])
     else if m = journal_message demo_env ''u'' ''{b}'' then Some (JObj [(''url'', JStr ''u''), (''data'', JStr ''{b}'')])
     else None)\<rparr>"

definition demo_items :: "(string \<times> string) list" where
  "demo_items = [(''u'', ''{a}''), (''u'', ''{b}'')]"

definition demo_sender :: sender where
  "demo_sender =
     \<lparr>jlog_entries = map (written demo_reader) demo_items, checkpoint = 0, read_results = (\<lambda>i. True), read_pos = 0,
      transfers = (\<lambda>i. if i = 0 then Timed_out else Sent_ok), transfer_pos = 0, checkpoint_results = (\<lambda>i. True),
      checkpoint_pos = 0, requests = [], accepted = []\<rparr>"

lemma demo_readable: "list_all (readable demo_reader (\<lambda>b. b)) demo_items"
  by (simp add: demo_items_def readable_def demo_reader_def demo_env_def journal_message_def)

lemma demo_reliable: "reliable demo_sender"
  by (simp add: reliable_def demo_sender_def)

theorem send_round_exact_witness:
  "\<exists>s'. send_round demo_reader (\<lambda>b. b) (Some 2) demo_sender = Some s' \<and>
     requests s' = [(Some ''u'', ''{a}''), (Some ''u'', ''{b}'')] \<and> accepted s' = [(Some ''u'', ''{b}'')] \<and> checkpoint s' = 2"
  using send_round_exact [OF demo_reliable _ _ demo_readable, of "[]" "[]"]
  by (simp add: demo_sender_def demo_items_def request_of_def oks_def after_last_def upt_rec numeral_2_eq_2)

text \<open>C12: A document whose transfer fails is lost as soon as a later one of the same round is taken. The
  round confirms both; whatever is journalled afterwards and however many rounds follow, all they
  send are requests of messages behind the confirmed ones. So a document of which the journal holds
  no other copy is not taken again: Circonus has it as often as before the round.\<close>

theorem failed_upload_is_lost:
  assumes "reliable s" "jlog_entries s = pre @ map (written E) items @ rest" "checkpoint s = length pre"
    and "list_all (readable E decode) items" "i < j" "j < length items"
    and "transfers s (transfer_pos s + i) \<noteq> Sent_ok" "transfers s (transfer_pos s + j) = Sent_ok"
  shows "\<exists>s'. send_round E decode (Some (length items)) s = Some s' \<and> length pre + j < checkpoint s' \<and>
    (\<forall>rounds s''. later_rounds E decode s' rounds = Some s'' \<longrightarrow>
       sends (requests_from E decode (checkpoint s') (jlog_entries s'')) s' s'' \<and>
       ((\<forall>k. length pre \<le> k \<and> k \<noteq> length pre + i \<and> k < length (jlog_entries s'') \<longrightarrow>
           entry_request E decode (jlog_entries s'' ! k) \<noteq> Some (request_of (items ! i))) \<longrightarrow>
        count_list (accepted s'') (request_of (items ! i)) = count_list (accepted s) (request_of (items ! i))))"
proof -
  from send_round_written [OF assms(1-4)] obtain s' where s': "send_round E decode (Some (length items)) s = Some s'"
    "jlog_entries s' = jlog_entries s"
    "accepted s' = accepted s @ map (request_of \<circ> snd) (filter fst (zip (oks s (length items)) items))"
    "checkpoint s' = checkpoint s + after_last (oks s (length items))" by auto
  have o: "length (oks s (length items)) = length items" "\<not> oks s (length items) ! i" "oks s (length items) ! j"
    using assms(5-8) by (simp_all add: oks_def del: upt_Suc)
  have c: "length pre + j < checkpoint s'" using s'(4) assms(3,6) o(1,3) after_last_ge by simp
  have "count_list (accepted s'') (request_of (items ! i)) = count_list (accepted s) (request_of (items ! i))"
    if r: "later_rounds E decode s' rounds = Some s''"
      and copy: "\<forall>k. length pre \<le> k \<and> k \<noteq> length pre + i \<and> k < length (jlog_entries s'') \<longrightarrow>
        entry_request E decode (jlog_entries s'' ! k) \<noteq> Some (request_of (items ! i))" for rounds s''
  proof -
    note l = later_rounds_sends [OF r order_refl]
    then obtain more where j: "jlog_entries s'' = pre @ map (written E) items @ rest @ more" using s'(2) assms(2) by auto
    have e: "jlog_entries s'' ! (length pre + k) = written E (items ! k)" if "k < length items" for k
      using that by (simp add: j nth_append)
    have "items ! k \<noteq> items ! i" if "k < length items" "k \<noteq> i" for k
      using copy [rule_format, of "length pre + k"] e [OF that(1)] that assms(4) j
        entry_request_written [of E decode "items ! k"] by (auto simp: list_all_length)
    then have "request_of (items ! i) \<notin> (request_of \<circ> snd) ` set (filter fst (zip (oks s (length items)) items))"
      using o(1,2) by (auto simp: set_zip) metis
    then have 1: "count_list (accepted s') (request_of (items ! i)) = count_list (accepted s) (request_of (items ! i))"
      unfolding s'(3) by (simp add: count_list_append count_list_0_iff)
    have "request_of (items ! i) \<notin> requests_from E decode (checkpoint s') (jlog_entries s'')"
      using copy c assms(5) by (auto simp: requests_from_def)
    then have "\<exists>taken. accepted s'' = accepted s' @ taken \<and> request_of (items ! i) \<notin> set taken"
      using l by (auto simp: sends_def)
    then show ?thesis using 1 by (auto simp: count_list_append count_list_0_iff)
  qed
  then show ?thesis using s'(1) c later_rounds_sends by blast
qed

theorem failed_upload_is_lost_witness:
  "\<exists>s'. send_round demo_reader (\<lambda>b. b) (Some 2) demo_sender = Some s' \<and> 1 < checkpoint s' \<and>
     (\<forall>s''. later_rounds demo_reader (\<lambda>b. b) s' [([''broken''], Some 1)] = Some s'' \<longrightarrow>
        count_list (accepted s'') (Some ''u'', ''{a}'') = 0)"
proof -
  have l: "length demo_items = 2" by (simp add: demo_items_def)
  have j: "jlog_entries demo_sender = [] @ map (written demo_reader) demo_items @ []" by (simp add: demo_sender_def)
  obtain s' where s: "send_round demo_reader (\<lambda>b. b) (Some (length demo_items)) demo_sender = Some s'"
    "length ([] :: string list) + 1 < checkpoint s'"
    "\<forall>rounds s''. later_rounds demo_reader (\<lambda>b. b) s' rounds = Some s'' \<longrightarrow>
       sends (requests_from demo_reader (\<lambda>b. b) (checkpoint s') (jlog_entries s'')) s' s'' \<and>
       ((\<forall>k. length ([] :: string list) \<le> k \<and> k \<noteq> length ([] :: string list) + 0 \<and> k < length (jlog_entries s'') \<longrightarrow>
           entry_request demo_reader (\<lambda>b. b) (jlog_entries s'' ! k) \<noteq> Some (request_of (demo_items ! 0))) \<longrightarrow>
        count_list (accepted s'') (request_of (demo_items ! 0)) = count_list (accepted demo_sender) (request_of (demo_items ! 0)))"
    using failed_upload_is_lost [OF demo_reliable j _ demo_readable, of 0 1] l by (auto simp: demo_sender_def)
  have "count_list (accepted s'') (Some ''u'', ''{a}'') = 0"
    if r: "later_rounds demo_reader (\<lambda>b. b) s' [([''broken''], Some 1)] = Some s''" for s''
  proof -
    have "jlog_entries s' = jlog_entries demo_sender"
      using send_round_written [OF demo_reliable j _ demo_readable] s(1) by (simp add: demo_sender_def)
    moreover have "send_interval demo_reader (\<lambda>b. b) 1 (checkpoint s') (s'\<lparr>jlog_entries := jlog_entries s' @ [''broken'']\<rparr>) = Some s''"
      using r by (simp add: later_rounds_def send_round_def split: option.splits)
    ultimately have e: "jlog_entries s'' = map (written demo_reader) demo_items @ [''broken'']"
      using send_interval_sends j by fastforce
    have "entry_request demo_reader (\<lambda>b. b) ''broken'' = None"
      by (simp add: entry_request_def demo_reader_def journal_message_def demo_env_def)
    moreover have "entry_request demo_reader (\<lambda>b. b) (written demo_reader (''u'', ''{b}'')) = Some (Some ''u'', ''{b}'')"
      using entry_request_written [of demo_reader "\<lambda>b. b" "(''u'', ''{b}'')"] demo_readable
      by (simp add: demo_items_def request_of_def)
    ultimately have "entry_request demo_reader (\<lambda>b. b) (jlog_entries s'' ! k) \<noteq> Some (request_of (demo_items ! 0))"
      if "k \<noteq> 0" "k < length (jlog_entries s'')" for k
      using that unfolding e by (auto simp: demo_items_def request_of_def nth_Cons less_Suc_eq split: nat.splits)
    then show ?thesis using s(3) r by (simp add: demo_items_def request_of_def demo_sender_def)
  qed
  then show ?thesis using s(1,2) l by auto
qed

end
