(* ===== verification/TM_Visuals.thy ===== *)
theory TM_Visuals
  imports TM_Circonus
begin

text \<open>
  Dashboards (tm_visuals.c). For every service of a team with an API key the program asks Circonus
  whether a dashboard exists; if not it creates the graphs that are missing and then the dashboard,
  from JSON templates. \<open>templates\<close> gives the content of the files that can be opened, \<open>escape\<close> is
  \<open>curl_easy_escape\<close>; the answers of the API are part of its state.
\<close>

section \<open>Dashboards and graphs\<close>

definition dashboard_url :: string where "dashboard_url = ''https://api.circonus.com/v2/dashboard''"
definition graph_url :: string where "graph_url = ''https://api.circonus.com/v2/graph''"

text \<open>A search that fails counts as one that finds the dashboard.\<close>

definition service_dash_exists :: "('j, 'd, 'h) env \<Rightarrow> string \<Rightarrow> string \<Rightarrow> api \<Rightarrow> bool \<times> api" where
  "service_dash_exists E api_key service_name a =
     (let (answer, a) = circonus_curl_get api_key (dashboard_url @ ''?search='') service_name ''%20-%20Performance*'' a in
      case answer of
        None \<Rightarrow> (True, a)
      | Some body \<Rightarrow> (case jo_parse E body of None \<Rightarrow> (False, a) | Some obj \<Rightarrow> (1 \<le> jo_length E (Some obj), a)))"

text \<open>The id of a graph is what follows the first seven characters of its \<open>_cid\<close>.\<close>

definition graph_uuid :: "('j, 'd, 'h) env \<Rightarrow> 'j option \<Rightarrow> string ub" where
  "graph_uuid E graph = do {
     cc \<leftarrow> jo_string E (jo_get E graph ''_cid'');
     (if 7 \<le> length cc then Some (drop 7 cc) else None) }"

text \<open>The last graph of that title among those found.\<close>

definition find_graph :: "('j, 'd, 'h) env \<Rightarrow> 'j \<Rightarrow> string \<Rightarrow> string option ub" where
  "find_graph E found title =
     foldM (\<lambda>uuid i. do {
       let graph = jo_idx E (Some found) i;
       tt \<leftarrow> jo_string E (jo_get E graph ''title'');
       if tt = title then map_option Some (graph_uuid E graph) else Some uuid })
     None [0..<jo_length E (Some found)]"

definition search_graph ::
  "('j, 'd, 'h) env \<Rightarrow> (string \<Rightarrow> string) \<Rightarrow> string \<Rightarrow> string \<Rightarrow> api \<Rightarrow> (string option \<times> api) ub" where
  "search_graph E escape api_key title a =
     (let (answer, a) = circonus_curl_get api_key (graph_url @ ''?search='') (escape title) ''*'' a in
      case answer of
        None \<Rightarrow> Some (None, a)
      | Some body \<Rightarrow>
          (case jo_parse E body of
             None \<Rightarrow> Some (None, a)
           | Some found \<Rightarrow> do { uuid \<leftarrow> find_graph E found title; Some (uuid, a) }))"

definition post_graph :: "('j, 'd, 'h) env \<Rightarrow> string \<Rightarrow> string \<Rightarrow> api \<Rightarrow> (string option \<times> api) ub" where
  "post_graph E api_key resolved a =
     (let (answer, a) = circonus_curl_post api_key graph_url resolved a in
      case answer of
        None \<Rightarrow> Some (None, a)
      | Some body \<Rightarrow>
          (case jo_parse E body of
             None \<Rightarrow> Some (None, a)
           | Some made \<Rightarrow> do { uuid \<leftarrow> graph_uuid E (Some made); Some (Some uuid, a) }))"

text \<open>The result \<open>None\<close> is the NULL pointer of a graph that was neither found nor made.\<close>

definition nil_uuid :: string where "nil_uuid = ''00000000-0000-0000-0000-000000000000''"

definition maybe_create_graph ::
  "('j, 'd, 'h) env \<Rightarrow> (string \<Rightarrow> string option) \<Rightarrow> (string \<Rightarrow> string) \<Rightarrow> string \<Rightarrow> string \<Rightarrow>
     (string \<rightharpoonup> string) \<Rightarrow> api \<Rightarrow> (string option \<times> api) ub" where
  "maybe_create_graph E templates escape api_key path values a =
     (case templates path of
        None \<Rightarrow> Some (Some nil_uuid, a)
      | Some contents \<Rightarrow>
          let resolved = tm_replace_vars (cstr contents) values in
          (case jo_parse E resolved of
             None \<Rightarrow> Some (Some nil_uuid, a)
           | Some obj \<Rightarrow> do {
               title \<leftarrow> jo_string E (jo_get E (Some obj) ''title'');
               (uuid, a) \<leftarrow> search_graph E escape api_key title a;
               if uuid = None then post_graph E api_key resolved a else Some (uuid, a) }))"

definition create_dashboard ::
  "(string \<Rightarrow> string option) \<Rightarrow> string \<Rightarrow> string \<Rightarrow> (string \<rightharpoonup> string) \<Rightarrow> api \<Rightarrow> bool \<times> api" where
  "create_dashboard templates api_key path values a =
     (case templates path of
        None \<Rightarrow> (False, a)
      | Some contents \<Rightarrow>
          let (answer, a) = circonus_curl_post api_key dashboard_url (tm_replace_vars (cstr contents) values) a
          in (answer \<noteq> None, a))"

section \<open>A service\<close>

definition visual :: "string \<Rightarrow> string" where
  "visual name = ''/tracemate/visuals/'' @ name @ ''.json''"

text \<open>The variable that holds a graph's id, its template for transactional services and for others.\<close>

definition standard_graphs :: "(string \<times> string \<times> string) list" where
  "standard_graphs =
     [(''average_response_time_graph_uuid'', ''average_response_time_graph'', ''average_response_time_graph_message''),
      (''throughput_graph_uuid'', ''throughput_graph'', ''throughput_graph_message''),
      (''error_rate_graph_uuid'', ''error_rate_graph'', ''error_rate_graph_message''),
      (''heatmap_response_time_graph_uuid'', ''heatmap_response_time'', ''heatmap_response_time_message''),
      (''response_error_budget_graph_uuid'', ''response_error_budget'', ''response_error_budget''),
      (''cpu_graph_uuid'', ''cpu_graph'', ''cpu_graph''),
      (''latency_error_budget_graph_uuid'', ''latency_error_budget'', ''latency_error_budget''),
      (''topn_graph_uuid'', ''topn_graph'', ''topn_graph'')]"

definition memory_graph :: "string \<Rightarrow> string option" where
  "memory_graph agent =
     (if agent = ''java'' then Some ''jvm_memory_graph''
      else if agent = ''nodejs'' then Some ''nodejs_memory_graph''
      else if agent = ''python'' then Some ''python_memory_graph''
      else if agent = ''go'' then Some ''golang_memory_graph'' else None)"

definition create_graphs ::
  "('j, 'd, 'h) env \<Rightarrow> (string \<Rightarrow> string option) \<Rightarrow> (string \<Rightarrow> string) \<Rightarrow> string \<Rightarrow> service_type \<Rightarrow>
     (string \<rightharpoonup> string) \<Rightarrow> api \<Rightarrow> ((string \<rightharpoonup> string) \<times> api) ub" where
  "create_graphs E templates escape api_key ty values a =
     foldM (\<lambda>(values, a) (var, transactional, other). do {
       (uuid, a) \<leftarrow> maybe_create_graph E templates escape api_key
         (visual (if ty = SERVICE_TYPE_TRANSACTIONAL then transactional else other)) values a;
       Some (values(var := uuid), a) }) (values, a) standard_graphs"

definition create_memory_graph ::
  "('j, 'd, 'h) env \<Rightarrow> (string \<Rightarrow> string option) \<Rightarrow> (string \<Rightarrow> string) \<Rightarrow> string \<Rightarrow> string \<Rightarrow>
     (string \<rightharpoonup> string) \<Rightarrow> api \<Rightarrow> ((string \<rightharpoonup> string) \<times> api) ub" where
  "create_memory_graph E templates escape api_key agent values a =
     (case memory_graph agent of
        None \<Rightarrow> Some (values(''memory_graph_uuid'' := None), a)
      | Some name \<Rightarrow> do {
          (uuid, a) \<leftarrow> maybe_create_graph E templates escape api_key (visual name) values a;
          Some (values(''memory_graph_uuid'' := uuid), a) })"

text \<open>\<open>strdup\<close> of a missing check id is undefined. The threshold is printed in ms and in seconds.\<close>

definition service_values :: "string \<Rightarrow> ('d, 'h) team_data \<Rightarrow> u64 \<Rightarrow> (string \<rightharpoonup> string) ub" where
  "service_values team td threshold_us = do {
     check \<leftarrow> check_id td;
     let ms = threshold_us div 1000;
     Some [''check_id'' \<mapsto> check, ''slo_budget_limit'' \<mapsto> ''0.005'', ''slo_budget_limit_as_percent'' \<mapsto> ''0.5'',
       ''slo_budget_length'' \<mapsto> ''4w'', ''top_count'' \<mapsto> ''15'', ''team'' \<mapsto> team,
       ''slo_ms'' \<mapsto> dec (unat ms), ''slo_secs'' \<mapsto> dec (unat (ms div 1000))] }"

definition create_service ::
  "('j, 'd, 'h) env \<Rightarrow> (string \<Rightarrow> string option) \<Rightarrow> (string \<Rightarrow> string) \<Rightarrow> string \<Rightarrow> ('d, 'h) team_data \<Rightarrow> string \<Rightarrow>
     string \<Rightarrow> service_type \<Rightarrow> u64 \<Rightarrow> api \<Rightarrow> (bool \<times> api) ub" where
  "create_service E templates escape team td service_name agent ty threshold_us a = do {
     values \<leftarrow> service_values team td threshold_us;
     key \<leftarrow> circonus_api_key td;
     let (exists, a) = service_dash_exists E key service_name a;
     if exists then Some (True, a)
     else do {
       (values, a) \<leftarrow> create_graphs E templates escape key ty (values(''service_name'' \<mapsto> service_name)) a;
       (values, a) \<leftarrow> create_memory_graph E templates escape key agent values a;
       Some (create_dashboard templates key (visual ''dashboard_with_slo'') values a) } }"

section \<open>The job\<close>

text \<open>\<open>sprintf\<close> of the name into 256 bytes. A service without agent or of unknown type is skipped.\<close>

definition visit_service ::
  "('j, 'd, 'h) env \<Rightarrow> (string \<Rightarrow> string option) \<Rightarrow> (string \<Rightarrow> string) \<Rightarrow> string \<Rightarrow> ('d, 'h) world \<times> api \<Rightarrow> string \<Rightarrow>
     (('d, 'h) world \<times> api) ub" where
  "visit_service E templates escape team = (\<lambda>(w, a) service. do {
     name \<leftarrow> (if length service < 256 then Some service else None);
     td \<leftarrow> the_team w team;
     si \<leftarrow> service_data td service;
     (case service_agent si of
        None \<Rightarrow> Some (w, a)
      | Some agent \<Rightarrow>
          if si_type si = SERVICE_TYPE_UNKNOWN then Some (w, a)
          else do {
            (ok, a) \<leftarrow> create_service E templates escape team td name agent (si_type si)
              (get_jaeger_threshold_us (Some name) w) a;
            Some (put_team team (td\<lparr>service_data := (service_data td)(service \<mapsto> si\<lparr>created := ok\<rparr>)\<rparr>) w, a) }) })"

definition visit_team ::
  "('j, 'd, 'h) env \<Rightarrow> (string \<Rightarrow> string option) \<Rightarrow> (string \<Rightarrow> string) \<Rightarrow> ('d, 'h) world \<times> api \<Rightarrow> string \<Rightarrow>
     (('d, 'h) world \<times> api) ub" where
  "visit_team E templates escape = (\<lambda>(w, a) team. do {
     td \<leftarrow> the_team w team;
     if circonus_api_key td = None \<or> circonus_api_key td = Some [] then Some (w, a)
     else foldM (visit_service E templates escape team) (w, a) (hash_order E (dom (service_data td))) })"

definition tm_create_visuals ::
  "('j, 'd, 'h) env \<Rightarrow> (string \<Rightarrow> string option) \<Rightarrow> (string \<Rightarrow> string) \<Rightarrow> ('d, 'h) world \<Rightarrow> api \<Rightarrow> (('d, 'h) world \<times> api) ub" where
  "tm_create_visuals E templates escape w a =
     foldM (visit_team E templates escape) (w, a) (hash_order E (dom (teams w)))"


section \<open>Facts\<close>

definition is_dashboard_post :: "api_request \<Rightarrow> bool" where
  "is_dashboard_post rq = (rq_body rq \<noteq> None \<and> rq_url rq = dashboard_url)"

text \<open>What an operation on the API adds to the requests.\<close>

definition adds :: "(api_request list \<Rightarrow> bool) \<Rightarrow> api \<Rightarrow> api \<Rightarrow> bool" where
  "adds P a a' = (\<exists>rqs. api_requests a' = api_requests a @ rqs \<and> P rqs \<and> api_answers a' = api_answers a)"

definition no_dashboard :: "api_request list \<Rightarrow> bool" where
  "no_dashboard rqs = (filter is_dashboard_post rqs = [])"

lemma no_dashboard_refl [simp]: "adds no_dashboard a a"
  by (simp add: adds_def no_dashboard_def)

lemma no_dashboard_trans: "adds no_dashboard a b \<Longrightarrow> adds no_dashboard b c \<Longrightarrow> adds no_dashboard a c"
  by (auto simp: adds_def no_dashboard_def)

lemma get_adds: "circonus_curl_get k u s t a = (r, a') \<Longrightarrow> adds no_dashboard a a'"
  by (auto simp: circonus_curl_get_def api_call_def adds_def no_dashboard_def is_dashboard_post_def)

lemma post_adds: "circonus_curl_post k graph_url c a = (r, a') \<Longrightarrow> adds no_dashboard a a'"
  by (auto simp: circonus_curl_post_def api_call_def adds_def no_dashboard_def is_dashboard_post_def graph_url_def dashboard_url_def)

lemma search_graph_adds: "post (search_graph E escape k t a) (\<lambda>(u, a'). adds no_dashboard a a')"
  unfolding search_graph_def Let_def by (intro post_intros post_Some) (auto dest: get_adds)

lemma post_graph_adds: "post (post_graph E k r a) (\<lambda>(u, a'). adds no_dashboard a a')"
  unfolding post_graph_def Let_def by (intro post_intros post_Some) (auto dest: post_adds)

lemma graph_adds: "post (maybe_create_graph E templates escape k p values a) (\<lambda>(u, a'). adds no_dashboard a a')"
proof -
  have "post (post_graph E k r b) (\<lambda>(u, a'). adds no_dashboard a a')" if "adds no_dashboard a b" for r b
    using post_graph_adds [of E k r b] no_dashboard_trans [OF that] by (fastforce simp: post_def)
  then show ?thesis
    unfolding maybe_create_graph_def Let_def
    by (intro post_intros post_Some post_bind_post [OF search_graph_adds]) (auto intro!: post_Some split: if_splits)
qed

lemma create_graphs_adds: "post (create_graphs E templates escape k ty values a) (\<lambda>(v, a'). adds no_dashboard a a')"
proof -
  have step: "adds no_dashboard a b'" if "adds no_dashboard a b"
    "(case (vs, b) of (values, a) \<Rightarrow> (\<lambda>(var, transactional, other). do {
       (uuid, a) \<leftarrow> maybe_create_graph E templates escape k
         (visual (if ty = SERVICE_TYPE_TRANSACTIONAL then transactional else other)) values a;
       Some (values(var := uuid), a) }) g) = Some (v, b')" for vs b g v b'
    using that no_dashboard_trans [OF that(1)]
    by (auto simp: bind_eq_Some_conv split: prod.splits dest!: postD [OF _ graph_adds])
  show ?thesis
    unfolding post_def create_graphs_def
  proof (intro allI impI)
    fix r assume "foldM (\<lambda>(values, a) (var, transactional, other). do {
       (uuid, a) \<leftarrow> maybe_create_graph E templates escape k
         (visual (if ty = SERVICE_TYPE_TRANSACTIONAL then transactional else other)) values a;
       Some (values(var := uuid), a) }) (values, a) standard_graphs = Some r"
    then show "case r of (v, a') \<Rightarrow> adds no_dashboard a a'"
      by (rule foldM_invariant [of _ _ _ _ "\<lambda>(v, a'). adds no_dashboard a a'"]) (use step in fastforce)+
  qed
qed

lemma memory_adds: "post (create_memory_graph E templates escape k agent values a) (\<lambda>(v, a'). adds no_dashboard a a')"
  unfolding create_memory_graph_def
  by (intro post_intros post_Some post_bind_post [OF graph_adds]) (auto intro: post_Some)

definition search_request :: "string \<Rightarrow> string \<Rightarrow> api_request" where
  "search_request key service =
     \<lparr>rq_url = snprintf_n 4096 (dashboard_url @ ''?search='' @ service @ ''%20-%20Performance*''),
      rq_headers = [auth_header key, ''X-Circonus-App-Name: tracemate'', ''Accept: application/json''], rq_body = None\<rparr>"

text \<open>The search of a dashboard finds one, or does not come through.\<close>

definition taken_as_existing :: "('j, 'd, 'h) env \<Rightarrow> string option \<Rightarrow> bool" where
  "taken_as_existing E answer =
     (case answer of
        None \<Rightarrow> True
      | Some body \<Rightarrow> (case jo_parse E body of None \<Rightarrow> False | Some obj \<Rightarrow> 1 \<le> jo_length E (Some obj)))"

lemma dash_exists:
  "service_dash_exists E key service a =
     (taken_as_existing E (api_answers a (length (api_requests a))),
      a\<lparr>api_requests := api_requests a @ [search_request key service]\<rparr>)"
  by (simp add: service_dash_exists_def circonus_curl_get_def api_call_def search_request_def taken_as_existing_def
      split: option.split)

lemma create_dashboard_adds:
  assumes "create_dashboard templates key p values b = (ok, b')"
  shows "\<exists>rqs. api_requests b' = api_requests b @ rqs \<and> (rqs = [] \<and> \<not> ok \<or> (\<exists>rq. rqs = [rq] \<and> is_dashboard_post rq))"
  using assms
  by (auto simp: create_dashboard_def circonus_curl_post_def api_call_def Let_def is_dashboard_post_def split: option.splits)

section \<open>Properties\<close>


definition demo_api :: api where
  "demo_api = \<lparr>api_answers = (\<lambda>i. Some ''[]''), api_requests = []\<rparr>"

definition demo_templates :: "string \<Rightarrow> string option" where
  "demo_templates p = (if p = visual ''dashboard_with_slo'' then Some ''{{team}}'' else None)"

definition demo_visual_team :: "(int, u64 list) team_data" where
  "demo_visual_team = new_team\<lparr>circonus_api_key := Some ''k'', check_id := Some ''1''\<rparr>"

lemma demo_create:
  "\<exists>a'. create_service demo_env demo_templates (\<lambda>t. t) ''t'' demo_visual_team ''s'' ''java'' SERVICE_TYPE_MESSAGE 2000000 demo_api = Some (True, a')"
proof -
  have n: "jo_parse demo_env = (\<lambda>s. Some (JStr s))" "jo_length demo_env (Some (JStr x)) = 0" for x
    by (simp_all add: demo_env_def)
  have t: "demo_templates (visual x) = None" if "x \<noteq> ''dashboard_with_slo''" for x
    using that by (simp add: demo_templates_def visual_def)
  have d: "demo_templates (visual ''dashboard_with_slo'') = Some ''{{team}}''" by (simp add: demo_templates_def)
  show ?thesis
    by (simp add: create_service_def service_values_def demo_visual_team_def dash_exists demo_api_def taken_as_existing_def n
        create_graphs_def standard_graphs_def create_memory_graph_def memory_graph_def maybe_create_graph_def t d
        create_dashboard_def circonus_curl_post_def api_call_def Let_def)
qed


end
