(* ===== verification/TM_Connect.thy ===== *)
theory TM_Connect
  imports TM_Path
begin

text \<open>
  The connections of tm_kafka.c: \<open>tm_kafka_connect\<close>, the topics that are consumed and the topics
  that are produced to. A record \<open>rd_kafka\<close> holds the answers of librdkafka. \<open>mtevFatal\<close> does not
  return. The structures come from \<open>malloc\<close>, so a field nobody sets is \<open>None\<close>.
  \<open>tm_kafka_disconnect\<close> only frees, the two callbacks only log, \<open>tm_kafka_poll\<close> hands the
  processor to librdkafka, and \<open>tm_kafka_produce_on_partition\<close> is not called.
\<close>

section \<open>Connections\<close>

datatype rd_kafka_type = RD_KAFKA_PRODUCER | RD_KAFKA_CONSUMER

record rd_kafka =
  rd_kafka_new :: "rd_kafka_type \<Rightarrow> (string \<times> string) list \<Rightarrow> bool"
  rd_kafka_brokers_add :: "string \<Rightarrow> nat"
  rd_kafka_consume_start :: "string \<Rightarrow> int \<Rightarrow> int \<Rightarrow> bool"
  rd_kafka_consume_stop :: "string \<Rightarrow> int \<Rightarrow> bool"
  rd_kafka_get_watermark_offsets :: "string \<Rightarrow> int \<Rightarrow> (int \<times> int) option"

record tm_kafka =
  kc_type :: rd_kafka_type
  kc_settings :: "(string \<times> string) list"
  kc_brokers :: string

text \<open>\<open>SIGIO\<close> is 29 on Linux. The settings in the order they are made.\<close>

definition kafka_settings :: "string \<Rightarrow> (string \<times> string) list" where
  "kafka_settings group_id =
     [(''internal.termination.signal'', ''29''),
      (''enable.auto.commit'', ''true''),
      (''auto.commit.interval.ms'', ''1000''),
      (''enable.auto.offset.store'', ''true''),
      (''queue.buffering.max.ms'', ''1000''),
      (''queue.buffering.max.kbytes'', ''10000''),
      (''request.required.acks'', ''1''),
      (''produce.offset.report'', ''true''),
      (''compression.codec'', ''lz4''),
      (''queued.min.messages'', ''10000''),
      (''queued.max.message.kbytes'', ''1000000''),
      (''statistics.interval.ms'', ''2000''),
      (''group.id'', group_id)]"

definition tm_kafka_connect :: "rd_kafka \<Rightarrow> string \<Rightarrow> rd_kafka_type \<Rightarrow> string \<Rightarrow> tm_kafka ub" where
  "tm_kafka_connect R broker_list type group_id =
     (let conf = kafka_settings group_id in
      if \<not> rd_kafka_new R type conf then None
      else if rd_kafka_brokers_add R broker_list = 0 then None
      else Some \<lparr>kc_type = type, kc_settings = conf, kc_brokers = broker_list\<rparr>)"

section \<open>Topics\<close>

record tm_kafka_topic =
  kt_conn :: tm_kafka
  kt_topic :: string
  kt_partition :: "int ub"
  kt_batch_size :: "int ub"

text \<open>The inner option is the pointer the caller gets; a consumer that does not start is \<open>NULL\<close>.\<close>

definition tm_kafka_start_consume ::
  "rd_kafka \<Rightarrow> tm_kafka \<Rightarrow> string \<Rightarrow> int \<Rightarrow> int \<Rightarrow> int \<Rightarrow> tm_kafka_topic option" where
  "tm_kafka_start_consume R t topic part batch_size offset =
     (if rd_kafka_consume_start R topic part offset
      then Some \<lparr>kt_conn = t, kt_topic = topic, kt_partition = Some part, kt_batch_size = Some batch_size\<rparr>
      else None)"

definition tm_kafka_produce_topic :: "tm_kafka \<Rightarrow> string \<Rightarrow> tm_kafka_topic" where
  "tm_kafka_produce_topic t topic =
     \<lparr>kt_conn = t, kt_topic = topic, kt_partition = None, kt_batch_size = None\<rparr>"

definition tm_kafka_get_partition :: "tm_kafka_topic \<Rightarrow> int ub" where
  "tm_kafka_get_partition t = kt_partition t"

definition tm_kafka_get_name :: "tm_kafka_topic \<Rightarrow> string" where
  "tm_kafka_get_name t = kt_topic t"

text \<open>When the offsets are not known yet the variable keeps its value.\<close>

definition tm_kafka_get_high_watermark :: "rd_kafka \<Rightarrow> tm_kafka_topic \<Rightarrow> int \<Rightarrow> int ub" where
  "tm_kafka_get_high_watermark R t watermark = do {
     partition \<leftarrow> kt_partition t;
     Some (case rd_kafka_get_watermark_offsets R (kt_topic t) partition of
             None \<Rightarrow> watermark
           | Some (low, high) \<Rightarrow> high) }"

definition tm_kafka_stop_consume :: "rd_kafka \<Rightarrow> tm_kafka_topic \<Rightarrow> bool ub" where
  "tm_kafka_stop_consume R t = do {
     partition \<leftarrow> kt_partition t;
     Some (rd_kafka_consume_stop R (kt_topic t) partition) }"

section \<open>Facts\<close>

lemma connect_Some:
  "tm_kafka_connect R b ty g = Some t \<longleftrightarrow>
     rd_kafka_new R ty (kafka_settings g) \<and> rd_kafka_brokers_add R b \<noteq> 0 \<and>
     t = \<lparr>kc_type = ty, kc_settings = kafka_settings g, kc_brokers = b\<rparr>"
  by (auto simp: tm_kafka_connect_def Let_def)

lemma start_consume_Some:
  "tm_kafka_start_consume R t topic p b off = Some kt \<longleftrightarrow>
     rd_kafka_consume_start R topic p off \<and>
     kt = \<lparr>kt_conn = t, kt_topic = topic, kt_partition = Some p, kt_batch_size = Some b\<rparr>"
  by (auto simp: tm_kafka_start_consume_def)

text \<open>Only a consumer has a partition, so asking a producer's topic for one is undefined.\<close>

lemma topic_partition:
  "tm_kafka_start_consume R t topic p b off = Some kt \<Longrightarrow> tm_kafka_get_partition kt = Some p"
  "tm_kafka_get_partition (tm_kafka_produce_topic t topic) = None"
  "tm_kafka_get_high_watermark R (tm_kafka_produce_topic t topic) n = None"
  by (simp_all add: start_consume_Some tm_kafka_get_partition_def tm_kafka_produce_topic_def
      tm_kafka_get_high_watermark_def)

end
