(* ===== verification/TM_Init.thy ===== *)
theory TM_Init
  imports TM_Circonus TM_Store TM_Updates TM_Connect
begin

text \<open>
  Starting up: \<open>tm_init\<close> of main.c and \<open>tm_circonus_init\<close>. The configuration file is read through a
  library; here it is a record of what the lookups find (\<open>None\<close> is a missing entry). What the
  libraries answer during the start is a record \<open>boot\<close>. The result is the state of the process,
  the consumers that were started and the timers. The statistics counters are registered with a
  library and have no definition here.
\<close>

section \<open>Configuration\<close>

record conf_regex =
  cr_regex :: "string option"
  cr_replace :: "string option"

record conf_team =
  ct_name :: "string option"
  ct_submission_url :: "string option"
  ct_jaeger_dest_url :: "string option"
  ct_host_metrics :: "bool option"
  ct_host_system :: "bool option"
  ct_rollup :: "bool option"
  ct_api_key :: "string option"
  ct_check_id :: "string option"
  ct_allowlist :: "string option list"
  ct_rewrites :: "conf_regex list"

record conf_topic =
  cp_name :: "string option"
  cp_partition :: "int option"
  cp_batch_size :: "int option"
  cp_read_delay_ms :: "int option"
  cp_offset :: "int option"

record conf_threshold =
  th_name :: "string option"
  th_threshold_ms :: "string option"

record conf =
  cf_create_visuals :: "bool option"
  cf_lookback_seconds :: "int option"
  cf_db_path :: "string option"
  cf_use_bloom_filter :: "bool option"
  cf_broker_list :: "string option"
  cf_group_id :: "string option"
  cf_topics :: "conf_topic list"
  cf_journal_path :: "string option"
  cf_teams :: "conf_team list"
  cf_thresholds :: "conf_threshold list"
  cf_infra_dest_url :: "string option"

text \<open>A lookup leaves the variable as it was when there is no entry.\<close>

definition conf_get :: "'a option \<Rightarrow> 'a \<Rightarrow> 'a" where
  "conf_get found variable = (case found of Some x \<Rightarrow> x | None \<Rightarrow> variable)"

section \<open>Teams\<close>

text \<open>A rewrite without a pattern, or with one that does not compile, is left out.\<close>

definition add_matcher :: "('j, 'd, 'h) env \<Rightarrow> pcre_matcher list \<Rightarrow> conf_regex \<Rightarrow> pcre_matcher list" where
  "add_matcher E ms r =
     (case cr_regex r of
        None \<Rightarrow> ms
      | Some re \<Rightarrow>
          if pcre_compile E re then ms @ [\<lparr>match = re, replacement = conf_get (cr_replace r) ''{foo}''\<rparr>] else ms)"

text \<open>The rest of the record comes from \<open>calloc\<close>; \<open>tm_add_team\<close> fills in the tables.\<close>

definition team_of_conf :: "('j, 'd, 'h) env \<Rightarrow> conf_team \<Rightarrow> ('d, 'h) team_data" where
  "team_of_conf E ct =
     \<lparr>hash = Map.empty, circonus_api_key = ct_api_key ct, check_id = ct_check_id ct, path_squashers = Map.empty,
      squash_regexes = Map.empty, service_data = Map.empty, path_squash_cardinality_factor = 0,
      allowlist = ct_allowlist ct, matcher = foldl (add_matcher E) [] (ct_rewrites ct),
      metric_submission_url = ct_submission_url ct, jaeger_dest_url = ct_jaeger_dest_url ct,
      collect_host_level_metrics = conf_get (ct_host_metrics ct) False,
      collect_host_level_system = conf_get (ct_host_system ct) False,
      rollup_high_cardinality = conf_get (ct_rollup ct) False, metric_flush_frequency_ms = 0\<rparr>"

definition init_team :: "('j, 'd, 'h) env \<Rightarrow> ('d, 'h) world \<Rightarrow> conf_team \<Rightarrow> ('d, 'h) world ub" where
  "init_team E w ct = do { name \<leftarrow> ct_name ct; Some (tm_add_team name (team_of_conf E ct) w) }"

section \<open>Thresholds\<close>

text \<open>
  \<open>strlen\<close> of a missing name is undefined. A missing value is stored as NULL, and the first service
  looked up under that name reads it through \<open>strtoull\<close>; the model stops here.
\<close>

definition init_threshold :: "('d, 'h) world \<Rightarrow> conf_threshold \<Rightarrow> ('d, 'h) world ub" where
  "init_threshold w t = do {
     name \<leftarrow> th_name t;
     ms \<leftarrow> th_threshold_ms t;
     Some (w\<lparr>threshold_hash := (threshold_hash w)(name \<mapsto> ms)\<rparr>) }"

section \<open>Topics\<close>

record consumer =
  cn_topic :: tm_kafka_topic
  cn_read_delay_ms :: int
  cn_read_jobq :: string
  cn_process_jobq :: string

datatype jlog_init = Init_ok | Init_exists | Init_error

text \<open>
  The answers of the libraries: the hook for the flush frequencies, librdkafka, the environments
  on disk and the outcomes of their transactions, the clock at their opening, and jlog and the
  thread library.
\<close>

record boot =
  b_fetch :: "(string \<rightharpoonup> string) \<Rightarrow> string \<rightharpoonup> string"
  b_kafka :: rd_kafka
  b_current :: mdb_env
  b_last :: mdb_env
  b_outcomes :: "nat \<Rightarrow> mdb_outcome"
  b_open_ms :: "u64 \<times> u64"
  b_jlog_init :: jlog_init
  b_jlog_writer :: bool
  b_thread :: bool

definition int_text :: "int \<Rightarrow> string" where
  "int_text n = (if n < 0 then ''-'' @ dec (nat (- n)) else dec (nat n))"

text \<open>
  The batch size is declared outside the loop: a topic without one takes that of the topic before
  it. The partition is declared inside, uninitialised. \<open>-1000\<close> is \<open>RD_KAFKA_OFFSET_STORED\<close>. A
  consumer that does not start is fatal.
\<close>

fun init_topics :: "rd_kafka \<Rightarrow> tm_kafka \<Rightarrow> int \<Rightarrow> conf_topic list \<Rightarrow> consumer list ub" where
  "init_topics R conn batch_size [] = Some []"
| "init_topics R conn batch_size (t # ts) = do {
     topic \<leftarrow> cp_name t;
     partition \<leftarrow> cp_partition t;
     let batch_size = conf_get (cp_batch_size t) batch_size;
     kt \<leftarrow> tm_kafka_start_consume R conn topic partition batch_size (conf_get (cp_offset t) (-1000));
     let part = snprintf_n 20 (int_text partition);
     rest \<leftarrow> init_topics R conn batch_size ts;
     Some (\<lparr>cn_topic = kt, cn_read_delay_ms = conf_get (cp_read_delay_ms t) 0,
             cn_read_jobq = snprintf_n 255 (part @ ''-'' @ topic),
             cn_process_jobq = snprintf_n 255 (topic @ ''-process'')\<rparr> # rest) }"

text \<open>The consumer's connection, and the three topics of the producer's.\<close>

definition init_kafka :: "rd_kafka \<Rightarrow> string \<Rightarrow> string \<Rightarrow> (tm_kafka \<times> tm_kafka_topic list) ub" where
  "init_kafka R broker_list group_id = do {
     kafka_conn \<leftarrow> tm_kafka_connect R broker_list RD_KAFKA_CONSUMER group_id;
     kafka_producer_conn \<leftarrow> tm_kafka_connect R broker_list RD_KAFKA_PRODUCER group_id;
     Some (kafka_conn, map (tm_kafka_produce_topic kafka_producer_conn)
       [''tracemate_aggregates'', ''tracemate_urls'', ''tracemate_regexes'']) }"

section \<open>The journal\<close>

text \<open>The pointer to the journal is set in every case.\<close>

definition tm_circonus_init :: "boot \<Rightarrow> ('d, 'h) world \<Rightarrow> bool \<times> ('d, 'h) world" where
  "tm_circonus_init B w =
     (b_jlog_init B \<noteq> Init_error \<and> b_jlog_writer B \<and> b_thread B, w\<lparr>journal_open := True\<rparr>)"

section \<open>The start\<close>

datatype timer = Metric_trigger_flush | Trigger_transaction_cleanup | Trigger_maintenance | Trigger_visuals

text \<open>
  The store's path is a literal unless it is configured, and it is freed after its use: freeing
  the literal is undefined. \<open>mtevFatal\<close> and a failed \<open>mtevAssert\<close> do not return. Timers are in
  seconds from the end of the start.
\<close>

definition init_process :: "boot \<Rightarrow> conf \<Rightarrow> ('d, 'h) world \<Rightarrow> ('d, 'h) world" where
  "init_process B c w =
     w\<lparr>threshold_hash := Map.empty, flushes_hash := b_fetch B Map.empty,
       store := tm_transaction_store_init (b_current B) (b_last B) (conf_get (cf_lookback_seconds c) 300)
         (conf_get (cf_use_bloom_filter c) False) (b_outcomes B) (fst (b_open_ms B)) (snd (b_open_ms B))\<rparr>"

definition tm_init ::
  "('j, 'd, 'h) env \<Rightarrow> boot \<Rightarrow> conf \<Rightarrow> ('d, 'h) world \<Rightarrow>
     (('d, 'h) world \<times> consumer list \<times> (timer \<times> nat) list) ub" where
  "tm_init E B c w = do {
     let w = init_process B c w;
     let visuals = conf_get (cf_create_visuals c) False;
     brokers \<leftarrow> cf_broker_list c;
     group \<leftarrow> cf_group_id c;
     (conn, producers) \<leftarrow> init_kafka (b_kafka B) brokers group;
     let w = init_path_regex E w;
     consumers \<leftarrow> init_topics (b_kafka B) conn 100 (cf_topics c);
     let (ok, w) = tm_circonus_init B w;
     _ \<leftarrow> (if ok then Some () else None);
     freed \<leftarrow> cf_db_path c;
     w \<leftarrow> foldM (init_team E) w (cf_teams c);
     w \<leftarrow> foldM init_threshold w (cf_thresholds c);
     Some (w, consumers,
           [(Metric_trigger_flush, 10), (Trigger_transaction_cleanup, 20), (Trigger_maintenance, 21)] @
           (if visuals then [(Trigger_visuals, 31)] else [])) }"


section \<open>Facts\<close>

text \<open>The team that the first entry of a name makes.\<close>

definition started_team :: "('j, 'd, 'h) env \<Rightarrow> conf_team \<Rightarrow> ('d, 'h) team_data" where
  "started_team E ct = (team_of_conf E ct)\<lparr>path_squash_cardinality_factor := 200, metric_flush_frequency_ms := 60000\<rparr>"

lemma foldl_add_matcher:
  "foldl (add_matcher E) ms rs =
     ms @ map (\<lambda>r. \<lparr>match = the (cr_regex r), replacement = conf_get (cr_replace r) ''{foo}''\<rparr>)
            (filter (\<lambda>r. case cr_regex r of None \<Rightarrow> False | Some re \<Rightarrow> pcre_compile E re) rs)"
  by (induction rs arbitrary: ms) (simp_all add: add_matcher_def split: option.split)

lemma init_team_effect:
  assumes "init_team E w ct = Some w'"
  shows "\<exists>name. ct_name ct = Some name \<and>
    (\<forall>n. teams w' n = (if n = name \<and> teams w n = None then Some (started_team E ct) else teams w n)) \<and>
    threshold_hash w' = threshold_hash w \<and> store w' = store w"
  using assms by (auto simp: init_team_def tm_add_team_def started_team_def team_of_conf_def Let_def bind_eq_Some_conv)

lemma init_teams:
  assumes "foldM (init_team E) w cts = Some w'"
  shows "teams w' name = (case teams w name of Some td \<Rightarrow> Some td
      | None \<Rightarrow> map_option (started_team E) (find (\<lambda>ct. ct_name ct = Some name) cts)) \<and>
    threshold_hash w' = threshold_hash w \<and> store w' = store w"
  using assms
proof (induction cts arbitrary: w)
  case Nil
  then show ?case by (simp split: option.split)
next
  case (Cons ct cts)
  then obtain w1 where 1: "init_team E w ct = Some w1" "foldM (init_team E) w1 cts = Some w'"
    by (auto split: option.splits)
  from Cons.IH [OF 1(2)] init_team_effect [OF 1(1)] show ?case by (auto split: option.splits)
qed

lemma find_snoc: "find P (xs @ [y]) = (case find P xs of None \<Rightarrow> if P y then Some y else None | Some z \<Rightarrow> Some z)"
  by (induction xs) auto

lemma init_thresholds:
  assumes "foldM init_threshold w ts = Some w'"
  shows "threshold_hash w' name = (case find (\<lambda>t. th_name t = Some name) (rev ts) of
      None \<Rightarrow> threshold_hash w name | Some t \<Rightarrow> th_threshold_ms t) \<and> teams w' = teams w \<and> store w' = store w"
  using assms
proof (induction ts arbitrary: w)
  case (Cons t ts)
  then obtain w1 where 1: "init_threshold w t = Some w1" "foldM init_threshold w1 ts = Some w'"
    by (auto split: option.splits)
  with Cons.IH [OF 1(2)] 1(1) show ?case by (auto simp: find_snoc init_threshold_def bind_eq_Some_conv split: option.splits)
qed simp

lemma init_topics_batch:
  assumes "init_topics R conn b ts = Some cs" "i < length ts"
  shows "kt_batch_size (cn_topic (cs ! i)) =
    Some (last (b # map the (filter (\<lambda>x. x \<noteq> None) (map cp_batch_size (take (Suc i) ts)))))"
  using assms
proof (induction ts arbitrary: b cs i)
  case (Cons t ts)
  from Cons.prems(1) obtain rest where r: "init_topics R conn (conf_get (cp_batch_size t) b) ts = Some rest"
    "length cs = Suc (length rest)" "tl cs = rest"
    "kt_batch_size (cn_topic (hd cs)) = Some (conf_get (cp_batch_size t) b)"
    by (auto simp: bind_eq_Some_conv Let_def start_consume_Some)
  from r(2) have c: "cs = hd cs # rest" using r(3) by (cases cs) auto
  show ?case
  proof (cases i)
    case 0
    then show ?thesis using r(4) by (subst c) (auto simp: conf_get_def split: option.split)
  next
    case (Suc j)
    then show ?thesis using Cons.IH [OF r(1), of j] Cons.prems(2)
      by (subst c) (auto simp: conf_get_def split: option.splits)
  qed
qed simp

text \<open>The start does not survive a store whose path is not configured.\<close>

lemma tm_init_needs_path: "cf_db_path c = None \<Longrightarrow> tm_init E B c w = None"
  by (cases "tm_init E B c w") (auto simp: tm_init_def Let_def bind_eq_Some_conv split: prod.splits)

lemma tm_init_parts:
  assumes "tm_init E B c w = Some (w', consumers, timers)"
  shows "\<exists>w2 conn. foldM (init_team E) ((init_path_regex E (init_process B c w))\<lparr>journal_open := True\<rparr>) (cf_teams c) = Some w2 \<and>
    foldM init_threshold w2 (cf_thresholds c) = Some w' \<and>
    init_topics (b_kafka B) conn 100 (cf_topics c) = Some consumers"
  using assms by (auto simp: tm_init_def tm_circonus_init_def Let_def bind_eq_Some_conv split: if_splits)

lemma tm_init_teams:
  assumes "tm_init E B c w = Some (w', consumers, timers)" "teams w = Map.empty"
  shows "teams w' name = map_option (started_team E) (find (\<lambda>ct. ct_name ct = Some name) (cf_teams c))"
proof -
  from tm_init_parts [OF assms(1)] obtain w2 conn where
    2: "foldM (init_team E) ((init_path_regex E (init_process B c w))\<lparr>journal_open := True\<rparr>) (cf_teams c) = Some w2"
    and 3: "foldM init_threshold w2 (cf_thresholds c) = Some w'" by blast
  show ?thesis using init_teams [OF 2] init_thresholds [OF 3] assms(2) by (simp add: init_process_def init_path_regex_def)
qed

lemma tm_init_typed:
  assumes "tm_init E B c w = Some (w', consumers, timers)" "teams w = Map.empty"
  shows "typed_world w'"
  using tm_init_teams [OF assms]
  by (auto simp: typed_world_def team_metrics_def typed_def started_team_def team_of_conf_def split: option.split)

section \<open>Properties\<close>

text \<open>C27: After the start, of several teams of one name the first stands, with those of its rewrites that
  compile, in their order, and no metrics; of several thresholds of one name the last stands; and every
  consumer reads in batches of the size configured last up to its topic, or of 100.\<close>

theorem tm_init_configures:
  assumes "tm_init E B c w = Some (w', consumers, timers)" "teams w = Map.empty" "i < length (cf_topics c)"
  shows "teams w' name = map_option (started_team E) (find (\<lambda>ct. ct_name ct = Some name) (cf_teams c)) \<and>
    threshold_hash w' name = Option.bind (find (\<lambda>t. th_name t = Some name) (rev (cf_thresholds c))) th_threshold_ms \<and>
    typed_world w' \<and>
    kt_batch_size (cn_topic (consumers ! i)) =
      Some (last (100 # map the (filter (\<lambda>x. x \<noteq> None) (map cp_batch_size (take (Suc i) (cf_topics c))))))"
proof -
  from tm_init_parts [OF assms(1)] obtain w2 conn where
    2: "foldM (init_team E) ((init_path_regex E (init_process B c w))\<lparr>journal_open := True\<rparr>) (cf_teams c) = Some w2"
    and 3: "foldM init_threshold w2 (cf_thresholds c) = Some w'"
    and 4: "init_topics (b_kafka B) conn 100 (cf_topics c) = Some consumers" by blast
  have "threshold_hash w' name = Option.bind (find (\<lambda>t. th_name t = Some name) (rev (cf_thresholds c))) th_threshold_ms"
    using init_thresholds [OF 3] init_teams [OF 2] by (simp add: init_process_def init_path_regex_def split: option.split)
  then show ?thesis
    using tm_init_teams [OF assms(1,2)] tm_init_typed [OF assms(1,2)] init_topics_batch [OF 4 assms(3)] by simp
qed

definition demo_kafka :: rd_kafka where
  "demo_kafka =
     \<lparr>rd_kafka_new = (\<lambda>ty conf. True), rd_kafka_brokers_add = (\<lambda>b. 1), rd_kafka_consume_start = (\<lambda>t p off. True),
      rd_kafka_consume_stop = (\<lambda>t p. True), rd_kafka_get_watermark_offsets = (\<lambda>t p. Some (0, 9))\<rparr>"

definition demo_boot :: boot where
  "demo_boot =
     \<lparr>b_fetch = (\<lambda>m. m), b_kafka = demo_kafka, b_current = (\<lambda>d. Map.empty),
      b_last = (\<lambda>d. Map.empty), b_outcomes = (\<lambda>n. None), b_open_ms = (0, 0), b_jlog_init = Init_exists,
      b_jlog_writer = True, b_thread = True\<rparr>"

definition demo_conf_team :: "string \<Rightarrow> conf_team" where
  "demo_conf_team url =
     \<lparr>ct_name = Some ''t'', ct_submission_url = Some url, ct_jaeger_dest_url = None, ct_host_metrics = None,
      ct_host_system = None, ct_rollup = None, ct_api_key = None, ct_check_id = None, ct_allowlist = [],
      ct_rewrites = [\<lparr>cr_regex = Some ''a'', cr_replace = None\<rparr>]\<rparr>"

definition demo_conf :: conf where
  "demo_conf =
     \<lparr>cf_create_visuals = None, cf_lookback_seconds = None, cf_db_path = Some ''/ts'', cf_use_bloom_filter = None,
      cf_broker_list = Some ''b'', cf_group_id = Some ''g'',
      cf_topics = [\<lparr>cp_name = Some ''x'', cp_partition = Some 0, cp_batch_size = Some 7, cp_read_delay_ms = None, cp_offset = None\<rparr>,
        \<lparr>cp_name = Some ''y'', cp_partition = Some 1, cp_batch_size = None, cp_read_delay_ms = None, cp_offset = None\<rparr>],
      cf_journal_path = None, cf_teams = [demo_conf_team ''u'', demo_conf_team ''v''],
      cf_thresholds = [\<lparr>th_name = Some ''s'', th_threshold_ms = Some ''1''\<rparr>, \<lparr>th_name = Some ''s'', th_threshold_ms = Some ''2''\<rparr>],
      cf_infra_dest_url = None\<rparr>"

definition empty_world :: "(int, u64 list) world" where
  "empty_world = demo_world\<lparr>teams := Map.empty\<rparr>"

lemma demo_start: "\<exists>r. tm_init demo_env demo_boot demo_conf empty_world = Some r"
  by (simp add: tm_init_def init_kafka_def tm_kafka_connect_def tm_kafka_start_consume_def demo_kafka_def init_process_def tm_circonus_init_def init_team_def init_threshold_def demo_boot_def demo_conf_def
      demo_conf_team_def Let_def)

theorem tm_init_configures_witness:
  "\<exists>w' cs ts. tm_init demo_env demo_boot demo_conf empty_world = Some (w', cs, ts) \<and>
     map_option metric_submission_url (teams w' ''t'') = Some (Some ''u'') \<and>
     threshold_hash w' ''s'' = Some ''2'' \<and> kt_batch_size (cn_topic (cs ! 1)) = Some 7"
proof -
  obtain w' cs ts where r: "tm_init demo_env demo_boot demo_conf empty_world = Some (w', cs, ts)"
    using demo_start by auto
  have e: "teams empty_world = Map.empty" by (simp add: empty_world_def)
  have f: "cf_teams demo_conf = [demo_conf_team ''u'', demo_conf_team ''v'']" "1 < length (cf_topics demo_conf)"
    by (simp_all add: demo_conf_def)
  have t: "map_option metric_submission_url (teams w' ''t'') = Some (Some ''u'')"
    using tm_init_configures [OF r e f(2), of "''t''"] unfolding f(1)
    by (simp add: demo_conf_team_def started_team_def team_of_conf_def)
  moreover have "threshold_hash w' ''s'' = Some ''2''"
    using tm_init_configures [OF r e f(2), of "''s''"] by (simp add: demo_conf_def)
  moreover have "kt_batch_size (cn_topic (cs ! 1)) = Some 7"
    using tm_init_configures [OF r e f(2), of "''s''"] by (simp add: demo_conf_def)
  ultimately show ?thesis using r by blast
qed

end
