(* ===== verification/TM_System.thy ===== *)
theory TM_System
  imports TM_Kafka TM_Clean TM_Visuals TM_Init
begin

text \<open>
  The jobs of the running process and what every execution of them keeps. The event loop of main.c
  starts five jobs again and again: reading a batch from Kafka, flushing the metrics, sending and
  rotating the traces, maintenance, and creating dashboards. Here an execution is a sequence of
  whole jobs; the only data that jobs of different queues update at the same time without a lock
  are the counters, whose interleavings are the subject of \<open>TM_Concurrent\<close>.
\<close>

section \<open>Jobs\<close>

text \<open>
  A job carries what the libraries answer during it: the batch and the high watermark, the tables
  the hooks fill and the text of the statistics recorder.
\<close>

datatype job =
    Kafka_read "kmsg list option" int
  | Metric_flush
  | Transaction_clean
  | Maintenance "string \<rightharpoonup> string" "string \<rightharpoonup> string" "string option" "string option"
  | Visuals_create

record ('d, 'h) tracemate =
  process :: "('d, 'h) world"
  tracer :: jaeger
  circonus :: api

text \<open>The maintenance job lets the hooks replace both tables and journals the statistics.\<close>

definition maintenance_function ::
  "('j, 'd, 'h) env \<Rightarrow> (string \<rightharpoonup> string) \<Rightarrow> (string \<rightharpoonup> string) \<Rightarrow> string option \<Rightarrow> string option \<Rightarrow>
     ('d, 'h) world \<Rightarrow> ('d, 'h) world ub" where
  "maintenance_function E thresholds flushes infra_dest_url stats_json w =
     send_infra_metrics E infra_dest_url stats_json (w\<lparr>threshold_hash := thresholds, flushes_hash := flushes\<rparr>)"

definition run_job ::
  "('j, 'd, 'h) env \<Rightarrow> (string option \<Rightarrow> jaeger_in option) \<Rightarrow> (string \<Rightarrow> string option) \<Rightarrow> (string \<Rightarrow> string) \<Rightarrow>
     ('d, 'h) tracemate \<Rightarrow> job \<Rightarrow> ('d, 'h) tracemate ub" where
  "run_job E pb templates escape s job =
     (case job of
        Kafka_read batch watermark \<Rightarrow> do {
          w \<leftarrow> kafka_read E pb batch watermark (process s);
          Some (s\<lparr>process := w\<rparr>) }
      | Metric_flush \<Rightarrow> do {
          w \<leftarrow> tm_flush_team_metrics E (process s);
          Some (s\<lparr>process := w\<rparr>) }
      | Transaction_clean \<Rightarrow> do {
          (w, g) \<leftarrow> transaction_clean E (process s) (tracer s);
          Some (s\<lparr>process := w, tracer := g\<rparr>) }
      | Maintenance thresholds flushes infra_dest_url stats_json \<Rightarrow> do {
          w \<leftarrow> maintenance_function E thresholds flushes infra_dest_url stats_json (process s);
          Some (s\<lparr>process := w\<rparr>) }
      | Visuals_create \<Rightarrow> do {
          (w, a) \<leftarrow> tm_create_visuals E templates escape (process s) (circonus s);
          Some (s\<lparr>process := w, circonus := a\<rparr>) })"

section \<open>What each job keeps\<close>

text \<open>
  \<open>retyped w w'\<close>: every metric of \<open>w'\<close> was one of \<open>w\<close>, with a value of the same kind, and the
  transaction store is untouched. This is what the flush does.
\<close>

definition shrinks :: "('d, 'h) metrics \<Rightarrow> ('d, 'h) metrics \<Rightarrow> bool" where
  "shrinks m m' = (\<forall>k v'. m' k = Some v' \<longrightarrow> (\<exists>v. m k = Some v \<and> kind_of (metric v') = kind_of (metric v)))"

definition retyped :: "('d, 'h) world \<Rightarrow> ('d, 'h) world \<Rightarrow> bool" where
  "retyped w w' = ((\<forall>t. shrinks (team_metrics w t) (team_metrics w' t)) \<and> store w' = store w)"

lemma shrinks_refl [simp]: "shrinks m m"
  by (simp add: shrinks_def)

lemma retyped_refl [simp]: "retyped w w"
  by (simp add: retyped_def)

lemma retyped_trans: "retyped a b \<Longrightarrow> retyped b c \<Longrightarrow> retyped a c"
  unfolding retyped_def shrinks_def by metis

lemma retyped_typed: "retyped w w' \<Longrightarrow> typed_world w \<Longrightarrow> typed_world w'"
  unfolding retyped_def shrinks_def typed_world_def typed_def by metis

lemma retyped_same: "teams w' = teams w \<Longrightarrow> store w' = store w \<Longrightarrow> retyped w w'"
  by (simp add: retyped_def team_metrics_def)

lemma retyped_put: "teams w team = Some td \<Longrightarrow> shrinks (hash td) m \<Longrightarrow> retyped w (put_team team (td\<lparr>hash := m\<rparr>) w)"
  by (auto simp: retyped_def team_metrics_def put_team_def)

lemma kind_reset: "kind_of (metric (reset_value E v)) = kind_of (metric v)"
  "kind_of (metric (clear_value E v)) = kind_of (metric v)"
  by (auto simp: kind_of_def reset_value_def clear_value_def split: metric_union.splits)

lemma shrinks_upd: "m k = Some v \<Longrightarrow> kind_of (metric v') = kind_of (metric v) \<Longrightarrow> shrinks m (m(k \<mapsto> v'))"
  by (simp add: shrinks_def)

lemma retyped_set_value:
  assumes "team_metrics w team k = Some v" "kind_of (metric v') = kind_of (metric v)"
  shows "retyped w (set_value team k v' w)"
proof (cases "teams w team")
  case (Some td)
  then show ?thesis using retyped_put [OF Some shrinks_upd] assms by (simp add: set_value_def team_metrics_def)
qed (simp add: set_value_def)

lemma next_jitter_teams: "next_jitter j w = (x, w') \<Longrightarrow> teams w' = teams w \<and> store w' = store w"
  by (auto simp: next_jitter_def split: if_splits)

lemma flush_json_retyped: "flush_json E k v fl w = (fl', w') \<Longrightarrow> retyped w w'"
  by (auto simp: flush_json_def metric_to_json_def Let_def split: prod.splits dest!: next_jitter_teams intro!: retyped_same)

lemma flush_aggregate_retyped:
  assumes "flush_aggregate E team now k v w = Some w'" "teams w team = Some td" "hash td k = Some v"
  shows "retyped w w'"
proof -
  from flush_aggregate_form [OF assms(1,2)] obtain v' f where s: "flush_step team w w'"
    "team_metrics w' team = (team_metrics w team)(k \<mapsto> v')" "v' = (reset_value E v)\<lparr>flushed_ms := f\<rparr>" by auto
  have "shrinks (team_metrics w t) (team_metrics w' t)" for t
  proof (cases "t = team")
    case True
    then show ?thesis using s assms(2,3) by (auto simp: kind_reset team_metrics_def intro!: shrinks_upd)
  next
    case False
    then show ?thesis using flush_step_other [OF s(1), of t] by (simp add: team_metrics_def)
  qed
  moreover have "store w' = store w" using s(1) by (simp add: flush_step_def same_process_def)
  ultimately show ?thesis by (simp add: retyped_def)
qed

lemma flush_metric_retyped:
  assumes "flush_metric E team now k fl w = Some (full, fl', w')"
  shows "retyped w w'"
proof -
  from assms obtain td v where td: "teams w team = Some td" "hash td k = Some v"
    by (auto simp: flush_metric_def the_team_def bind_eq_Some_conv)
  have "retyped w (set_value team k (v\<lparr>scheduled_for_destruction := True\<rparr>) w)"
    using td by (intro retyped_set_value [of _ _ _ v]) (simp_all add: team_metrics_def)
  then show ?thesis using assms td flush_aggregate_retyped [OF _ td]
    by (auto simp: flush_metric_def the_team_def bind_eq_Some_conv dest!: flush_json_retyped split: if_splits)
qed

lemma journal_retyped: "journal_output_metrics E json n url w = Some (ok, w') \<Longrightarrow> retyped w w'"
  by (auto dest!: journal_form intro!: retyped_same)

lemma mark_retyped:
  assumes "teams w team = Some td"
  shows "retyped w (put_team team (td\<lparr>hash := foldl (mark_value now) (hash td) ks\<rparr>) (w\<lparr>ticks := n\<rparr>))"
proof -
  have "shrinks (hash td) (foldl (mark_value now) (hash td) ks)" by (auto simp: shrinks_def foldl_mark)
  then have "retyped (w\<lparr>ticks := n\<rparr>) (put_team team (td\<lparr>hash := foldl (mark_value now) (hash td) ks\<rparr>) (w\<lparr>ticks := n\<rparr>))"
    using assms by (intro retyped_put) simp_all
  then show ?thesis using retyped_trans retyped_same [of "w\<lparr>ticks := n\<rparr>" w] by simp
qed

lemma flush_buffer_retyped: "flush_buffer E team fl w = Some (ok, w') \<Longrightarrow> retyped w w'"
  by (auto simp: flush_buffer_def the_team_def bind_eq_Some_conv mtev_now_ms_def split: if_splits
      intro: journal_retyped retyped_trans [OF journal_retyped mark_retyped])

lemma flush_metrics_retyped:
  assumes "flush_metrics E team now ks fl w = Some (go, fl', w')"
  shows "retyped w w'"
  using assms
proof (induction ks arbitrary: fl w)
  case (Cons k ks)
  from Cons.prems obtain full fl1 w1 go1 fl2 w2 where 1: "flush_metric E team now k fl w = Some (full, fl1, w1)"
    and 2: "(if full then flush_batch E team fl1 w1 else Some (True, fl1, w1)) = Some (go1, fl2, w2)"
    and 3: "(if go1 then flush_metrics E team now ks fl2 w2 else Some (False, fl2, w2)) = Some (go, fl', w')"
    by (auto simp: bind_eq_Some_conv)
  have "retyped w1 w2" using 2 flush_buffer_retyped by (fastforce simp: flush_batch_def bind_eq_Some_conv split: if_splits)
  moreover have "retyped w2 w'" using 3 Cons.IH by (auto split: if_splits)
  ultimately show ?case using flush_metric_retyped [OF 1] retyped_trans by blast
qed simp

lemma delete_retyped: "delete_metrics team ks w = Some w' \<Longrightarrow> retyped w w'"
  by (auto simp: delete_metrics_def the_team_def bind_eq_Some_conv shrinks_def restrict_map_def intro!: retyped_put)

lemma publish_retyped: "publish_regexes E team w = Some w' \<Longrightarrow> retyped w w'"
  by (drule publish_regexes_publishes) (simp add: publishes_def same_process_def retyped_same)

lemma flush_team_retyped:
  assumes "flush_team E now w team = Some w'"
  shows "retyped w w'"
proof -
  from assms obtain td where "teams w team = Some td"
    by (auto simp: flush_team_def the_team_def bind_eq_Some_conv)
  with assms obtain go fl w1 w2
    where 1: "flush_metrics E team now (metric_order E (dom (hash td))) flush_start w = Some (go, fl, w1)"
      and 2: "if go then \<exists>ok wb. flush_buffer E team fl w1 = Some (ok, wb) \<and> publish_regexes E team wb = Some w2 else w2 = w1"
      and 3: "delete_metrics team (fl_dead fl) w2 = Some w'"
    by (auto simp: flush_team_def the_team_def bind_eq_Some_conv split: if_splits)
  have "retyped w1 w2"
    using 2 by (auto split: if_splits dest!: flush_buffer_retyped publish_retyped intro: retyped_trans)
  then show ?thesis
    using flush_metrics_retyped [OF 1] delete_retyped [OF 3] retyped_trans by blast
qed

lemma flush_retyped:
  assumes "tm_flush_team_metrics E w = Some w'"
  shows "retyped w w'"
proof -
  let ?w = "w\<lparr>ticks := ticks w + 1\<rparr>"
  have "foldM (flush_team E (clock w (ticks w))) ?w (hash_order E (dom (teams w))) = Some w'"
    using assms by (simp add: tm_flush_team_metrics_def mtev_now_ms_def)
  moreover have "retyped w ?w" by (rule retyped_same) simp_all
  ultimately show ?thesis
    by (rule foldM_invariant [where I = "retyped w"]) (blast intro: retyped_trans flush_team_retyped)
qed

lemma kafka_read_docs: "kafka_read E pb batch watermark w = Some w' \<Longrightarrow> docs_step w w'"
proof -
  assume "kafka_read E pb batch watermark w = Some w'"
  then obtain n w1 where 1: "tm_kafka_consume_messages E pb batch w = Some (n, w1)" and 2: "w' = update_lag watermark w1"
    by (auto simp: kafka_read_def bind_eq_Some_conv)
  have "docs_step w w1" using 1 consume_step by (fastforce simp: tm_kafka_consume_messages_def split: option.splits)
  then show ?thesis using docs_same_then [of w w1 w'] by (simp add: 2 update_lag_def Let_def)
qed

lemma maintenance_same:
  assumes "maintenance_function E th fl url js w = Some w'"
  shows "teams w' = teams w" "store w' = store w"
  using assms
  by (auto simp: maintenance_function_def send_infra_metrics_def bind_eq_Some_conv split: option.splits dest!: journal_form)

text \<open>Dashboards change what is known of the services, nothing else.\<close>

lemma post_foldM:
  assumes "I s" "\<And>s x. I s \<Longrightarrow> post (f s x) I"
  shows "post (foldM f s xs) I"
  using assms(1)
proof (induction xs arbitrary: s)
  case (Cons x xs)
  then show ?case using assms(2) [OF Cons.prems, of x] by (auto simp: post_def split: option.split)
qed (simp add: post_def)

lemma put_team_same_metrics:
  "teams w team = Some td \<Longrightarrow> hash td' = hash td \<Longrightarrow>
     team_metrics (put_team team td' w) = team_metrics w \<and> store (put_team team td' w) = store w"
  by (auto simp: team_metrics_def put_team_def)

abbreviation same_metrics :: "('d, 'h) world \<Rightarrow> ('d, 'h) world \<times> api \<Rightarrow> bool" where
  "same_metrics w0 \<equiv> (\<lambda>(w, a). team_metrics w = team_metrics w0 \<and> store w = store w0)"

lemma visit_service_metrics:
  "same_metrics w0 s \<Longrightarrow> post (visit_service E templates escape team s service) (same_metrics w0)"
  unfolding visit_service_def the_team_def
  by (cases s) (auto intro!: post_intros post_Some simp: put_team_same_metrics)

lemma visit_team_metrics:
  "same_metrics w0 s \<Longrightarrow> post (visit_team E templates escape s team) (same_metrics w0)"
  unfolding visit_team_def the_team_def
  by (cases s) (auto intro!: post_intros post_Some post_foldM visit_service_metrics)

lemma visuals_same:
  assumes "tm_create_visuals E templates escape w a = Some (w', a')"
  shows "team_metrics w' = team_metrics w" "store w' = store w"
proof -
  have "post (tm_create_visuals E templates escape w a) (same_metrics w)"
    unfolding tm_create_visuals_def by (intro post_foldM visit_team_metrics) simp_all
  from postD [OF assms this] show "team_metrics w' = team_metrics w" "store w' = store w" by simp_all
qed

lemma delete_old_teams: "teams (snd (delete_old w)) = teams w"
  by (auto simp: delete_old_def mtev_now_ms_def Let_def set_store_def split: prod.splits)

lemma transaction_clean_docs:
  fixes E :: "('j, 'd, 'h) env"
  assumes "transaction_clean E w g = Some (w', g')"
  shows "docs_step w w'"
proof -
  have "(\<lambda>E w g r. docs_step w (fst r)) E w g (w', g')"
  proof (rule transaction_clean.raw_induct [OF _ assms])
    fix f and E :: "('j, 'd, 'h) env" and w g and r :: "('d, 'h) world \<times> jaeger"
    assume ih: "\<And>E w g r. f E w g = Some r \<Longrightarrow> docs_step w (fst r)"
      and r: "Option.bind (tm_transaction_store_process_jaeger E w g) (\<lambda>(jaegered_count, w, g).
        let (loop_count, w) = delete_old w in if loop_count < 500 then Some (w, g) else f E w g) = Some r"
    then obtain n w1 g1 where 1: "tm_transaction_store_process_jaeger E w g = Some (n, w1, g1)"
      and 2: "(if fst (delete_old w1) < 500 then Some (snd (delete_old w1), g1) else f E (snd (delete_old w1)) g1) = Some r"
      by (cases "tm_transaction_store_process_jaeger E w g") (auto simp: split_beta Let_def cong: if_cong)
    have "docs_step w w1" using postD [OF 1 process_jaeger_step] clean_stepD(1) by fastforce
    moreover have "docs_step w1 (snd (delete_old w1))" by (rule docs_step_same_teams) (rule delete_old_teams)
    ultimately have "docs_step w (snd (delete_old w1))" by (rule docs_step_trans)
    then show "docs_step w (fst r)" using 2 docs_step_trans ih [of E "snd (delete_old w1)" g1 r]
      by (auto split: if_splits)
  qed
  then show ?thesis by simp
qed

lemma run_job_typed:
  assumes "run_job E pb templates escape s job = Some s'" "typed_world (process s)"
  shows "typed_world (process s')"
  using assms
proof (cases job)
  case (Maintenance th fl url js)
  then obtain w' where "maintenance_function E th fl url js (process s) = Some w'" "process s' = w'"
    using assms by (auto simp: run_job_def bind_eq_Some_conv)
  then show ?thesis using assms(2) maintenance_same retyped_typed [OF retyped_same] by blast
qed (auto simp: run_job_def bind_eq_Some_conv typed_world_def
    dest!: kafka_read_docs [THEN docs_step_typed] transaction_clean_docs [THEN docs_step_typed]
      flush_retyped [THEN retyped_typed] visuals_same(1))

section \<open>Invariants of the jobs\<close>

text \<open>
  What an invariant of the process has to promise: every job keeps it, and it does not speak of the
  statistics of a topic. Then every execution keeps it.
\<close>

locale job_invariant =
  fixes E :: "('j, 'd, 'h) env" and pb :: "string option \<Rightarrow> jaeger_in option"
    and templates :: "string \<Rightarrow> string option" and escape :: "string \<Rightarrow> string"
    and I :: "('d, 'h) world \<Rightarrow> bool"
  assumes kept: "run_job E pb templates escape s job = Some s' \<Longrightarrow> I (process s) \<Longrightarrow> I (process s')"
    and statistics_free: "I (w\<lparr>stats := st\<rparr>) = I w"
begin

lemma jobs_keep:
  "foldM (run_job E pb templates escape) s jobs = Some s' \<Longrightarrow> I (process s) \<Longrightarrow> I (process s')"
  by (erule foldM_invariant [where I = "\<lambda>s. I (process s)"]) (auto intro: kept)

end

interpretation typed: job_invariant E pb templates escape typed_world
  for E :: "('j, 'd, 'h) env" and pb templates escape
  by unfold_locales (auto simp: typed_world_def team_metrics_def dest: run_job_typed [unfolded typed_world_def team_metrics_def])

section \<open>Properties\<close>

text \<open>C1: From its start on, whatever configuration it is given, whatever documents arrive and in whatever
  order the jobs run, every metric of the process holds the member of the union that its name
  promises: no counter is ever read as a histogram, no histogram as text.\<close>

theorem jobs_keep_types:
  assumes "tm_init E B c w = Some (w1, consumers, timers)" "teams w = Map.empty"
    and "foldM (run_job E pb templates escape) \<lparr>process = w1, tracer = g, circonus = a\<rparr> jobs = Some s"
  shows "typed_world (process s)"
  using tm_init_typed [OF assms(1,2)] typed.jobs_keep [OF assms(3)] by simp

text \<open>C6: A metric leaves the process only in a flush that finds it flushed after its last change and idle
  for more than ten minutes; no other job removes one.\<close>

theorem only_flush_removes:
  assumes "run_job E pb templates escape s job = Some s'"
    and "team_metrics (process s) t k = Some v" "team_metrics (process s') t k = None"
    and "walks_once E (process s) (hash_order E (dom (teams (process s))))"
  shows "job = Metric_flush \<and> expired (clock (process s) (ticks (process s))) v"
proof (cases job)
  case Metric_flush
  let ?w = "process s" and ?ts = "hash_order E (dom (teams (process s)))"
  define w1 where "w1 = ?w\<lparr>ticks := ticks ?w + 1\<rparr>"
  have tm: "team_metrics w1 = team_metrics ?w" by (simp add: w1_def fun_eq_iff team_metrics_def)
  have f: "foldM (flush_team E (clock ?w (ticks ?w))) w1 ?ts = Some (process s')"
    using assms(1) Metric_flush by (auto simp: run_job_def bind_eq_Some_conv tm_flush_team_metrics_def mtev_now_ms_def w1_def)
  have w: "walks_once E w1 ?ts" using assms(4) by (simp add: walks_once_def tm)
  have "t \<in> set ?ts"
    using flush_teams_other [OF f w, of t] assms(2,3) by (auto simp: w1_def team_metrics_def split: option.splits)
  from flush_teams_outcome [OF f w this, of k v] assms(2,3) Metric_flush show ?thesis by (simp add: tm outcome_def)
next
  case (Kafka_read batch watermark)
  then have "docs_step (process s) (process s')"
    using assms(1) kafka_read_docs by (auto simp: run_job_def bind_eq_Some_conv)
  then show ?thesis using docs_step_keeps [of "process s" "process s'" t] assms(2,3) by auto
next
  case Transaction_clean
  then have "docs_step (process s) (process s')"
    using assms(1) transaction_clean_docs by (auto simp: run_job_def bind_eq_Some_conv)
  then show ?thesis using docs_step_keeps [of "process s" "process s'" t] assms(2,3) by auto
next
  case (Maintenance th fl url js)
  then have "teams (process s') = teams (process s)"
    using assms(1) maintenance_same by (auto simp: run_job_def bind_eq_Some_conv)
  then show ?thesis using assms(2,3) by (simp add: team_metrics_def)
next
  case Visuals_create
  then have "team_metrics (process s') = team_metrics (process s)"
    using assms(1) visuals_same(1) by (auto simp: run_job_def bind_eq_Some_conv)
  then show ?thesis using assms(2,3) by simp
qed

definition started :: "(int, u64 list) world \<Rightarrow> (int, u64 list) tracemate" where
  "started w = \<lparr>process = w, tracer = demo_jaeger, circonus = demo_api\<rparr>"

theorem jobs_keep_types_witness:
  "\<exists>w1 cs ts s. tm_init demo_env demo_boot demo_conf empty_world = Some (w1, cs, ts) \<and>
     foldM (run_job demo_env (\<lambda>p. None) (\<lambda>p. None) (\<lambda>t. t)) (started w1)
       [Kafka_read None 5, Maintenance Map.empty Map.empty None None] = Some s \<and> typed_world (process s)"
proof -
  obtain w1 cs ts where i: "tm_init demo_env demo_boot demo_conf empty_world = Some (w1, cs, ts)"
    using demo_start by auto
  have "\<exists>s. foldM (run_job demo_env (\<lambda>p. None) (\<lambda>p. None) (\<lambda>t. t)) (started w1)
      [Kafka_read None 5, Maintenance Map.empty Map.empty None None] = Some s"
    by (simp add: run_job_def started_def kafka_read_def tm_kafka_consume_messages_def maintenance_function_def
        send_infra_metrics_def)
  then obtain s where s: "foldM (run_job demo_env (\<lambda>p. None) (\<lambda>p. None) (\<lambda>t. t)) (started w1)
      [Kafka_read None 5, Maintenance Map.empty Map.empty None None] = Some s" by blast
  have "teams empty_world = Map.empty" by (simp add: empty_world_def)
  from jobs_keep_types [OF i this s [unfolded started_def]] i s show ?thesis by blast
qed

definition old_counter :: "(int, u64 list) metric_value" where
  "old_counter = (make_integer_value demo_env 5 100)\<lparr>flushed_ms := 200\<rparr>"

definition old_world :: "(int, u64 list) world" where
  "old_world = demo_world\<lparr>teams := [''t'' \<mapsto> new_team\<lparr>hash := [demo_key \<mapsto> old_counter]\<rparr>]\<rparr>"

lemma old_expired: "expired 1000000 old_counter"
  by (simp add: old_counter_def make_integer_value_def new_value_def expired_def)

lemma old_flush: "\<exists>w. tm_flush_team_metrics demo_env old_world = Some w \<and> team_metrics w ''t'' demo_key = None"
  by (simp add: tm_flush_team_metrics_def mtev_now_ms_def old_world_def demo_env_sel flush_team_def the_team_def
      flush_metric_def old_expired set_value_def put_team_def flush_batch_def flush_start_def TWO_MB_def flush_buffer_def
      journal_output_metrics_def publish_regexes_def new_team_def delete_metrics_def team_metrics_def Let_def)

theorem only_flush_removes_witness:
  "\<exists>s'. run_job demo_env (\<lambda>p. None) (\<lambda>p. None) (\<lambda>t. t) (started old_world) Metric_flush = Some s' \<and>
     team_metrics (process s') ''t'' demo_key = None \<and> expired 1000000 old_counter"
proof -
  obtain w where w: "tm_flush_team_metrics demo_env old_world = Some w" "team_metrics w ''t'' demo_key = None"
    using old_flush by blast
  then have r: "run_job demo_env (\<lambda>p. None) (\<lambda>p. None) (\<lambda>t. t) (started old_world) Metric_flush = Some ((started old_world)\<lparr>process := w\<rparr>)"
    by (simp add: run_job_def started_def)
  have "team_metrics (process (started old_world)) ''t'' demo_key = Some old_counter"
    "walks_once demo_env (process (started old_world)) (hash_order demo_env (dom (teams (process (started old_world)))))"
    "clock old_world (ticks old_world) = 1000000"
    by (simp_all add: started_def old_world_def team_metrics_def demo_env_def walks_once_def demo_world_def)
  with only_flush_removes [OF r, of "''t''" demo_key old_counter] w r show ?thesis by (simp add: started_def)
qed

end
