(* ===== verification/TM_Bloom.thy ===== *)
theory TM_Bloom
  imports TM_Store
begin

text \<open>
  The bloom filter of the transaction store: \<open>XXH64\<close> of a trace id
  (\<open>src/src/bloom/xxhash.c\<close>, the little-endian one-shot variant the store calls), the multiply-shift
  hash of \<open>hashutil.hpp\<close>, the filter of \<open>bloom.hpp\<close> with 16 bits per item and 11 probes, and the C
  interface of \<open>bloom.cpp\<close>. The two 128-bit constants that a filter draws from
  \<open>std::random_device\<close> are a parameter.

  The store's model sees a filter through \<open>bloom_contains\<close> of the environment and assumes that it
  has no false negatives (\<open>bloom_sound\<close>). Here that assumption is proved of the code: a filter
  answers yes exactly when the bits of the key it is asked for are among those of the keys added.
\<close>

section \<open>xxHash\<close>

definition PRIME64_1 :: u64 where "PRIME64_1 = 11400714785074694791"
definition PRIME64_2 :: u64 where "PRIME64_2 = 14029467366897019727"
definition PRIME64_3 :: u64 where "PRIME64_3 = 1609587929392839161"
definition PRIME64_4 :: u64 where "PRIME64_4 = 9650029242287828579"
definition PRIME64_5 :: u64 where "PRIME64_5 = 2870177450012600261"

definition XXH_rotl64 :: "u64 \<Rightarrow> nat \<Rightarrow> u64" where
  "XXH_rotl64 x r = (push_bit r x OR drop_bit (64 - r) x)"

text \<open>A little-endian number from the bytes of the input.\<close>

fun XXH_readLE :: "string \<Rightarrow> u64" where
  "XXH_readLE [] = 0"
| "XXH_readLE (c # cs) = of_char c OR push_bit 8 (XXH_readLE cs)"

definition XXH64_round :: "u64 \<Rightarrow> u64 \<Rightarrow> u64" where
  "XXH64_round acc input =
     (let acc = acc + input * PRIME64_2;
          acc = XXH_rotl64 acc 31
      in acc * PRIME64_1)"

definition XXH64_mergeRound :: "u64 \<Rightarrow> u64 \<Rightarrow> u64" where
  "XXH64_mergeRound acc val =
     (let val = XXH64_round 0 val;
          acc = acc XOR val
      in acc * PRIME64_1 + PRIME64_4)"

text \<open>The four accumulators over the blocks of 32 bytes, with the rest of the input.\<close>

fun XXH64_stripes :: "u64 \<Rightarrow> u64 \<Rightarrow> u64 \<Rightarrow> u64 \<Rightarrow> string \<Rightarrow> (u64 \<times> u64 \<times> u64 \<times> u64) \<times> string" where
  "XXH64_stripes v1 v2 v3 v4 p =
     (if length p < 32 then ((v1, v2, v3, v4), p)
      else XXH64_stripes
        (XXH64_round v1 (XXH_readLE (take 8 p)))
        (XXH64_round v2 (XXH_readLE (take 8 (drop 8 p))))
        (XXH64_round v3 (XXH_readLE (take 8 (drop 16 p))))
        (XXH64_round v4 (XXH_readLE (take 8 (drop 24 p))))
        (drop 32 p))"

fun XXH64_words :: "u64 \<Rightarrow> string \<Rightarrow> u64 \<times> string" where
  "XXH64_words h64 p =
     (if length p < 8 then (h64, p)
      else XXH64_words
        (XXH_rotl64 (h64 XOR XXH64_round 0 (XXH_readLE (take 8 p))) 27 * PRIME64_1 + PRIME64_4)
        (drop 8 p))"

fun XXH64_bytes :: "u64 \<Rightarrow> string \<Rightarrow> u64" where
  "XXH64_bytes h64 [] = h64"
| "XXH64_bytes h64 (c # p) =
     XXH64_bytes (XXH_rotl64 (h64 XOR of_char c * PRIME64_5) 11 * PRIME64_1) p"

definition XXH64_avalanche :: "u64 \<Rightarrow> u64" where
  "XXH64_avalanche h =
     (let h = h XOR drop_bit 33 h; h = h * PRIME64_2;
          h = h XOR drop_bit 29 h; h = h * PRIME64_3
      in h XOR drop_bit 32 h)"

definition XXH64 :: "string \<Rightarrow> u64 \<Rightarrow> u64" where
  "XXH64 input seed =
     (let (h64, p) =
        (if length input \<ge> 32 then
           (case XXH64_stripes (seed + PRIME64_1 + PRIME64_2) (seed + PRIME64_2) (seed + 0)
                   (seed - PRIME64_1) input of
              ((v1, v2, v3, v4), p) \<Rightarrow>
                let h = XXH_rotl64 v1 1 + XXH_rotl64 v2 7 + XXH_rotl64 v3 12 + XXH_rotl64 v4 18;
                    h = XXH64_mergeRound h v1; h = XXH64_mergeRound h v2;
                    h = XXH64_mergeRound h v3; h = XXH64_mergeRound h v4
                in (h, p))
         else (seed + PRIME64_5, input));
        h64 = h64 + of_nat (length input);
        (h64, p) = XXH64_words h64 p;
        (h64, p) =
          (if length p \<ge> 4 then
             (XXH_rotl64 (h64 XOR XXH_readLE (take 4 p) * PRIME64_1) 23 * PRIME64_2 + PRIME64_3,
              drop 4 p)
           else (h64, p));
        h64 = XXH64_bytes h64 p
      in XXH64_avalanche h64)"

section \<open>The filter\<close>

datatype bloom_status = Ok | NotFound | NotEnoughSpace | NotSupported

record hasher =
  multiplier :: "128 word"
  addend :: "128 word"

record bloom_filter =
  bdata :: "u64 list"
  bsize :: u64
  arrayLength :: u64
  bitCount :: u64
  kk :: nat
  hasher :: hasher

definition multiply_shift :: "hasher \<Rightarrow> u64 \<Rightarrow> u64" where
  "multiply_shift h key = ucast (drop_bit 64 (addend h + multiplier h * ucast key))"

definition fastrange64 :: "u64 \<Rightarrow> u64 \<Rightarrow> u64" where
  "fastrange64 word p = ucast (drop_bit 64 ((ucast word :: 128 word) * ucast p))"

text \<open>\<open>1L << (index & 63)\<close> of an index cut to 32 bits.\<close>

definition getBit :: "u32 \<Rightarrow> u64" where
  "getBit index = push_bit (unat (index AND 63)) 1"

definition BloomFilter :: "hasher \<Rightarrow> u64 \<Rightarrow> bloom_filter" where
  "BloomFilter h n =
     (let bits = n * 16; len = (bits + 63) div 64
      in \<lparr>bdata = replicate (unat len) 0, bsize = 0, arrayLength = len, bitCount = bits, kk = 11, hasher = h\<rparr>)"

text \<open>The template argument \<open>k = (int)(16 * 0.693147180559945 + 0.5)\<close>.\<close>

definition bloom_k :: nat where "bloom_k = 11"

definition rotated :: "u64 \<Rightarrow> u64" where
  "rotated h = (drop_bit 32 h OR push_bit 32 h)"

text \<open>The loops of \<open>Add\<close> and \<open>Contain\<close>: an index outside the array is undefined.\<close>

fun add_loop :: "nat \<Rightarrow> u64 \<Rightarrow> u64 \<Rightarrow> bloom_filter \<Rightarrow> bloom_filter ub" where
  "add_loop 0 a b f = Some f"
| "add_loop (Suc k) a b f =
     (let i = unat (fastrange64 a (arrayLength f)) in
      if i < length (bdata f)
      then add_loop k (a + b) b (f\<lparr>bdata := (bdata f)[i := bdata f ! i OR getBit (ucast a)]\<rparr>)
      else None)"

definition Add :: "u64 \<Rightarrow> bloom_filter \<Rightarrow> bloom_filter ub" where
  "Add key f =
     (let h = multiply_shift (hasher f) key in add_loop bloom_k (rotated h) h f)"

fun contain_loop :: "nat \<Rightarrow> u64 \<Rightarrow> u64 \<Rightarrow> bloom_filter \<Rightarrow> bloom_status ub" where
  "contain_loop 0 a b f = Some Ok"
| "contain_loop (Suc k) a b f =
     (let i = unat (fastrange64 a (arrayLength f)) in
      if i < length (bdata f)
      then if bdata f ! i AND getBit (ucast a) = 0 then Some NotFound
           else contain_loop k (a + b) b f
      else None)"

definition Contain :: "u64 \<Rightarrow> bloom_filter \<Rightarrow> bloom_status ub" where
  "Contain key f =
     (let h = multiply_shift (hasher f) key in contain_loop bloom_k (rotated h) h f)"

section \<open>The C interface\<close>

definition bloom_create :: "hasher \<Rightarrow> u64 \<Rightarrow> bloom_filter" where
  "bloom_create h total_items = BloomFilter h total_items"

definition bloom_add :: "string \<Rightarrow> bloom_filter \<Rightarrow> bloom_filter ub" where
  "bloom_add s f = Add (XXH64 s 0) f"

definition bloom_has :: "string \<Rightarrow> bloom_filter \<Rightarrow> bool ub" where
  "bloom_has s f = do { st \<leftarrow> Contain (XXH64 s 0) f; Some (st = Ok) }"

text \<open>Adding the keys of a list, the last one first, as the store's model keeps its keys.\<close>

definition bloom_add_all :: "string list \<Rightarrow> bloom_filter \<Rightarrow> bloom_filter ub" where
  "bloom_add_all ss f = foldr (\<lambda>s r. r \<bind> bloom_add s) ss (Some f)"

section \<open>Filters without false negatives\<close>

text \<open>
  What a client of a filter relies on: adding sets the marks of the key and only those, and the
  answer is whether all marks of the key are set.
\<close>

locale marking_filter =
  fixes ins :: "string \<Rightarrow> 'f \<Rightarrow> 'f option"
    and has :: "string \<Rightarrow> 'f \<Rightarrow> bool option"
    and ok :: "'f \<Rightarrow> bool"
    and marks :: "'f \<Rightarrow> 'b set"
    and marks_of :: "'f \<Rightarrow> string \<Rightarrow> 'b set"
  assumes ins_law: "ok f \<Longrightarrow> \<exists>f'. ins s f = Some f' \<and> ok f' \<and> marks f' = marks f \<union> marks_of f s \<and> marks_of f' = marks_of f"
    and has_law: "ok f \<Longrightarrow> has s f = Some (marks_of f s \<subseteq> marks f)"
begin

lemma ins_all:
  assumes "ok f"
  shows "\<exists>f'. foldr (\<lambda>s r. r \<bind> ins s) ss (Some f) = Some f' \<and> ok f' \<and>
    marks f' = marks f \<union> \<Union> (marks_of f ` set ss) \<and> marks_of f' = marks_of f"
proof (induction ss)
  case Nil
  show ?case using assms by simp
next
  case (Cons s ss)
  then obtain g where g: "foldr (\<lambda>s r. r \<bind> ins s) ss (Some f) = Some g" "ok g"
    "marks g = marks f \<union> \<Union> (marks_of f ` set ss)" "marks_of g = marks_of f" by blast
  from ins_law [OF g(2), of s] obtain h where "ins s g = Some h" "ok h" "marks h = marks g \<union> marks_of g s"
    "marks_of h = marks_of g" by blast
  with g show ?case by (auto simp: image_iff)
qed

lemma exact:
  assumes "ok f"
  shows "\<exists>f'. foldr (\<lambda>s r. r \<bind> ins s) ss (Some f) = Some f' \<and>
    has s f' = Some (marks_of f s \<subseteq> marks f \<union> \<Union> (marks_of f ` set ss))"
proof -
  from ins_all [OF assms] obtain f' where "foldr (\<lambda>s r. r \<bind> ins s) ss (Some f) = Some f'" "ok f'"
    "marks f' = marks f \<union> \<Union> (marks_of f ` set ss)" "marks_of f' = marks_of f" by blast
  with has_law [of f' s] show ?thesis by simp
qed

lemma no_false_negative:
  assumes "ok f" "s \<in> set ss"
  shows "\<exists>f'. foldr (\<lambda>s r. r \<bind> ins s) ss (Some f) = Some f' \<and> has s f' = Some True"
  using exact [OF assms(1), of ss s] assms(2) by auto

end

section \<open>The bits a key sets\<close>

fun probes :: "nat \<Rightarrow> u64 \<Rightarrow> u64 \<Rightarrow> u64 \<Rightarrow> (nat \<times> nat) set" where
  "probes 0 a b len = {}"
| "probes (Suc k) a b len =
     insert (unat (fastrange64 a len), unat ((ucast a :: u32) AND 63)) (probes k (a + b) b len)"

definition key_bits :: "hasher \<Rightarrow> u64 \<Rightarrow> string \<Rightarrow> (nat \<times> nat) set" where
  "key_bits h len s =
     (let x = multiply_shift h (XXH64 s 0) in probes bloom_k (rotated x) x len)"

definition set_bits :: "bloom_filter \<Rightarrow> (nat \<times> nat) set" where
  "set_bits f = {(i, j). i < length (bdata f) \<and> bit (bdata f ! i) j}"

definition bloom_ok :: "bloom_filter \<Rightarrow> bool" where
  "bloom_ok f = (arrayLength f \<noteq> 0 \<and> length (bdata f) = unat (arrayLength f))"

lemma fastrange64_less: "p \<noteq> 0 \<Longrightarrow> unat (fastrange64 w p) < unat p"
proof -
  assume p: "p \<noteq> 0"
  have w: "unat w < 2 ^ 64" "unat p < 2 ^ 64" using unsigned_less [of w] unsigned_less [of p] by simp_all
  from p have p0: "0 < unat p" by (simp add: unat_gt_0)
  have m: "unat w * unat p < 2 ^ 64 * unat p" using w(1) p0 by simp
  also have "\<dots> \<le> 2 ^ 64 * 2 ^ 64" using w(2) by simp
  finally have lt: "unat w * unat p < 2 ^ 128" by simp
  have u: "unat ((ucast w :: 128 word) * ucast p) = unat w * unat p"
    using lt w by (simp add: unat_word_ariths unsigned_ucast_eq take_bit_eq_mod)
  have "unat w * unat p div 2 ^ 64 < unat p" using m by (simp add: div_less_iff_less_mult mult.commute)
  then have "unat (drop_bit 64 ((ucast w :: 128 word) * ucast p)) < unat p"
    by (simp add: unat_drop_bit_eq u drop_bit_eq_div [where 'a = nat])
  then show ?thesis using w(2)
    by (simp add: fastrange64_def unsigned_ucast_eq take_bit_eq_mod)
qed

lemma getBit_bit: "bit (getBit x) j = (j = unat (x AND 63) \<and> j < 64)"
  by (auto simp: getBit_def bit_exp_iff)

lemma index_less: "unat (x AND 63 :: u32) < 64"
proof -
  have "x AND 63 \<le> 63" by (rule word_and_le1)
  then show ?thesis by (simp add: word_le_nat_alt)
qed

lemma getBit_and: "(x AND getBit y = 0) = (\<not> bit x (unat (y AND 63)))"
proof -
  have "x AND getBit y = 0 \<longleftrightarrow> (\<forall>j. \<not> bit (x AND getBit y) j)"
    by (metis bit_0_eq bit_eqI bot_apply bot_bool_def)
  then show ?thesis using index_less [of y] by (auto simp: bit_and_iff getBit_bit)
qed

lemma set_bits_update:
  assumes "i < length (bdata f)"
  shows "set_bits (f\<lparr>bdata := (bdata f)[i := bdata f ! i OR getBit y]\<rparr>) = insert (i, unat (y AND 63)) (set_bits f)"
  using assms index_less [of y] by (auto simp: set_bits_def nth_list_update bit_or_iff getBit_bit split: if_splits)

lemma add_loop_exact:
  assumes "bloom_ok f"
  shows "\<exists>f'. add_loop k a b f = Some f' \<and> bloom_ok f' \<and> set_bits f' = set_bits f \<union> probes k a b (arrayLength f) \<and>
    arrayLength f' = arrayLength f \<and> hasher f' = hasher f"
  using assms
proof (induction k arbitrary: a f)
  case (Suc k)
  let ?i = "unat (fastrange64 a (arrayLength f))"
  let ?f = "f\<lparr>bdata := (bdata f)[?i := bdata f ! ?i OR getBit (ucast a)]\<rparr>"
  have i: "?i < length (bdata f)" using Suc.prems fastrange64_less by (simp add: bloom_ok_def)
  have "bloom_ok ?f" using Suc.prems by (simp add: bloom_ok_def)
  from Suc.IH [OF this, of "a + b"] show ?case using i by (auto simp: Let_def set_bits_update)
qed simp

lemma contain_loop_exact:
  assumes "bloom_ok f"
  shows "contain_loop k a b f = Some (if probes k a b (arrayLength f) \<subseteq> set_bits f then Ok else NotFound)"
proof (induction k arbitrary: a)
  case (Suc k)
  let ?i = "unat (fastrange64 a (arrayLength f))"
  have i: "?i < length (bdata f)" using assms fastrange64_less by (simp add: bloom_ok_def)
  then have "(?i, unat ((ucast a :: u32) AND 63)) \<in> set_bits f \<longleftrightarrow> bdata f ! ?i AND getBit (ucast a) \<noteq> 0"
    by (simp add: set_bits_def getBit_and)
  then show ?case using Suc.IH [of "a + b"] i by (simp add: Let_def)
qed simp

interpretation bloom: marking_filter bloom_add bloom_has bloom_ok set_bits "\<lambda>f. key_bits (hasher f) (arrayLength f)"
proof
  fix f s assume ok: "bloom_ok f"
  from add_loop_exact [OF this, of bloom_k] show "\<exists>f'. bloom_add s f = Some f' \<and> bloom_ok f' \<and>
      set_bits f' = set_bits f \<union> key_bits (hasher f) (arrayLength f) s \<and>
      key_bits (hasher f') (arrayLength f') = key_bits (hasher f) (arrayLength f)"
    by (simp add: bloom_add_def Add_def key_bits_def Let_def) metis
  show "bloom_has s f = Some (key_bits (hasher f) (arrayLength f) s \<subseteq> set_bits f)"
    by (simp add: bloom_has_def Contain_def key_bits_def Let_def contain_loop_exact [OF ok])
qed

lemma bloom_create_ok:
  assumes "0 < unat n" "unat n < 2 ^ 59"
  shows "bloom_ok (bloom_create h n) \<and> set_bits (bloom_create h n) = {} \<and> hasher (bloom_create h n) = h"
proof -
  have b: "unat (n * 16) = unat n * 16" "unat (n * 16 + 63) = unat n * 16 + 63"
    using assms by (simp_all add: unat_word_ariths)
  have "unat ((n * 16 + 63) div 64) = (unat n * 16 + 63) div 64" by (simp add: unat_div b)
  then have "unat ((n * 16 + 63) div 64) \<noteq> 0" using assms by simp
  then have "(n * 16 + 63) div 64 \<noteq> 0" by (metis unat_0)
  then show ?thesis by (auto simp: bloom_create_def BloomFilter_def Let_def bloom_ok_def set_bits_def)
qed

section \<open>Test vectors\<close>

text \<open>The published hashes of three inputs pin the model of the hash function down.\<close>

lemma xxh64_empty: "XXH64 [] 0 = 0xEF46DB3751D8E999"
  by code_simp

lemma xxh64_abc: "XXH64 ''abc'' 0 = 0x44BC2CF5AD770999"
  by code_simp

lemma xxh64_stripes: "XXH64 ''Nobody inspects the spammish repetition'' 0 = 0xFBCEA83C8A378BF1"
  by code_simp

text \<open>
  The environment whose \<open>bloom_contains\<close> is the filter the code creates, for fifty million items,
  with any random constants. It fulfils the assumption under which the store's lookups are exact.
\<close>

definition with_filter :: "hasher \<Rightarrow> ('j, 'd, 'h) env \<Rightarrow> ('j, 'd, 'h) env" where
  "with_filter h E = E\<lparr>bloom_contains :=
     (\<lambda>ks k. (bloom_add_all ks (bloom_create h 50000000) \<bind> bloom_has k) = Some True)\<rparr>"

lemma filter_sound: "bloom_sound (with_filter h E)"
  using bloom.no_false_negative [of "bloom_create h 50000000"] bloom_create_ok [of 50000000 h]
  by (fastforce simp: bloom_sound_def with_filter_def bloom_add_all_def)

section \<open>Properties\<close>

text \<open>C10: The filter answers exactly: once created and the keys of a list added, in any order and
  number, it says that it contains a key if and only if every bit the key probes is one that some
  added key set. In particular it has no false negatives, no probe falls outside the array and
  no bit is set that no key stands for.\<close>

theorem bloom_filter_exact:
  assumes "0 < unat n" "unat n < 2 ^ 59"
  shows "\<exists>f. bloom_add_all ks (bloom_create h n) = Some f \<and>
    bloom_has s f = Some (key_bits h (arrayLength (bloom_create h n)) s \<subseteq>
      \<Union> (key_bits h (arrayLength (bloom_create h n)) ` set ks))"
  using bloom.exact [of "bloom_create h n" ks s] bloom_create_ok [OF assms, of h]
  by (simp add: bloom_add_all_def)

theorem bloom_filter_exact_witness:
  "\<exists>f. bloom_add_all [''abc''] (bloom_create \<lparr>multiplier = 3, addend = 5\<rparr> 50000000) = Some f \<and>
     bloom_has ''abc'' f = Some True"
  using bloom_filter_exact [of 50000000 "[''abc'']" "\<lparr>multiplier = 3, addend = 5\<rparr>" "''abc''"] by simp

end
