(* ===== verification/TM_Traces.thy ===== *)
theory TM_Traces
  imports TM_System TM_Bloom
begin

text \<open>
  The transaction store inside the running process. Every handler and every job keeps the
  invariant of the store (\<open>store_ok\<close>: the handles are the ones the environments were opened with and
  the bloom filters know every key), so at any time in any execution a lookup of a trace is exact,
  with the bloom filter of the code.
\<close>

section \<open>Handlers keep the store's invariant\<close>

definition sok :: "('d, 'h) world \<Rightarrow> bool" where
  "sok w = store_ok (store w)"

named_theorems sok_eqs \<open>results of parts of a handler\<close>
named_theorems sok_acts \<open>updates of the world\<close>

lemma sok_same: "same_process w w' \<Longrightarrow> sok w \<Longrightarrow> sok w'"
  by (simp add: same_process_def sok_def)

lemma sok_cong: "store w' = store w \<Longrightarrow> sok w' = sok w"
  by (simp add: sok_def)

lemma sok_world [sok_acts]:
  "sok w \<Longrightarrow> sok (get_team_data t w)" "sok w \<Longrightarrow> sok (put_team t td w)" "sok w \<Longrightarrow> sok (add_errored w)"
  "sok w \<Longrightarrow> sok (add_filtered w)" "sok w \<Longrightarrow> sok (add_seen w)" "sok w \<Longrightarrow> sok (add_processed n w)"
  "sok w \<Longrightarrow> sok (w\<lparr>ticks := m\<rparr>)"
  by (simp_all add: sok_def get_team_data_def tm_add_team_def put_team_def Let_def add_errored_def
      add_filtered_def add_seen_def add_processed_def)

lemma sok_store [sok_acts]:
  "sok w \<Longrightarrow> sok (store_mark trace_id w)" "sok w \<Longrightarrow> sok (snd (store_put E trace_id first d ttl w))"
  using store_ok_step [OF store_step.mark [OF refl]] store_ok_step [OF store_step.put [OF surjective_pairing]]
  by (auto simp: sok_def store_mark_def store_put_def Let_def split_beta)

lemma sok_add_child [sok_eqs]: "store_add_child E trace_id child ttl w = Some (ok, w1) \<Longrightarrow> sok w \<Longrightarrow> sok w1"
  using store_ok_step [OF store_step.add_child] by (fastforce simp: store_add_child_def bind_eq_Some_conv sok_def)

lemma sok_pre [sok_eqs]: "pre_process E m w = Some (pr, w1) \<Longrightarrow> sok w \<Longrightarrow> sok w1"
  by (drule pre_process_world) (auto simp: sok_acts split: pre_result.splits)

lemma sok_agg [sok_eqs]: "build_agg_tag_string E m t w = Some (tags, w1) \<Longrightarrow> sok w \<Longrightarrow> sok w1"
  by (drule build_agg_world) (simp add: sok_acts)

lemma sok_run [sok_eqs]: "run_updates E t us w = Some w1 \<Longrightarrow> sok w \<Longrightarrow> sok w1"
  using run_updates_same sok_same by blast

lemma sok_path [sok_eqs]: "genericize_path E service s team w = Some (p, w1) \<Longrightarrow> sok w \<Longrightarrow> sok w1"
  using genericize_path_same sok_same by blast

abbreviation keeps_sok :: "('x \<times> ('d, 'h) world) ub \<Rightarrow> bool" where
  "keeps_sok m \<equiv> post m (\<lambda>r. sok (snd r))"

lemma sok_Some: "sok w \<Longrightarrow> keeps_sok (Some (x, w))"
  by (simp add: post_def)

lemma keeps_sokD: "m = Some (x, w1) \<Longrightarrow> keeps_sok m \<Longrightarrow> sok w1"
  by (simp add: post_def)

lemma error_sok: "sok w \<Longrightarrow> keeps_sok (process_error_message E message ttl w)"
  unfolding process_error_message_def Let_def
  by (intro post_intros; (clarsimp)?; (rule sok_Some, (assumption | erule sok_eqs | rule sok_acts)+))

lemma url_sok: "sok w \<Longrightarrow> keeps_sok (process_url_message E message w)"
  unfolding process_url_message_def Let_def
  by (intro post_intros; (clarsimp)?; (rule sok_Some, (assumption | erule sok_eqs | rule sok_acts)+))

lemma regex_sok: "sok w \<Longrightarrow> keeps_sok (process_regex_message E message w)"
  unfolding process_regex_message_def Let_def
  by (intro post_intros; (clarsimp)?; (rule sok_Some, (assumption | erule sok_eqs | rule sok_acts)+))

lemma metric_sok: "sok w \<Longrightarrow> keeps_sok (process_metric_message E message w)"
  unfolding process_metric_message_def metric_body_def Let_def
  by (intro post_intros; (clarsimp)?; (rule sok_Some, (assumption | erule sok_eqs | rule sok_acts)+))

lemma sok_run_post: "sok w \<Longrightarrow> post (run_updates E t us w) sok"
  by (auto simp: post_def intro: sok_run)

lemma span_metrics_post: "sok w \<Longrightarrow> post (span_metrics E team service mv span t c ts0 freq w) sok"
  unfolding span_metrics_def Let_def
  by (intro post_intros; (hypsubst+)?; ((rule sok_run_post, (assumption | (erule sok_path, assumption))) | (rule post_Some, assumption)))

lemma span_metrics_sok [sok_eqs]: "span_metrics E team service mv span t c ts0 freq w = Some w1 \<Longrightarrow> sok w \<Longrightarrow> sok w1"
  using postD [OF _ span_metrics_post] by blast

lemma span_sok: "sok w \<Longrightarrow> keeps_sok (process_span_message E message ttl w)"
  unfolding process_span_message_def span_accepted_def Let_def
  by (intro post_intros; (clarsimp)?; (rule sok_Some, (assumption | erule sok_eqs | rule sok_acts)+))


lemma named_sok: "sok w \<Longrightarrow> keeps_sok (named_part E team message txn c freq w)"
  unfolding named_part_def
  by (intro post_intros; (rule sok_Some, (assumption | erule sok_eqs)+))

lemma request_part_sok: "sok w \<Longrightarrow> keeps_sok (request_part E team service message txn c freq w)"
  unfolding request_part_def Let_def
  by (intro post_intros; (hypsubst+)?; (rule sok_Some, (assumption | erule sok_eqs | rule sok_acts)+))

lemma keeps_sok_eq: "m = Some (x, w1) \<Longrightarrow> keeps_sok m \<Longrightarrow> sok w1"
  by (simp add: post_def)

lemma type_part_post: "sok w \<Longrightarrow> keeps_sok (type_part E team service message txn ty c freq w)"
  unfolding type_part_def
  by (intro post_intros)
     (assumption | rule named_sok request_part_sok sok_acts sok_Some)+

lemma type_part_sok [sok_eqs]: "type_part E t service message txn ty c freq w = Some (x, w1) \<Longrightarrow> sok w \<Longrightarrow> sok w1"
  by (rule keeps_sok_eq [OF _ type_part_post])

lemma root_part_sok: "sok w \<Longrightarrow> keeps_sok (root_part E message trace_id d service p ttl w)"
  unfolding root_part_def Let_def
  by (intro post_intros; (rule sok_Some, rule sok_acts)) (auto intro!: sok_acts split: if_splits option.splits simp: bind_eq_Some_conv)

lemma trace_part_sok: "sok w \<Longrightarrow> keeps_sok (trace_part E message trace_id d service p ttl w)"
  unfolding trace_part_def Let_def
  by (intro post_intros) (auto intro: sok_Some root_part_sok dest: sok_add_child)

lemma transaction_sok: "sok w \<Longrightarrow> keeps_sok (process_transaction_message E message ttl w)"
  unfolding process_transaction_message_def transaction_body_def Let_def
  by (intro post_intros; (clarsimp)?;
      ((rule sok_Some | rule trace_part_sok), (assumption | erule sok_eqs | rule sok_acts)+))

lemma aggregate_post:
  "sok w \<Longrightarrow> post (on_metrics t f w) sok"
  "sok w \<Longrightarrow> post (store_numeric_rollup E t key rep d ts w) sok"
proof -
  show 1: "sok w \<Longrightarrow> post (on_metrics t f w) sok" for w :: "('d, 'h) world" and f
    by (auto simp: post_def on_metrics_Some sok_def put_team_def)
  show "sok w \<Longrightarrow> post (store_numeric_rollup E t key rep d ts w) sok"
    unfolding store_numeric_rollup_def by (intro post_intros; (rule 1 post_Some)?; assumption)
qed

lemma sok_on_metrics [sok_eqs]:
  "on_metrics t f w = Some w1 \<Longrightarrow> sok w \<Longrightarrow> sok w1"
  "store_numeric_rollup E t key rep d ts w = Some w1 \<Longrightarrow> sok w \<Longrightarrow> sok w1"
  by (auto dest: postD [OF _ aggregate_post(1)] postD [OF _ aggregate_post(2)])

lemma aggregate_metric_sok: "sok w \<Longrightarrow> post (aggregate_metric E team key val w) sok"
  unfolding aggregate_metric_def aggregate_histogram_def aggregate_integer_def aggregate_number_def Let_def
  by (intro post_intros; (rule aggregate_post post_Some), (assumption | erule sok_eqs)+)

lemma aggregate_metric_then [sok_eqs]: "aggregate_metric E team key val w = Some w1 \<Longrightarrow> sok w \<Longrightarrow> sok w1"
  by (rule postD [OF _ aggregate_metric_sok])

lemma aggregate_step_sok:
  "aggregate_metric E team key val (get_team_data team w) = Some w1 \<Longrightarrow> sok w \<Longrightarrow> sok w1"
  by (blast intro: aggregate_metric_then sok_acts)

lemma aggregate_items_sok: "aggregate_items E items bufs w = Some w' \<Longrightarrow> sok w \<Longrightarrow> sok w'"
proof (induction items arbitrary: bufs w)
  case (Cons item items)
  obtain key val where item: "item = (key, val)" by (cases item)
  show ?case
  proof (cases "key = ''processor'' \<or> key = ''context''")
    case True
    with Cons item show ?thesis by auto
  next
    case False
    with Cons.prems item obtain ok service team_buf where pk: "parse_key key bufs = Some (ok, service, team_buf)"
      by (cases "parse_key key bufs") auto
    then show ?thesis using Cons False item
      by (cases ok) (auto split: option.splits dest: aggregate_step_sok)
  qed
qed simp

lemma aggregate_sok: "sok w \<Longrightarrow> keeps_sok (process_aggregate_message E message w)"
  by (auto simp: process_aggregate_message_def post_def dest: aggregate_items_sok)

lemma jaeger_in_sok: "sok w \<Longrightarrow> keeps_sok (otel_process_jaeger_span E parse payload w)"
  unfolding otel_process_jaeger_span_def Let_def
  by (intro post_intros; rule sok_Some, (assumption | erule sok_eqs | rule sok_acts)+)

lemma handle_sok: "sok w \<Longrightarrow> keeps_sok (tm_kafka_handle_message E event doc ttl w)"
  unfolding tm_kafka_handle_message_def
  by (intro post_intros)
     (rule metric_sok transaction_sok span_sok error_sok aggregate_sok url_sok regex_sok sok_Some sok_acts | assumption)+

lemma sok_handled [sok_eqs]: "tm_kafka_handle_message E event doc ttl w = Some (x, w1) \<Longrightarrow> sok w \<Longrightarrow> sok w1"
  by (rule keeps_sok_eq [OF _ handle_sok])

lemma result_sok: "sok w \<Longrightarrow> post (process_result E result ttl w) sok"
  by (auto simp: post_def process_result_def bind_eq_Some_conv split: option.splits intro: sok_eqs)

lemma document_sok: "sok w \<Longrightarrow> keeps_sok (process_document E doc w)"
  unfolding process_document_def Let_def
  by (intro post_intros; (rule sok_Some, rule sok_acts, assumption)?)
     (auto simp: bind_eq_Some_conv split: if_splits intro!: sok_Some intro: postD [OF _ result_sok] sok_acts sok_eqs)

lemma message_sok: "sok w \<Longrightarrow> keeps_sok (tm_kafka_process_message E pb msg w)"
  unfolding tm_kafka_process_message_def Let_def
  by (intro post_intros)
     (auto intro!: sok_Some jaeger_in_sok document_sok sok_acts)

section \<open>Jobs keep the store's invariant\<close>

lemma sok_message [sok_eqs]: "tm_kafka_process_message E pb msg w = Some (x, w1) \<Longrightarrow> sok w \<Longrightarrow> sok w1"
  by (rule keeps_sok_eq [OF _ message_sok])

lemma consume_sok: "sok w \<Longrightarrow> keeps_sok (tm_kafka_consume_messages E pb batch w)"
  unfolding tm_kafka_consume_messages_def
  by (intro post_intros post_foldM; (rule sok_Some, assumption)?)
     (auto simp: bind_eq_Some_conv post_def intro: sok_eqs)

lemma kafka_read_sok: "kafka_read E pb batch watermark w = Some w' \<Longrightarrow> sok w \<Longrightarrow> sok w'"
  using keeps_sok_eq [OF _ consume_sok]
  by (fastforce simp: kafka_read_def bind_eq_Some_conv update_lag_def Let_def sok_def)

lemma flush_sok: "tm_flush_team_metrics E w = Some w' \<Longrightarrow> sok w \<Longrightarrow> sok w'"
  by (drule flush_retyped) (simp add: retyped_def sok_def)

lemma known_marks_lost:
  assumes "marks_lost P jaeger_dbi env env'" "known env b"
  shows "known env' b"
proof -
  have "env' ts_dbi k = env ts_dbi k" for k
    using assms(1) by (metis marks_lost_def dbis_differ)
  then show ?thesis using assms(2) by (simp add: known_def)
qed

lemma clean_step_sok:
  assumes "clean_step P Q (w, g) (w', g')" "sok w"
  shows "sok w'"
  using clean_stepD(6-8) [OF assms(1)] assms(2) known_marks_lost
  by (fastforce simp: sok_def store_ok_def settled_def)

lemma delete_old_sok: "sok w \<Longrightarrow> sok (snd (delete_old w))"
  by (auto simp: delete_old_def sok_def set_store_def mtev_now_ms_def Let_def split: prod.split
      intro: store_ok_rotate)

lemma clean_sok:
  fixes E :: "('j, 'd, 'h) env"
  assumes "transaction_clean E w g = Some (w', g')"
  shows "sok w \<Longrightarrow> sok w'"
proof -
  have "(\<lambda>E w g r. sok w \<longrightarrow> sok (fst r)) E w g (w', g')"
  proof (rule transaction_clean.raw_induct [OF _ assms])
    fix f and E :: "('j, 'd, 'h) env" and w g and r :: "('d, 'h) world \<times> jaeger"
    assume ih: "\<And>E w g r. f E w g = Some r \<Longrightarrow> sok w \<longrightarrow> sok (fst r)"
      and r: "Option.bind (tm_transaction_store_process_jaeger E w g) (\<lambda>(jaegered_count, w, g).
        let (loop_count, w) = delete_old w in if loop_count < 500 then Some (w, g) else f E w g) = Some r"
    then obtain n w1 g1 where 1: "tm_transaction_store_process_jaeger E w g = Some (n, w1, g1)"
      and 2: "(if fst (delete_old w1) < 500 then Some (snd (delete_old w1), g1) else f E (snd (delete_old w1)) g1) = Some r"
      by (cases "tm_transaction_store_process_jaeger E w g") (auto simp: split_beta Let_def cong: if_cong)
    have "sok w \<Longrightarrow> sok w1" using postD [OF 1 process_jaeger_step] clean_step_sok by fastforce
    then show "sok w \<longrightarrow> sok (fst r)" using 2 ih [of E "snd (delete_old w1)" g1 r] delete_old_sok
      by (auto split: if_splits)
  qed
  then show "sok w \<Longrightarrow> sok w'" by simp
qed

lemma run_job_sok:
  assumes "run_job E pb templates escape s job = Some s'" "sok (process s)"
  shows "sok (process s')"
proof (cases job)
  case (Maintenance th fl url js)
  then show ?thesis using assms maintenance_same(2) by (fastforce simp: run_job_def bind_eq_Some_conv sok_def)
next
  case Visuals_create
  then show ?thesis using assms visuals_same(2) by (fastforce simp: run_job_def bind_eq_Some_conv sok_def)
qed (use assms in \<open>auto simp: run_job_def bind_eq_Some_conv intro: kafka_read_sok flush_sok clean_sok\<close>)

interpretation stored: job_invariant E pb templates escape sok
  for E :: "('j, 'd, 'h) env" and pb templates escape
  by unfold_locales (erule (1) run_job_sok, simp add: sok_def)

lemma tm_init_sok:
  assumes "tm_init E B c w = Some (w', cs, ts)"
    and "finite (dom (b_current B ts_dbi))" "finite (dom (b_last B ts_dbi))"
  shows "sok w'"
proof -
  have "sok (init_path_regex E (init_process B c w))"
    using assms(2,3) by (simp add: sok_def init_process_def init_path_regex_def store_ok_init)
  then show ?thesis using assms(1)
    by (auto simp: tm_init_def bind_eq_Some_conv Let_def sok_def tm_circonus_init_def
        split: if_splits prod.splits dest!: init_teams init_thresholds)
qed


section \<open>Properties\<close>

text \<open>C4: At any time in any execution, from the start on and with the bloom filter of the code, a lookup of
  a trace in the process's store that returns gives exactly the record stored under it, the one in \<open>last\<close>
  before the one in \<open>current\<close>, and nothing only when neither has it: no handler and no job, in whatever order
  they run, puts a trace out of the filters' reach.\<close>

theorem running_lookups_exact:
  assumes "tm_init (with_filter h E) B c w = Some (w1, consumers, timers)"
    and "finite (dom (b_current B ts_dbi))" "finite (dom (b_last B ts_dbi))"
    and "foldM (run_job (with_filter h E) pb templates escape) \<lparr>process = w1, tracer = g, circonus = a\<rparr> jobs = Some s"
    and "trace_key tid" "tm_transaction_store_get (with_filter h E) tid (store (process s)) = Some (e, st')"
  shows "case last_env (store (process s)) ts_dbi tid of
           Some b \<Rightarrow> read_entry (with_filter h E) b = Some e
         | None \<Rightarrow> (case current_env (store (process s)) ts_dbi tid of
             Some b \<Rightarrow> read_entry (with_filter h E) b = Some e | None \<Rightarrow> e = None)"
proof -
  have "sok (process s)" using stored.jobs_keep [OF assms(4)] tm_init_sok [OF assms(1-3)] by simp
  then show ?thesis using get_exact [OF _ filter_sound assms(5,6)] by (simp add: sok_def)
qed

definition filtering_conf :: conf where
  "filtering_conf = demo_conf\<lparr>cf_use_bloom_filter := Some True\<rparr>"

definition filtering_env :: "(jdoc, int, u64 list) env" where
  "filtering_env = with_filter \<lparr>multiplier = 3, addend = 5\<rparr> demo_env"

lemma filtering_start:
  "\<exists>w1 cs ts. tm_init filtering_env demo_boot filtering_conf empty_world = Some (w1, cs, ts) \<and>
     store w1 = tm_transaction_store_init (\<lambda>_. Map.empty) (\<lambda>_. Map.empty) 300 True (\<lambda>_. None) 0 0"
  by (simp add: tm_init_def init_kafka_def tm_kafka_connect_def tm_kafka_start_consume_def demo_kafka_def
      init_process_def init_path_regex_def tm_circonus_init_def init_team_def init_threshold_def tm_add_team_def demo_boot_def
      demo_conf_def demo_conf_team_def Let_def filtering_conf_def conf_get_def)

theorem running_lookups_exact_witness:
  "\<exists>w1 cs ts s e st'. tm_init filtering_env demo_boot filtering_conf empty_world = Some (w1, cs, ts) \<and>
     foldM (run_job filtering_env (\<lambda>p. None) (\<lambda>p. None) (\<lambda>t. t)) (started w1) [Kafka_read None 5] = Some s \<and>
     use_bloom_filters (store (process s)) \<and>
     tm_transaction_store_get filtering_env ''ab'' (store (process s)) = Some (e, st') \<and> e = None"
proof -
  let ?st = "tm_transaction_store_init (\<lambda>_. Map.empty) (\<lambda>_. Map.empty) 300 True (\<lambda>_. None) 0 0"
  obtain w1 cs ts where i: "tm_init filtering_env demo_boot filtering_conf empty_world = Some (w1, cs, ts)"
    and st: "store w1 = ?st"
    using filtering_start by blast
  let ?s = "\<lparr>process = update_lag 5 w1, tracer = demo_jaeger, circonus = demo_api\<rparr>"
  have j: "foldM (run_job filtering_env (\<lambda>p. None) (\<lambda>p. None) (\<lambda>t. t)) (started w1) [Kafka_read None 5] = Some ?s"
    by (simp add: run_job_def started_def kafka_read_def tm_kafka_consume_messages_def)
  have sp: "store (process ?s) = ?st" by (simp add: st update_lag_def Let_def)
  have "\<exists>e st'. tm_transaction_store_get filtering_env ''ab'' ?st = Some (e, st')"
    by (simp add: tm_transaction_store_get_def get_record_def get_current_def read_ok_def passes_bloom_def
        tm_transaction_store_init_def tm_transaction_store_open_environments_def open_environment_def
        keys_of_def ts_dbi_def open_ms_key_def env_put_def)
  then obtain e st' where g: "tm_transaction_store_get filtering_env ''ab'' (store (process ?s)) = Some (e, st')"
    unfolding sp by blast
  have d: "last_env ?st ts_dbi ''ab'' = None" "current_env ?st ts_dbi ''ab'' = None"
    by (simp_all add: tm_transaction_store_init_def tm_transaction_store_open_environments_def
        open_environment_def open_ms_key_def ts_dbi_def env_put_def)
  have "trace_key ''ab''" by (simp add: trace_key_def open_ms_key_def)
  from running_lookups_exact [OF i [unfolded filtering_env_def] _ _ j [unfolded started_def filtering_env_def] this
      g [unfolded filtering_env_def]]
  have "e = None" unfolding sp by (simp add: d demo_boot_def)
  moreover have "use_bloom_filters (store (process ?s))" unfolding sp
    by (simp add: tm_transaction_store_init_def tm_transaction_store_open_environments_def split: prod.split)
  ultimately show ?thesis using i j g by blast
qed


end
