(* ===== verification/TM_Events.thy ===== *)
theory TM_Events
  imports TM_Traces "HOL-Library.Multiset"
begin

text \<open>
  The event loop of main.c: the timers, the job queues and how the jobs are scheduled again.
  \<open>tm_init\<close> arms the timers and queues the first reads; a timer that fires queues its job and arms
  itself again; a read of a topic without a delay queues the next read when it is done. The jobs
  are those of \<open>TM_System\<close>. Time is counted in milliseconds. eventer itself is libmtev's: events
  fire in any order once they are due, and the queued jobs run in any order.
\<close>

section \<open>State\<close>

datatype alarm = Timer timer | Kafka_trigger nat

datatype queued =
    Q_kafka_read nat
  | Q_metric_flush
  | Q_transaction_clean
  | Q_maintenance
  | Q_visuals

record ('d, 'h) event_loop =
  sys :: "('d, 'h) tracemate"
  all_stats :: "(consumer \<times> topic_stats) list"
  now_ms :: nat
  alarms :: "(alarm \<times> nat) list"
  waiting :: "queued \<Rightarrow> nat"

text \<open>
  \<open>eventer_add_asynch\<close>, and \<open>eventer_try_add_asynch\<close> on a queue with a bounded backlog;
  \<open>eventer_add_at\<close> and \<open>eventer_add_in_s_us\<close>.
\<close>

definition add_asynch :: "queued \<Rightarrow> ('d, 'h) event_loop \<Rightarrow> ('d, 'h) event_loop" where
  "add_asynch q s = s\<lparr>waiting := (waiting s)(q := waiting s q + 1)\<rparr>"

definition try_add_asynch :: "nat \<Rightarrow> queued \<Rightarrow> ('d, 'h) event_loop \<Rightarrow> ('d, 'h) event_loop" where
  "try_add_asynch max_backlog q s = (if waiting s q < max_backlog then add_asynch q s else s)"

definition add_in :: "alarm \<Rightarrow> nat \<Rightarrow> ('d, 'h) event_loop \<Rightarrow> ('d, 'h) event_loop" where
  "add_in a ms s = s\<lparr>alarms := (a, now_ms s + ms) # alarms s\<rparr>"

section \<open>Timers\<close>

definition metric_trigger_flush :: "('d, 'h) event_loop \<Rightarrow> ('d, 'h) event_loop" where
  "metric_trigger_flush s = add_in (Timer Metric_trigger_flush) 10000 (add_asynch Q_metric_flush s)"

definition trigger_transaction_cleanup :: "('d, 'h) event_loop \<Rightarrow> ('d, 'h) event_loop" where
  "trigger_transaction_cleanup s =
     add_in (Timer Trigger_transaction_cleanup) 3000 (try_add_asynch 2 Q_transaction_clean s)"

definition trigger_maintenance :: "('d, 'h) event_loop \<Rightarrow> ('d, 'h) event_loop" where
  "trigger_maintenance s = add_in (Timer Trigger_maintenance) 60000 (add_asynch Q_maintenance s)"

definition trigger_visuals :: "('d, 'h) event_loop \<Rightarrow> ('d, 'h) event_loop" where
  "trigger_visuals s = add_in (Timer Trigger_visuals) 600000 (add_asynch Q_visuals s)"

text \<open>The delay is given in seconds and microseconds.\<close>

definition read_delay :: "nat \<Rightarrow> ('d, 'h) event_loop \<Rightarrow> int" where
  "read_delay i s = cn_read_delay_ms (fst (all_stats s ! i))"

definition delay_ms :: "int \<Rightarrow> nat" where
  "delay_ms d = nat ((d sdiv 1000) * 1000 + (d smod 1000) * 1000 sdiv 1000)"

definition kafka_trigger_read :: "nat \<Rightarrow> ('d, 'h) event_loop \<Rightarrow> ('d, 'h) event_loop" where
  "kafka_trigger_read i s = add_in (Kafka_trigger i) (delay_ms (read_delay i s)) (add_asynch (Q_kafka_read i) s)"

definition fire :: "alarm \<Rightarrow> ('d, 'h) event_loop \<Rightarrow> ('d, 'h) event_loop" where
  "fire a s =
     (case a of
        Timer t \<Rightarrow>
          (case t of
             Metric_trigger_flush \<Rightarrow> metric_trigger_flush s
           | Trigger_transaction_cleanup \<Rightarrow> trigger_transaction_cleanup s
           | Trigger_maintenance \<Rightarrow> trigger_maintenance s
           | Trigger_visuals \<Rightarrow> trigger_visuals s)
      | Kafka_trigger i \<Rightarrow> kafka_trigger_read i s)"

section \<open>Jobs\<close>

text \<open>
  \<open>i\<close> is the topic of a read. Each topic has statistics of its own, which the handlers update
  through the pointer they are given.
\<close>

definition queue_of :: "nat \<Rightarrow> job \<Rightarrow> queued" where
  "queue_of i j =
     (case j of
        Kafka_read _ _ \<Rightarrow> Q_kafka_read i
      | Metric_flush \<Rightarrow> Q_metric_flush
      | Transaction_clean \<Rightarrow> Q_transaction_clean
      | Maintenance _ _ _ _ \<Rightarrow> Q_maintenance
      | Visuals_create \<Rightarrow> Q_visuals)"

definition with_stats :: "topic_stats \<Rightarrow> ('d, 'h) tracemate \<Rightarrow> ('d, 'h) tracemate" where
  "with_stats st t = t\<lparr>process := (process t)\<lparr>stats := st\<rparr>\<rparr>"

definition read_again :: "nat \<Rightarrow> ('d, 'h) event_loop \<Rightarrow> ('d, 'h) event_loop" where
  "read_again i s = (if read_delay i s = 0 then add_asynch (Q_kafka_read i) s else s)"

definition work ::
  "('j, 'd, 'h) env \<Rightarrow> (string option \<Rightarrow> jaeger_in option) \<Rightarrow> (string \<Rightarrow> string option) \<Rightarrow> (string \<Rightarrow> string) \<Rightarrow>
     nat \<Rightarrow> job \<Rightarrow> ('d, 'h) event_loop \<Rightarrow> ('d, 'h) event_loop ub" where
  "work E pb templates escape i j s = do {
     let s = s\<lparr>waiting := (waiting s)(queue_of i j := waiting s (queue_of i j) - 1)\<rparr>;
     (case j of
        Kafka_read batch watermark \<Rightarrow> do {
          t \<leftarrow> run_job E pb templates escape (with_stats (snd (all_stats s ! i)) (sys s)) j;
          Some (read_again i (s\<lparr>sys := t,
            all_stats := (all_stats s)[i := (fst (all_stats s ! i), stats (process t))]\<rparr>)) }
      | _ \<Rightarrow> do {
          t \<leftarrow> run_job E pb templates escape (sys s) j;
          Some (s\<lparr>sys := t\<rparr>) }) }"

inductive loop_step ::
  "('j, 'd, 'h) env \<Rightarrow> (string option \<Rightarrow> jaeger_in option) \<Rightarrow> (string \<Rightarrow> string option) \<Rightarrow> (string \<Rightarrow> string) \<Rightarrow>
     ('d, 'h) event_loop \<Rightarrow> ('d, 'h) event_loop \<Rightarrow> bool" for E pb templates escape where
  tick: "now_ms s \<le> n \<Longrightarrow> loop_step E pb templates escape s (s\<lparr>now_ms := n\<rparr>)"
| fire: "(a, ms) \<in> set (alarms s) \<Longrightarrow> ms \<le> now_ms s \<Longrightarrow>
     loop_step E pb templates escape s (fire a (s\<lparr>alarms := remove1 (a, ms) (alarms s)\<rparr>))"
| work: "0 < waiting s (queue_of i j) \<Longrightarrow> work E pb templates escape i j s = Some s' \<Longrightarrow>
     loop_step E pb templates escape s s'"

section \<open>The start\<close>

definition new_stats :: "consumer \<Rightarrow> topic_stats" where
  "new_stats c =
     \<lparr>topic_name = kt_topic (cn_topic c), messages_seen = 0, messages_processed = 0, messages_errored = 0,
      messages_filtered = 0, unknown_team = 0, kafka_offset = 0, high_watermark = 0, kafka_lag = 0\<rparr>"

text \<open>What \<open>tm_init\<close> has armed and queued when it returns.\<close>

definition first_alarms :: "nat \<Rightarrow> consumer list \<Rightarrow> (timer \<times> nat) list \<Rightarrow> (alarm \<times> nat) list" where
  "first_alarms now cs ts =
     map (\<lambda>(t, secs). (Timer t, now + 1000 * secs)) ts @
     map (\<lambda>i. (Kafka_trigger i, now + delay_ms (cn_read_delay_ms (cs ! i))))
       (filter (\<lambda>i. cn_read_delay_ms (cs ! i) \<noteq> 0) [0..<length cs])"

definition loop_start ::
  "('d, 'h) tracemate \<Rightarrow> consumer list \<Rightarrow> (timer \<times> nat) list \<Rightarrow> nat \<Rightarrow> ('d, 'h) event_loop" where
  "loop_start t cs ts now =
     \<lparr>sys = t, all_stats = map (\<lambda>c. (c, new_stats c)) cs, now_ms = now, alarms = first_alarms now cs ts,
      waiting = (\<lambda>q. case q of
        Q_kafka_read i \<Rightarrow> if i < length cs \<and> cn_read_delay_ms (cs ! i) = 0 then 1 else 0
      | _ \<Rightarrow> 0)\<rparr>"

section \<open>The invariant of the loop\<close>

definition period :: "consumer list \<Rightarrow> alarm \<Rightarrow> nat" where
  "period cs a =
     (case a of
        Timer t \<Rightarrow>
          (case t of
             Metric_trigger_flush \<Rightarrow> 10000
           | Trigger_transaction_cleanup \<Rightarrow> 3000
           | Trigger_maintenance \<Rightarrow> 60000
           | Trigger_visuals \<Rightarrow> 600000)
      | Kafka_trigger i \<Rightarrow> delay_ms (cn_read_delay_ms (cs ! i)))"

definition alarm_queue :: "alarm \<Rightarrow> queued" where
  "alarm_queue a =
     (case a of
        Timer t \<Rightarrow>
          (case t of
             Metric_trigger_flush \<Rightarrow> Q_metric_flush
           | Trigger_transaction_cleanup \<Rightarrow> Q_transaction_clean
           | Trigger_maintenance \<Rightarrow> Q_maintenance
           | Trigger_visuals \<Rightarrow> Q_visuals)
      | Kafka_trigger i \<Rightarrow> Q_kafka_read i)"

lemma fire_eq:
  assumes "map fst (all_stats s) = cs" "\<And>i. a = Kafka_trigger i \<Longrightarrow> i < length cs"
  shows "fire a s =
    add_in a (period cs a)
      (if a = Timer Trigger_transaction_cleanup then try_add_asynch 2 Q_transaction_clean s
       else add_asynch (alarm_queue a) s)"
proof (cases a)
  case (Timer t)
  then show ?thesis
    by (cases t) (simp_all add: fire_def metric_trigger_flush_def trigger_transaction_cleanup_def
        trigger_maintenance_def trigger_visuals_def period_def alarm_queue_def)
next
  case (Kafka_trigger i)
  then show ?thesis using assms
    by (auto simp: fire_def kafka_trigger_read_def period_def alarm_queue_def read_delay_def add_asynch_def)
qed

text \<open>An armed alarm is due within its period, or at its first time.\<close>

definition timely :: "(alarm \<times> nat) list \<Rightarrow> consumer list \<Rightarrow> nat \<Rightarrow> (alarm \<times> nat) list \<Rightarrow> bool" where
  "timely first cs now al = (\<forall>x \<in> set al. x \<in> set first \<or> snd x \<le> now + period cs (fst x))"

definition loop_ok :: "(alarm \<times> nat) list \<Rightarrow> consumer list \<Rightarrow> ('d, 'h) event_loop \<Rightarrow> bool" where
  "loop_ok first cs s =
     (map fst (all_stats s) = cs \<and>
      mset (map fst (alarms s)) = mset (map fst first) \<and>
      timely first cs (now_ms s) (alarms s) \<and>
      (\<forall>i. 0 < waiting s (Q_kafka_read i) \<longrightarrow> i < length cs) \<and>
      (\<forall>i < length cs. cn_read_delay_ms (cs ! i) = 0 \<longrightarrow> waiting s (Q_kafka_read i) = 1) \<and>
      waiting s Q_transaction_clean \<le> 2)"

definition triggers_ok :: "(alarm \<times> nat) list \<Rightarrow> consumer list \<Rightarrow> bool" where
  "triggers_ok first cs =
     (\<forall>i ms. (Kafka_trigger i, ms) \<in> set first \<longrightarrow> i < length cs \<and> cn_read_delay_ms (cs ! i) \<noteq> 0)"

lemma triggers_ok_first: "triggers_ok (first_alarms now cs ts) cs"
  by (auto simp: triggers_ok_def first_alarms_def)

lemma loop_ok_alarm:
  assumes "loop_ok first cs s" "triggers_ok first cs" "(Kafka_trigger i, ms) \<in> set (alarms s)"
  shows "i < length cs \<and> cn_read_delay_ms (cs ! i) \<noteq> 0"
proof -
  have "Kafka_trigger i \<in># mset (map fst first)"
    using assms(1,3) unfolding loop_ok_def by (metis fst_conv image_eqI set_map set_mset_mset)
  then obtain n where "(Kafka_trigger i, n) \<in> set first" by auto
  then show ?thesis using assms(2) by (auto simp: triggers_ok_def)
qed

lemma loop_ok_start: "loop_ok (first_alarms now cs ts) cs (loop_start t cs ts now)"
  by (auto simp: loop_ok_def loop_start_def timely_def comp_def split: if_splits)

lemma timely_rearm: "timely first cs now al \<Longrightarrow> timely first cs now ((a, now + period cs a) # remove1 (a, ms) al)"
  using notin_set_remove1 by (fastforce simp: timely_def)

lemma timely_later: "timely first cs now al \<Longrightarrow> now \<le> n \<Longrightarrow> timely first cs n al"
  by (force simp: timely_def)

lemma mset_rearm:
  "(a, ms) \<in> set xs \<Longrightarrow> mset (map fst ((a, n) # remove1 (a, ms) xs)) = mset (map fst xs)"
  by (induction xs) auto

lemma loop_ok_fire:
  assumes "loop_ok first cs s" "triggers_ok first cs" "(a, ms) \<in> set (alarms s)"
  shows "loop_ok first cs (fire a (s\<lparr>alarms := remove1 (a, ms) (alarms s)\<rparr>))"
proof -
  have k: "i < length cs \<and> cn_read_delay_ms (cs ! i) \<noteq> 0" if "a = Kafka_trigger i" for i
    using loop_ok_alarm [OF assms(1,2)] assms(3) that by blast
  have f: "fire a (s\<lparr>alarms := remove1 (a, ms) (alarms s)\<rparr>) =
    add_in a (period cs a)
      (if a = Timer Trigger_transaction_cleanup
       then try_add_asynch 2 Q_transaction_clean (s\<lparr>alarms := remove1 (a, ms) (alarms s)\<rparr>)
       else add_asynch (alarm_queue a) (s\<lparr>alarms := remove1 (a, ms) (alarms s)\<rparr>))"
    using assms(1) k by (intro fire_eq) (auto simp: loop_ok_def)
  have q: "alarm_queue a = Q_kafka_read i \<longleftrightarrow> a = Kafka_trigger i"
    "Q_kafka_read i = alarm_queue a \<longleftrightarrow> a = Kafka_trigger i" for i
    by (auto simp: alarm_queue_def split: alarm.splits timer.splits)
  have c: "alarm_queue a = Q_transaction_clean \<longleftrightarrow> a = Timer Trigger_transaction_cleanup"
    "Q_transaction_clean = alarm_queue a \<longleftrightarrow> a = Timer Trigger_transaction_cleanup"
    by (auto simp: alarm_queue_def split: alarm.splits timer.splits)
  show ?thesis unfolding f using assms(1,3) k q c mset_rearm [OF assms(3)] timely_rearm [of first cs _ "alarms s" a ms]
    by (auto simp: loop_ok_def add_in_def try_add_asynch_def add_asynch_def)
qed

lemma loop_ok_work:
  assumes "loop_ok first cs s" "0 < waiting s (queue_of i j)" "work E pb templates escape i j s = Some s'"
  shows "loop_ok first cs s'"
proof (cases j)
  case (Kafka_read batch watermark)
  have i: "i < length cs" "i < length (all_stats s)" "fst (all_stats s ! i) = cs ! i"
    using assms(1,2) Kafka_read by (auto simp: loop_ok_def queue_of_def)
  from assms(3) Kafka_read obtain t where s': "s' = read_again i (s\<lparr>waiting := (waiting s)(Q_kafka_read i := waiting s (Q_kafka_read i) - 1), sys := t,
      all_stats := (all_stats s)[i := (cs ! i, stats (process t))]\<rparr>)"
    by (auto simp: work_def bind_eq_Some_conv queue_of_def Let_def i(3))
  have m: "map fst ((all_stats s)[i := (cs ! i, st)]) = cs" for st
    using assms(1) i by (auto simp: loop_ok_def map_update)
  show ?thesis
  proof (cases "cn_read_delay_ms (cs ! i) = 0")
    case True
    then show ?thesis using assms(1) i m
      by (auto simp: s' loop_ok_def read_again_def read_delay_def add_asynch_def)
  next
    case False
    then show ?thesis using assms(1) i m
      by (auto simp: s' loop_ok_def read_again_def read_delay_def add_asynch_def)
  qed
qed (use assms in \<open>auto simp: work_def bind_eq_Some_conv queue_of_def loop_ok_def Let_def\<close>)

lemma loop_ok_step:
  "loop_step E pb templates escape s s' \<Longrightarrow> triggers_ok first cs \<Longrightarrow> loop_ok first cs s \<Longrightarrow> loop_ok first cs s'"
proof (induction rule: loop_step.induct)
  case (tick s n)
  then show ?case by (auto simp: loop_ok_def intro: timely_later)
qed (blast intro: loop_ok_fire loop_ok_work)+

lemma loop_ok_run:
  assumes "(loop_step E pb templates escape)\<^sup>*\<^sup>* (loop_start t cs ts now) s"
  shows "loop_ok (first_alarms now cs ts) cs s"
  using assms by (induction rule: rtranclp_induct) (blast intro: loop_ok_start loop_ok_step triggers_ok_first)+

section \<open>What the jobs keep\<close>

text \<open>The jobs work on the state of \<open>TM_System\<close>; the statistics of a topic do not matter to it.\<close>

lemma read_again_sys [simp]: "sys (read_again i s) = sys s"
  by (simp add: read_again_def add_asynch_def)

lemma work_runs:
  assumes "work E pb templates escape i j s = Some s'"
  shows "\<exists>t. run_job E pb templates escape t j = Some (sys s') \<and> (t = sys s \<or> (\<exists>st. t = with_stats st (sys s)))"
proof (cases j)
  case (Kafka_read batch watermark)
  then have "run_job E pb templates escape (with_stats (snd (all_stats s ! i)) (sys s)) j = Some (sys s')"
    using assms by (auto simp: work_def bind_eq_Some_conv Let_def)
  then show ?thesis by blast
qed (use assms in \<open>auto simp: work_def bind_eq_Some_conv Let_def\<close>)

lemma fire_sys: "sys (fire a s) = sys s"
  by (auto simp: fire_def metric_trigger_flush_def trigger_transaction_cleanup_def trigger_maintenance_def
      trigger_visuals_def kafka_trigger_read_def add_in_def add_asynch_def try_add_asynch_def
      split: alarm.split timer.split)

context job_invariant
begin

lemma work_keeps:
  assumes "work E pb templates escape i j s = Some s'" "I (process (sys s))"
  shows "I (process (sys s'))"
proof -
  obtain t where "run_job E pb templates escape t j = Some (sys s')" "I (process t)"
    using work_runs [OF assms(1)] assms(2) by (auto simp: with_stats_def statistics_free)
  then show ?thesis by (rule kept)
qed

lemma step_keeps: "loop_step E pb templates escape s s' \<Longrightarrow> I (process (sys s)) \<Longrightarrow> I (process (sys s'))"
  by (induction rule: loop_step.induct) (auto simp: fire_sys dest: work_keeps)

lemma loop_keeps:
  assumes "(loop_step E pb templates escape)\<^sup>*\<^sup>* s s'" "I (process (sys s))"
  shows "I (process (sys s'))"
  using assms by (induction rule: rtranclp_induct) (auto dest: step_keeps)

end

section \<open>Scheduling\<close>

text \<open>Waiting for an alarm and letting it fire.\<close>

lemma fire_next:
  assumes "(a, ms) \<in> set (alarms s)"
  defines "s1 \<equiv> s\<lparr>now_ms := max ms (now_ms s)\<rparr>"
  shows "(loop_step E pb templates escape)\<^sup>*\<^sup>* s (fire a (s1\<lparr>alarms := remove1 (a, ms) (alarms s)\<rparr>))"
proof -
  have "loop_step E pb templates escape s s1" unfolding s1_def by (rule loop_step.tick) simp
  moreover have "loop_step E pb templates escape s1 (fire a (s1\<lparr>alarms := remove1 (a, ms) (alarms s1)\<rparr>))"
    using assms(1) by (intro loop_step.fire) (simp_all add: s1_def)
  ultimately show ?thesis by (simp add: s1_def)
qed

lemma fire_now [simp]: "now_ms (fire a s) = now_ms s"
  by (auto simp: fire_def metric_trigger_flush_def trigger_transaction_cleanup_def trigger_maintenance_def
      trigger_visuals_def kafka_trigger_read_def add_in_def add_asynch_def try_add_asynch_def
      split: alarm.split timer.split)

lemma fire_waits: "0 < waiting (fire a s) (alarm_queue a)"
  by (auto simp: fire_def alarm_queue_def metric_trigger_flush_def trigger_transaction_cleanup_def trigger_maintenance_def
      trigger_visuals_def kafka_trigger_read_def add_in_def add_asynch_def try_add_asynch_def
      split: alarm.split timer.split)

lemma armed:
  assumes "loop_ok first cs s" "a \<in> fst ` set first"
  shows "\<exists>ms. (a, ms) \<in> set (alarms s)"
proof -
  have "a \<in># mset (map fst (alarms s))" using assms by (auto simp: loop_ok_def)
  then show ?thesis by force
qed

lemma tm_init_timers:
  assumes "tm_init E B c w = Some (w1, cs, ts)"
  shows "ts = [(Metric_trigger_flush, 10), (Trigger_transaction_cleanup, 20), (Trigger_maintenance, 21)] @
    (if conf_get (cf_create_visuals c) False then [(Trigger_visuals, 31)] else [])"
  using assms by (auto simp: tm_init_def tm_circonus_init_def bind_eq_Some_conv Let_def split: prod.splits)

lemma first_alarms_distinct:
  assumes "tm_init E B c w = Some (w1, cs, ts)"
  shows "distinct (map fst (first_alarms now cs ts))"
  using tm_init_timers [OF assms] by (auto simp: first_alarms_def distinct_map inj_on_def comp_def)

section \<open>Properties\<close>

text \<open>C2: The loop never stalls and never loses its grip: at any time after the start, whatever fires and runs
  in whatever order, every timer is armed exactly once, every topic without a delay has exactly one read
  queued, at most two cleanings wait, every metric still holds the member of the union its name promises,
  and the transaction store keeps its invariant.\<close>

theorem event_loop_invariant:
  assumes "tm_init E B c w = Some (w1, cs, ts)" "teams w = Map.empty"
    and "finite (dom (b_current B ts_dbi))" "finite (dom (b_last B ts_dbi))"
    and "(loop_step E pb templates escape)\<^sup>*\<^sup>* (loop_start \<lparr>process = w1, tracer = g, circonus = a\<rparr> cs ts now) s"
  shows "mset (map fst (alarms s)) = mset (map fst (first_alarms now cs ts)) \<and>
    (\<forall>i < length cs. cn_read_delay_ms (cs ! i) = 0 \<longrightarrow> waiting s (Q_kafka_read i) = 1) \<and>
    waiting s Q_transaction_clean \<le> 2 \<and>
    typed_world (process (sys s)) \<and> store_ok (store (process (sys s)))"
  using loop_ok_run [OF assms(5)] typed.loop_keeps [OF assms(5)] stored.loop_keeps [OF assms(5)]
    tm_init_typed [OF assms(1,2)] tm_init_sok [OF assms(1,3,4)]
  by (simp add: loop_ok_def loop_start_def sok_def)

lemma demo_first_read:
  assumes "tm_init demo_env demo_boot demo_conf empty_world = Some (w1, cs, ts)"
  shows "length cs = 2 \<and> cn_read_delay_ms (cs ! 0) = 0 \<and>
    ts = [(Metric_trigger_flush, 10), (Trigger_transaction_cleanup, 20), (Trigger_maintenance, 21)]"
proof -
  obtain conn where "init_topics demo_kafka conn 100 (cf_topics demo_conf) = Some cs"
    using tm_init_parts [OF assms] by (auto simp: demo_boot_def)
  then have "length cs = 2 \<and> cn_read_delay_ms (cs ! 0) = 0"
    by (auto simp: demo_conf_def bind_eq_Some_conv Let_def conf_get_def)
  then show ?thesis using tm_init_timers [OF assms] by (simp add: demo_conf_def conf_get_def)
qed

theorem event_loop_invariant_witness:
  "\<exists>w1 cs ts s. tm_init demo_env demo_boot demo_conf empty_world = Some (w1, cs, ts) \<and>
     (loop_step demo_env (\<lambda>p. None) (\<lambda>p. None) (\<lambda>t. t))\<^sup>*\<^sup>* (loop_start (started w1) cs ts 5) s \<and>
     0 < waiting s Q_metric_flush \<and> waiting s (Q_kafka_read 0) = 1 \<and> typed_world (process (sys s))"
proof -
  obtain w1 cs ts where i: "tm_init demo_env demo_boot demo_conf empty_world = Some (w1, cs, ts)"
    using demo_start by auto
  note f = demo_first_read [OF i]
  let ?s = "loop_start (started w1) cs ts 5"
  have m: "(Timer Metric_trigger_flush, 10005) \<in> set (alarms ?s)"
    using f by (simp add: loop_start_def first_alarms_def)
  have fw: "0 < waiting (fire (Timer Metric_trigger_flush) u) Q_metric_flush" for u :: "(int, u64 list) event_loop"
    using fire_waits [of "Timer Metric_trigger_flush" u] by (simp add: alarm_queue_def)
  obtain s where s: "(loop_step demo_env (\<lambda>p. None) (\<lambda>p. None) (\<lambda>t. t))\<^sup>*\<^sup>* ?s s" "0 < waiting s Q_metric_flush"
    by (rule that [OF fire_next [OF m] fw])
  have "teams empty_world = Map.empty" by (simp add: empty_world_def)
  from event_loop_invariant [OF i this _ _ s(1) [unfolded started_def]] have
    "waiting s (Q_kafka_read 0) = 1" "typed_world (process (sys s))" using f by (auto simp: demo_boot_def)
  with i s show ?thesis by blast
qed

text \<open>C13: From every state the loop can reach, every job that a timer starts can be waiting again no later than
  the first time of its timer or one period from now, whichever is later, without any other job
  having to end first.\<close>

theorem every_job_comes_round:
  assumes "tm_init E B c w = Some (w1, cs, ts)"
    and "(loop_step E pb templates escape)\<^sup>*\<^sup>* (loop_start \<lparr>process = w1, tracer = g, circonus = api\<rparr> cs ts now) s"
    and "(a, ms) \<in> set (first_alarms now cs ts)"
  shows "\<exists>s'. (loop_step E pb templates escape)\<^sup>*\<^sup>* s s' \<and> 0 < waiting s' (alarm_queue a) \<and>
    sys s' = sys s \<and> now_ms s' \<le> max ms (now_ms s + period cs a)"
proof -
  have ok: "loop_ok (first_alarms now cs ts) cs s" by (rule loop_ok_run [OF assms(2)])
  obtain m where m: "(a, m) \<in> set (alarms s)" using armed [OF ok] assms(3) by force
  let ?s1 = "s\<lparr>now_ms := max m (now_ms s)\<rparr>"
  let ?s' = "fire a (?s1\<lparr>alarms := remove1 (a, m) (alarms s)\<rparr>)"
  have "m \<le> max ms (now_ms s + period cs a)"
  proof (cases "(a, m) \<in> set (first_alarms now cs ts)")
    case True
    then have "m = ms" using assms(3) first_alarms_distinct [OF assms(1)] by (metis eq_key_imp_eq_value)
    then show ?thesis by simp
  next
    case False
    then show ?thesis using ok m by (fastforce simp: loop_ok_def timely_def)
  qed
  then have "now_ms ?s' \<le> max ms (now_ms s + period cs a)" by simp
  moreover have "sys ?s' = sys s" by (simp add: fire_sys)
  ultimately show ?thesis using fire_next [OF m] fire_waits by blast
qed

theorem every_job_comes_round_witness:
  "\<exists>w1 cs ts s. tm_init demo_env demo_boot demo_conf empty_world = Some (w1, cs, ts) \<and>
     (loop_step demo_env (\<lambda>p. None) (\<lambda>p. None) (\<lambda>t. t))\<^sup>*\<^sup>* (loop_start (started w1) cs ts 5) s \<and>
     0 < waiting s Q_transaction_clean \<and> now_ms s \<le> 20005"
proof -
  obtain w1 cs ts where i: "tm_init demo_env demo_boot demo_conf empty_world = Some (w1, cs, ts)"
    using demo_start by auto
  note f = demo_first_read [OF i]
  let ?a = "Timer Trigger_transaction_cleanup"
  have m: "(?a, 20005) \<in> set (first_alarms 5 cs ts)" using f by (simp add: first_alarms_def)
  have n: "now_ms (loop_start (started w1) cs ts 5) = 5" by (simp add: loop_start_def)
  show ?thesis
    using every_job_comes_round [OF i rtranclp.rtrancl_refl m, of "\<lambda>p. None" "\<lambda>p. None" "\<lambda>t. t" demo_jaeger demo_api] i n
    unfolding started_def by (fastforce simp: alarm_queue_def period_def)
qed

lemma flush_backlog:
  assumes "tm_init E B c w = Some (w1, cs, ts)"
  shows "\<exists>s. (loop_step E pb templates escape)\<^sup>*\<^sup>* (loop_start t cs ts now) s \<and>
    waiting s Q_metric_flush = n \<and> sys s = t"
proof (induction n)
  case 0
  have "waiting (loop_start t cs ts now) Q_metric_flush = 0" "sys (loop_start t cs ts now) = t"
    by (simp_all add: loop_start_def)
  then show ?case by blast
next
  case (Suc n)
  then obtain s where s: "(loop_step E pb templates escape)\<^sup>*\<^sup>* (loop_start t cs ts now) s"
    "waiting s Q_metric_flush = n" "sys s = t" by blast
  have "Timer Metric_trigger_flush \<in> fst ` set (first_alarms now cs ts)"
    using tm_init_timers [OF assms] by (force simp: first_alarms_def)
  from armed [OF loop_ok_run [OF s(1)] this] obtain ms where m: "(Timer Metric_trigger_flush, ms) \<in> set (alarms s)" by blast
  let ?s' = "fire (Timer Metric_trigger_flush)
    ((s\<lparr>now_ms := max ms (now_ms s)\<rparr>)\<lparr>alarms := remove1 (Timer Metric_trigger_flush, ms) (alarms s)\<rparr>)"
  have "waiting ?s' Q_metric_flush = Suc n" "sys ?s' = t"
    using s by (simp_all add: fire_def metric_trigger_flush_def add_in_def add_asynch_def)
  then show ?case using rtranclp_trans [OF s(1) fire_next [OF m]] by blast
qed

text \<open>C21: A flush is not started again when it is done, as the comment says, but every ten seconds whether it
  is done or not: any number of flushes can be waiting. The cleanings, whose queue is bounded, never
  exceed two in any state the loop can reach.\<close>

theorem flush_backlog_unbounded:
  assumes "tm_init E B c w = Some (w1, cs, ts)"
  shows "(\<exists>s. (loop_step E pb templates escape)\<^sup>*\<^sup>* (loop_start t cs ts now) s \<and>
            waiting s Q_metric_flush = n \<and> sys s = t) \<and>
         (\<forall>s. (loop_step E pb templates escape)\<^sup>*\<^sup>* (loop_start t cs ts now) s \<longrightarrow>
            waiting s Q_transaction_clean \<le> 2)"
proof (intro conjI allI impI)
  show "\<exists>s. (loop_step E pb templates escape)\<^sup>*\<^sup>* (loop_start t cs ts now) s \<and>
          waiting s Q_metric_flush = n \<and> sys s = t"
    by (rule flush_backlog [OF assms])
next
  fix s assume "(loop_step E pb templates escape)\<^sup>*\<^sup>* (loop_start t cs ts now) s"
  from loop_ok_run [OF this] show "waiting s Q_transaction_clean \<le> 2" by (simp add: loop_ok_def)
qed

theorem flush_backlog_unbounded_witness:
  "\<exists>w1 cs ts s. tm_init demo_env demo_boot demo_conf empty_world = Some (w1, cs, ts) \<and>
     (loop_step demo_env (\<lambda>p. None) (\<lambda>p. None) (\<lambda>t. t))\<^sup>*\<^sup>* (loop_start (started w1) cs ts 5) s \<and>
     waiting s Q_metric_flush = 7 \<and> waiting s Q_transaction_clean \<le> 2"
proof -
  obtain w1 cs ts where i: "tm_init demo_env demo_boot demo_conf empty_world = Some (w1, cs, ts)"
    using demo_start by auto
  show ?thesis
    using flush_backlog_unbounded [OF i, of "\<lambda>p. None" "\<lambda>p. None" "\<lambda>t. t" "started w1" 5 7] i by blast
qed

end
