(* ===== verification/Spec2Isabelle.thy ===== *)
theory Spec2Isabelle
  imports TM_Concurrent TM_Jwt TM_Events
begin

text \<open>
  A verification development for tracemate, a daemon of one process that turns APM documents and
  OpenTelemetry spans read from Kafka into metrics for Circonus and traces for Jaeger.

  The program. Kafka jobs (main.c, tm_kafka.c) read batches of messages. A document goes to the
  handler its event names; the handler reads the team and the tags, updates the team's table of
  metrics and, for traces, the transaction store, an LMDB database of two environments that are
  rotated. Other jobs flush the metrics (to a journal, from which a thread sends them to Circonus,
  or as aggregates back to Kafka), send the marked traces to Jaeger and rotate the store, reload
  settings, and create dashboards. URLs are published to Kafka, read back by one instance and
  condensed by a tree of path segments into regular expressions, which are published and read back
  by all. Timers start the jobs.

  The theories, from the leaves up, with the files under src/src they model.

  \<^item> \<open>TM_Prelude\<close>: machine integers, C strings and buffers,
    \<open>snprintf\<close>, \<open>strstr\<close> and their kin, the type \<open>'a ub\<close>, a
    postcondition \<open>post\<close> with its rules, iteration with an invariant.
  \<^item> \<open>TM_Time\<close> (tm_utils.h): parsing a timestamp, flush windows.
  \<^item> \<open>TM_Text\<close> (tm_process.c, tm_metric.c, tm_utils.c): tag values, JSON
    escapes, URL-safe base64, the segment of a type, replacing variables.
  \<^item> \<open>TM_Squasher\<close> (tm_url_squasher.c): the tree of path segments, squashing,
    its regular expressions.
  \<^item> \<open>TM_World\<close> (tm_metric.h, tm_utils.h, main.c): the libraries as a record
    \<open>env\<close>, the state of the process as a record \<open>world\<close>, teams, settings
    of a service.
  \<^item> \<open>TM_Metric\<close> (tm_metric.c, tm_process.c) and \<open>TM_Concurrent\<close>
    (\<open>update_counter\<close> by several threads, one step per access to the table and per
    atomic operation).
  \<^item> \<open>TM_Path\<close> (tm_utils.c, tm_kafka.c): filters and generic paths, producing
    to Kafka.
  \<^item> \<open>TM_Doc\<close> (tm_process.c): what every handler reads of a document first.
  \<^item> \<open>TM_Bloom\<close> (bloom/): \<open>XXH64\<close> and the filter;
    \<open>TM_Store\<close> (tm_transaction_store.c): the records, put, get, children, marks and
    rotation.
  \<^item> \<open>TM_Updates\<close>: what a handler does to the metrics, as data;
    \<open>TM_Handlers\<close> (tm_process_error.c, tm_process_url.c, tm_process_regex.c),
    \<open>TM_Aggregate\<close>, \<open>TM_Span\<close>, \<open>TM_ProcessMetric\<close>,
    \<open>TM_Transaction\<close>, \<open>TM_Otel\<close> (tm_process_aggregate.c,
    tm_process_elastic_span.c, tm_process_metric.c, tm_process_transaction.c,
    tm_process_otel_span.cc): the handlers.
  \<^item> \<open>TM_Connect\<close> and \<open>TM_Kafka\<close> (tm_kafka.c): connections;
    dispatch, batches, the lag.
  \<^item> \<open>TM_Jaeger\<close> (tm_jaeger.cpp) and \<open>TM_Clean\<close>
    (tm_transaction_store.c, main.c): spans for Jaeger; walking the marked traces, and the
    cleaning job.
  \<^item> \<open>TM_Flush\<close> (tm_metric.c, tm_circonus.c), \<open>TM_Circonus\<close>
    (tm_circonus.c), \<open>TM_Visuals\<close> (tm_visuals.c), \<open>TM_Jwt\<close> (tm_utils.c):
    flushing, sending, dashboards, OAuth tokens.
  \<^item> \<open>TM_Init\<close> (main.c), \<open>TM_System\<close> (main.c): the start, and the
    jobs of the running process.
  \<^item> \<open>TM_Traces\<close>: the store inside the running process.
    \<open>TM_Events\<close> (main.c): timers and job queues.

  How the code is read. A function that takes a pointer to a team's data takes the name of the
  team and the \<open>world\<close>, and returns the changed world; a handler returns what the C
  function returns and the world. \<open>None\<close> of the type \<open>'a ub\<close> is an
  execution C gives no meaning to (a NULL or wild pointer followed, a buffer overrun, an
  uninitialised variable read, a wrong member of a union), one that is aborted, or one that never
  returns. Buffers have their size from the code: 4096 bytes for names (of which
  \<open>snprintf\<close> gets 4095), 3172 for tags, 2048 for aggregate tags, 128 for a team, 16
  for a method. \<open>apply_regex\<close> works on arrays of bytes with any content behind the
  text. Hash tables are maps; where the order of an iteration matters it is a parameter
  (\<open>hash_order\<close>, \<open>metric_order\<close>). Integers with a width are words, so
  they wrap. The clock is a sequence of readings; a reading that is only logged is left out. The
  results of Kafka, jlog and LMDB come from sequences too. Code that is not in the repository is a
  parameter: the record \<open>env\<close> (JSON, PCRE, histograms, doubles, base64, LZ4, URL
  decoding, hooks), \<open>boot\<close> and \<open>rd_kafka\<close> (what the libraries answer at
  the start), the protobuf parsers, the dashboard templates, the RSA signature and the HTTP
  answers. Hooks are assumed not to change the document in place; \<open>strtok_r\<close>, which
  does, is modelled by \<open>jo_cut\<close>. Where a C++ function flows off its end the result is
  the parameter \<open>junk_return\<close>. Jobs run as whole steps, except for the counters,
  whose interleavings are the subject of \<open>TM_Concurrent\<close>. The bloom filter of the
  store is the list of its keys with a membership test from \<open>env\<close>;
  \<open>with_filter\<close> puts the real filter in.

  What is proved. For the whole process: under any configuration and any sequence of jobs a metric
  keeps the member of the union its name promises (\<open>jobs_keep_types\<close>), only a flush
  removes one (\<open>only_flush_removes\<close>), a lookup in the store is exact
  (\<open>running_lookups_exact\<close>), the event loop never loses a timer or a read
  (\<open>event_loop_invariant\<close>, \<open>every_job_comes_round\<close>). For the parts:
  concurrent counting is exact and ends; a flush accounts for every metric; a batch loses none;
  the store's rotation, put, children and marks; the sender sends everything once and in order;
  the squasher forgets no path, bounds its levels and gives regular expressions that stand for its
  leaves; both formats of telemetry give the same metrics exactly when no field is missing in its
  object; the bloom filter is exact for the bits it sets. Several theorems show what goes wrong: a
  failed upload and a refused aggregate are lost, a mark whose root is in the other environment is
  passed over for ever, a document that compresses well is read back cut, flushes may queue up
  without bound.

  Interfaces are locales, each interpreted on the model: \<open>update_contract\<close> (what an
  update of a metric does to its key and to the others), \<open>document_handler\<close> (what
  every handler keeps), \<open>url_index\<close> (the squasher), \<open>marking_filter\<close>
  (the bloom filter) and \<open>job_invariant\<close> (an invariant that every job keeps).
  \<open>doc_eqs\<close>, \<open>doc_acts\<close>, \<open>sok_eqs\<close>, \<open>sok_acts\<close>
  and \<open>post_intros\<close> collect the rules by which a handler is walked through once per
  invariant.

  Loops. Structural recursion where the C loop counts down or walks a list;
  \<open>function\<close> with a measure for the loops over a buffer and the squasher's work list;
  \<open>partial_function\<close> for the two loops the program may not leave, retrying on a full
  Kafka queue (returns unless it stays full: \<open>tm_kafka_produce_returns\<close>) and the
  cleaning job (two rounds are enough when the second environment is fresh:
  \<open>transaction_clean_two_rounds\<close>). No fuel is used.

  Not modelled. The hook declarations (tm_hooks.c), the registration of statistics, the command
  line, signals, \<open>main\<close> and the REST handlers, which only call libmtev; the protobuf
  schemas and generated code; the streaming and 32-bit hashes and the filters of the vendored
  bloom library that the program does not use; the freeing of memory, except where freed memory is
  read again; the web console, build files, charts and images.
\<close>

end
